(* ===== verification/Prelude.thy ===== *)
theory Prelude
  imports Complex_Main "HOL-Library.Multiset" "HOL-Library.Word"
begin

text \<open>
  The shared ground of the development: machine integers, effectful actions with errors,
  Rust's stable \<open>sort_by\<close>, and the generic lemmas the components use.

  Rust's \<open>u32\<close> is \<open>32 word\<close> (arithmetic wraps, as in the release profile the Dockerfile
  builds); \<open>i64\<close> is \<open>int\<close> with the wrap-around written out by \<open>wrap_i64\<close>; \<open>usize\<close> counts
  are \<open>nat\<close>, and \<open>as u32\<close> is \<open>of_nat\<close>.
\<close>

type_synonym u32 = "32 word"
type_synonym u64 = "64 word"
type_synonym i32 = "32 word" \<comment> \<open>read with \<open>sint\<close>\<close>
type_synonym i64 = int

named_theorems act_simps \<open>unfolding of effectful actions\<close>
named_theorems frame \<open>what an operation leaves unchanged\<close>

section \<open>Machine integers\<close>

definition wrap_i64 :: "int \<Rightarrow> i64" where
  "wrap_i64 x = (x + 2 ^ 63) mod 2 ^ 64 - 2 ^ 63"

definition i64_range :: "int \<Rightarrow> bool" where
  "i64_range x \<longleftrightarrow> - (2 ^ 63) \<le> x \<and> x < 2 ^ 63"

lemma wrap_i64_id [simp]: "i64_range x \<Longrightarrow> wrap_i64 x = x"
  by (simp add: wrap_i64_def i64_range_def)

lemma wrap_i64_range [simp]: "i64_range (wrap_i64 x)"
proof -
  have "0 \<le> (x + 2 ^ 63) mod 2 ^ 64" "(x + 2 ^ 63) mod 2 ^ 64 < 2 ^ 64"
    by (rule pos_mod_sign pos_mod_bound, simp)+
  then show ?thesis by (simp add: wrap_i64_def i64_range_def)
qed

lemma wrap_i64_add [simp]:
  "wrap_i64 (wrap_i64 x + y) = wrap_i64 (x + y)" "wrap_i64 (x + wrap_i64 y) = wrap_i64 (x + y)"
proof -
  have eq: "wrap_i64 (a + wrap_i64 b) = wrap_i64 (a + b)" for a b
  proof -
    have "(a + wrap_i64 b + 2 ^ 63) mod 2 ^ 64 = (a + (b + 2 ^ 63) mod 2 ^ 64) mod 2 ^ 64"
      by (simp add: wrap_i64_def)
    also have "\<dots> = (a + b + 2 ^ 63) mod 2 ^ 64" by (simp only: mod_add_right_eq add.assoc)
    finally show ?thesis by (simp add: wrap_i64_def)
  qed
  show "wrap_i64 (x + wrap_i64 y) = wrap_i64 (x + y)" by (rule eq)
  show "wrap_i64 (wrap_i64 x + y) = wrap_i64 (x + y)" using eq [of y x] by (simp add: add.commute)
qed

lemma unat_of_nat_u32: "n < 2 ^ 32 \<Longrightarrow> unat (of_nat n :: u32) = n"
  by (simp add: unat_of_nat)

lemma uint_u32_bounds: "0 \<le> uint (w :: u32)" "uint (w :: u32) < 2 ^ 32"
  using uint_lt2p [of w] by simp_all

section \<open>Effectful actions\<close>

text \<open>
  An asynchronous operation of the program is a function from the state of the store to a
  result (an error or a value) and the next state. \<open>try_await m k\<close> is Rust's
  \<open>let x = m.await?; k(x)\<close>: an error ends the operation early, with the state reached so
  far. \<open>attempt\<close> is \<open>m.await\<close> without the question mark: the error is a value the
  continuation inspects.
\<close>

type_synonym ('s, 'e, 'a) act = "'s \<Rightarrow> ('e + 'a) \<times> 's"

definition ret :: "'a \<Rightarrow> ('s, 'e, 'a) act" where
  "ret x = (\<lambda>s. (Inr x, s))"

definition fail :: "'e \<Rightarrow> ('s, 'e, 'a) act" where
  "fail e = (\<lambda>s. (Inl e, s))"

definition try_await :: "('s, 'e, 'a) act \<Rightarrow> ('a \<Rightarrow> ('s, 'e, 'b) act) \<Rightarrow> ('s, 'e, 'b) act" where
  "try_await m k = (\<lambda>s. case m s of (Inl e, s') \<Rightarrow> (Inl e, s') | (Inr x, s') \<Rightarrow> k x s')"

definition attempt :: "('s, 'e, 'a) act \<Rightarrow> ('s, 'e2, 'e + 'a) act" where
  "attempt m = (\<lambda>s. case m s of (r, s') \<Rightarrow> (Inr r, s'))"

definition map_err :: "('e \<Rightarrow> 'e2) \<Rightarrow> ('s, 'e, 'a) act \<Rightarrow> ('s, 'e2, 'a) act" where
  "map_err f m = (\<lambda>s. case m s of (Inl e, s') \<Rightarrow> (Inl (f e), s') | (Inr x, s') \<Rightarrow> (Inr x, s'))"

lemma ret_apply [simp, act_simps]: "ret x s = (Inr x, s)"
  by (simp add: ret_def)

lemma fail_apply [simp, act_simps]: "fail e s = (Inl e, s)"
  by (simp add: fail_def)

lemma try_await_Inr [act_simps]: "m s = (Inr x, s') \<Longrightarrow> try_await m k s = k x s'"
  by (simp add: try_await_def)

lemma try_await_Inl [act_simps]: "m s = (Inl e, s') \<Longrightarrow> try_await m k s = (Inl e, s')"
  by (simp add: try_await_def)

lemma try_await_ret [simp]: "try_await (ret x) k = k x"
  by (simp add: try_await_def ret_def)

lemma try_await_fail [simp]: "try_await (fail e) k = fail e"
  by (simp add: try_await_def fail_def)

text \<open>Inversion: how a sequence of two actions can have ended.\<close>

lemma try_await_cases:
  assumes "try_await m k s = (r, s'')"
  obtains (err) e where "m s = (Inl e, s'')" "r = Inl e"
  | (ok) x s' where "m s = (Inr x, s')" "k x s' = (r, s'')"
  using assms by (auto simp: try_await_def split: prod.splits sum.splits)

lemma try_await_ok_cases:
  assumes "try_await m k s = (Inr y, s'')"
  obtains x s' where "m s = (Inr x, s')" "k x s' = (Inr y, s'')"
  using assms by (auto simp: try_await_def split: prod.splits sum.splits)

lemma attempt_eq: "attempt m s = (r, s') \<longleftrightarrow> (\<exists>x. m s = (x, s') \<and> r = Inr x)"
  by (auto simp: attempt_def split: prod.splits)

lemma map_err_Inr: "map_err f m s = (Inr x, s') \<longleftrightarrow> m s = (Inr x, s')"
  by (auto simp: map_err_def split: prod.splits sum.splits)

lemma map_err_Inl: "map_err f m s = (Inl e', s') \<longleftrightarrow> (\<exists>e. m s = (Inl e, s') \<and> e' = f e)"
  by (auto simp: map_err_def split: prod.splits sum.splits)

text \<open>
  An action keeps an observation \<open>v\<close> of the state when every run leaves it as it was: the
  frame rule every read of the store satisfies, closed under sequencing.
\<close>

definition keeps :: "('s \<Rightarrow> 'v) \<Rightarrow> ('s, 'e, 'a) act \<Rightarrow> bool" where
  "keeps v m \<longleftrightarrow> (\<forall>s. v (snd (m s)) = v s)"

lemma keepsI: "(\<And>s r s'. m s = (r, s') \<Longrightarrow> v s' = v s) \<Longrightarrow> keeps v m"
  by (metis keeps_def prod.collapse)

lemma keepsD: "keeps v m \<Longrightarrow> m s = (r, s') \<Longrightarrow> v s' = v s"
  by (metis keeps_def snd_conv)

lemma keeps_ret [simp, intro]: "keeps v (ret x)"
  by (simp add: keeps_def)

lemma keeps_fail [simp, intro]: "keeps v (fail e)"
  by (simp add: keeps_def)

lemma keeps_try_await [intro]:
  assumes "keeps v m" "\<And>x. keeps v (k x)"
  shows "keeps v (try_await m k)"
proof (rule keepsI)
  fix s r s'
  assume "try_await m k s = (r, s')"
  then show "v s' = v s"
  proof (cases rule: try_await_cases)
    case (err e)
    with assms(1) show ?thesis by (auto dest: keepsD)
  next
    case (ok x s1)
    with assms have "v s1 = v s" "v s' = v s1" by (auto dest: keepsD)
    then show ?thesis by simp
  qed
qed

lemma keeps_attempt [intro]: "keeps v m \<Longrightarrow> keeps v (attempt m)"
  by (auto simp: attempt_eq intro!: keepsI dest: keepsD)

lemma keeps_map_err [intro]: "keeps v m \<Longrightarrow> keeps v (map_err f m)"
  by (auto simp: keeps_def map_err_def split: prod.splits sum.splits) (metis snd_conv)+

lemma keeps_if [intro]: "(b \<Longrightarrow> keeps v m) \<Longrightarrow> (\<not> b \<Longrightarrow> keeps v n) \<Longrightarrow> keeps v (if b then m else n)"
  by simp

lemma keeps_case_option [intro]:
  "keeps v m \<Longrightarrow> (\<And>x. keeps v (k x)) \<Longrightarrow> keeps v (case y of None \<Rightarrow> m | Some x \<Rightarrow> k x)"
  by (cases y) simp_all

lemma keeps_case_sum [intro]:
  "(\<And>e. keeps v (f e)) \<Longrightarrow> (\<And>x. keeps v (k x)) \<Longrightarrow> keeps v (case y of Inl e \<Rightarrow> f e | Inr x \<Rightarrow> k x)"
  by (cases y) simp_all

text \<open>A loop that awaits an action per element and collects the results.\<close>

fun each :: "('a \<Rightarrow> ('s, 'e, 'b) act) \<Rightarrow> 'a list \<Rightarrow> ('s, 'e, 'b list) act" where
  "each f [] = ret []"
| "each f (x # xs) = try_await (f x) (\<lambda>y. try_await (each f xs) (\<lambda>ys. ret (y # ys)))"

lemma keeps_each [intro]: "(\<And>x. keeps v (f x)) \<Longrightarrow> keeps v (each f xs)"
  by (induction xs) (auto intro!: keeps_try_await)

text \<open>When each step reads a function of what it keeps, the loop maps that function.\<close>

lemma each_reads:
  assumes "\<And>x s y s'. f x s = (Inr y, s') \<Longrightarrow> g (v s) x = Some y \<and> v s' = v s"
  shows "each f xs s = (Inr ys, s') \<Longrightarrow> map (g (v s)) xs = map Some ys \<and> v s' = v s"
proof (induction xs arbitrary: s ys)
  case (Cons x xs)
  from Cons.prems obtain y s1 zs where 1: "f x s = (Inr y, s1)" and 2: "each f xs s1 = (Inr zs, s')"
    and ys: "ys = y # zs"
    by (auto elim!: try_await_ok_cases)
  from assms [OF 1] have "g (v s) x = Some y" "v s1 = v s" by simp_all
  with Cons.IH [OF 2] ys show ?case by simp
qed simp

text \<open>
  An action stays within a relation on states when every run of it, failed ones included,
  relates the state before to the state after. For a reflexive and transitive relation this
  is closed under sequencing: an invariant (\<open>I s\<close> implies \<open>I s'\<close>) and the reachability of a
  transition system are such relations.
\<close>

definition stays :: "('s \<Rightarrow> 's \<Rightarrow> bool) \<Rightarrow> ('s, 'e, 'a) act \<Rightarrow> bool" where
  "stays R m \<longleftrightarrow> (\<forall>s. R s (snd (m s)))"

lemma staysI: "(\<And>s r s'. m s = (r, s') \<Longrightarrow> R s s') \<Longrightarrow> stays R m"
  by (metis stays_def prod.collapse)

lemma staysD: "stays R m \<Longrightarrow> m s = (r, s') \<Longrightarrow> R s s'"
  by (metis stays_def snd_conv)

lemma stays_ret [intro]: "reflp R \<Longrightarrow> stays R (ret x)"
  by (simp add: stays_def reflp_def)

lemma stays_fail [intro]: "reflp R \<Longrightarrow> stays R (fail e)"
  by (simp add: stays_def reflp_def)

lemma stays_try_await [intro]:
  assumes "transp R" "stays R m" "\<And>x. stays R (k x)"
  shows "stays R (try_await m k)"
proof (rule staysI)
  fix s r s'
  assume "try_await m k s = (r, s')"
  then show "R s s'"
  proof (cases rule: try_await_cases)
    case (err e)
    with assms(2) show ?thesis by (auto dest: staysD)
  next
    case (ok x s1)
    with assms(2,3) have "R s s1" "R s1 s'" by (auto dest: staysD)
    with assms(1) show ?thesis by (rule transpD)
  qed
qed

lemma stays_attempt [intro]: "stays R m \<Longrightarrow> stays R (attempt m)"
  by (auto simp: attempt_eq intro!: staysI dest: staysD)

lemma stays_map_err [intro]: "stays R m \<Longrightarrow> stays R (map_err f m)"
  by (auto simp: stays_def map_err_def split: prod.splits sum.splits) (metis snd_conv)+

lemma stays_if [intro]: "(b \<Longrightarrow> stays R m) \<Longrightarrow> (\<not> b \<Longrightarrow> stays R n) \<Longrightarrow> stays R (if b then m else n)"
  by simp

lemma stays_case_option [intro]:
  "stays R m \<Longrightarrow> (\<And>x. stays R (k x)) \<Longrightarrow> stays R (case y of None \<Rightarrow> m | Some x \<Rightarrow> k x)"
  by (cases y) simp_all

lemma stays_case_sum [intro]:
  "(\<And>e. stays R (f e)) \<Longrightarrow> (\<And>x. stays R (k x)) \<Longrightarrow> stays R (case y of Inl e \<Rightarrow> f e | Inr x \<Rightarrow> k x)"
  by (cases y) simp_all

lemma stays_each [intro]:
  "reflp R \<Longrightarrow> transp R \<Longrightarrow> (\<And>x. stays R (f x)) \<Longrightarrow> stays R (each f xs)"
  by (induction xs) (auto intro!: stays_try_await)

text \<open>The two relations used most.\<close>

abbreviation upholds :: "('s \<Rightarrow> bool) \<Rightarrow> ('s, 'e, 'a) act \<Rightarrow> bool" where
  "upholds I \<equiv> stays (\<lambda>s s'. I s \<longrightarrow> I s')"

lemma upholds_rel [simp, intro]: "reflp (\<lambda>s s'. I s \<longrightarrow> I s')" "transp (\<lambda>s s'. I s \<longrightarrow> I s')"
  by (auto simp: reflp_def transp_def)

lemma upholds_keeps: "keeps v m \<Longrightarrow> (\<And>s. I s \<longleftrightarrow> J (v s)) \<Longrightarrow> upholds I m"
  by (simp add: stays_def keeps_def)

section \<open>Stable sorting\<close>

text \<open>
  \<open>slice::sort_by\<close> is a stable sort with respect to a comparison function. The standard
  library's algorithm is not modelled, its result is: a stable insertion sort, which on a
  total preorder gives the only stable sorted permutation.
\<close>

datatype ordering = Less | Equal | Greater

text \<open>\<open>Ordering\<close> derives \<open>Ord\<close>: its constructors ascend.\<close>

instantiation ordering :: linorder
begin

fun less_eq_ordering :: "ordering \<Rightarrow> ordering \<Rightarrow> bool" where
  "less_eq_ordering Less b = True"
| "less_eq_ordering Equal b = (b \<noteq> Less)"
| "less_eq_ordering Greater b = (b = Greater)"

definition less_ordering :: "ordering \<Rightarrow> ordering \<Rightarrow> bool" where
  "less_ordering a b \<longleftrightarrow> a \<le> b \<and> a \<noteq> b"

instance
proof
  fix x y z :: ordering
  show "x < y \<longleftrightarrow> x \<le> y \<and> \<not> y \<le> x" by (cases x; cases y) (simp_all add: less_ordering_def)
  show "x \<le> x" by (cases x) simp_all
  show "x \<le> y \<Longrightarrow> y \<le> z \<Longrightarrow> x \<le> z" by (cases x; cases y; cases z) simp_all
  show "x \<le> y \<Longrightarrow> y \<le> x \<Longrightarrow> x = y" by (cases x; cases y) simp_all
  show "x \<le> y \<or> y \<le> x" by (cases x; cases y) simp_all
qed

end

lemma le_Equal_iff: "c \<le> Equal \<longleftrightarrow> c \<noteq> Greater"
  by (cases c) simp_all

definition cmp :: "'a::linorder \<Rightarrow> 'a \<Rightarrow> ordering" where
  "cmp x y = (if x < y then Less else if x = y then Equal else Greater)"

fun then_with :: "ordering \<Rightarrow> ordering \<Rightarrow> ordering" where
  "then_with Equal o2 = o2"
| "then_with o1 o2 = o1"

fun insert_by :: "('a \<Rightarrow> 'a \<Rightarrow> ordering) \<Rightarrow> 'a \<Rightarrow> 'a list \<Rightarrow> 'a list" where
  "insert_by c x [] = [x]"
| "insert_by c x (y # ys) = (if c x y = Greater then y # insert_by c x ys else x # y # ys)"

definition sort_by :: "('a \<Rightarrow> 'a \<Rightarrow> ordering) \<Rightarrow> 'a list \<Rightarrow> 'a list" where
  "sort_by c xs = foldr (insert_by c) xs []"

lemma mset_insert_by [simp]: "mset (insert_by c x xs) = add_mset x (mset xs)"
  by (induction xs) auto

lemma mset_sort_by [simp]: "mset (sort_by c xs) = mset xs"
  unfolding sort_by_def by (induction xs) auto

lemma set_insert_by [simp]: "set (insert_by c x xs) = insert x (set xs)"
  using mset_insert_by [of c x xs] by (metis set_mset_add_mset_insert set_mset_mset)

lemma set_sort_by [simp]: "set (sort_by c xs) = set xs"
  using mset_sort_by [of c xs] by (metis set_mset_mset)

lemma length_sort_by [simp]: "length (sort_by c xs) = length xs"
  using mset_sort_by [of c xs] by (metis size_mset)

text \<open>
  On a carrier where \<open>c\<close> never says Greater both ways and is transitive, the result is
  sorted; it is stable for any class of elements that compare equal or less to each other.
\<close>

definition total_preorder_on :: "'a set \<Rightarrow> ('a \<Rightarrow> 'a \<Rightarrow> ordering) \<Rightarrow> bool" where
  "total_preorder_on A c \<longleftrightarrow>
     (\<forall>x\<in>A. \<forall>y\<in>A. c x y = Greater \<longrightarrow> c y x \<noteq> Greater) \<and>
     (\<forall>x\<in>A. \<forall>y\<in>A. \<forall>z\<in>A. c x y \<noteq> Greater \<longrightarrow> c y z \<noteq> Greater \<longrightarrow> c x z \<noteq> Greater)"

lemma total_preorder_total:
  "total_preorder_on A c \<Longrightarrow> c x y = Greater \<Longrightarrow> x \<in> A \<Longrightarrow> y \<in> A \<Longrightarrow> c y x \<noteq> Greater"
  unfolding total_preorder_on_def by blast

lemma total_preorder_trans:
  assumes "total_preorder_on A c" "c x y \<noteq> Greater" "c y z \<noteq> Greater"
    "x \<in> A" "z \<in> A" "y \<in> A"
  shows "c x z \<noteq> Greater"
  using assms unfolding total_preorder_on_def by blast

lemma sorted_insert_by:
  assumes "total_preorder_on A c" "x \<in> A" "set xs \<subseteq> A"
    "sorted_wrt (\<lambda>a b. c a b \<noteq> Greater) xs"
  shows "sorted_wrt (\<lambda>a b. c a b \<noteq> Greater) (insert_by c x xs)"
  using assms(3,4)
proof (induction xs)
  case Nil
  then show ?case by simp
next
  case (Cons y ys)
  show ?case
  proof (cases "c x y = Greater")
    case True
    with assms(1,2) Cons.prems(1) have "c y x \<noteq> Greater"
      by (simp add: total_preorder_total)
    with Cons.prems have "sorted_wrt (\<lambda>a b. c a b \<noteq> Greater) (insert_by c x ys)"
      by (intro Cons.IH) auto
    with True \<open>c y x \<noteq> Greater\<close> Cons.prems(2) show ?thesis by simp
  next
    case False
    have "c x z \<noteq> Greater" if "z \<in> set ys" for z
    proof -
      from that Cons.prems have "c y z \<noteq> Greater" "z \<in> A" "y \<in> A" by auto
      then show ?thesis
        using total_preorder_trans [OF assms(1) False] assms(2) by simp
    qed
    with False Cons.prems show ?thesis by simp
  qed
qed

lemma sorted_sort_by:
  assumes "total_preorder_on A c" "set xs \<subseteq> A"
  shows "sorted_wrt (\<lambda>a b. c a b \<noteq> Greater) (sort_by c xs)"
  using assms(2)
proof (induction xs)
  case Nil
  then show ?case by (simp add: sort_by_def)
next
  case (Cons x xs)
  have step: "sort_by c (x # xs) = insert_by c x (sort_by c xs)" by (simp add: sort_by_def)
  from Cons have "sorted_wrt (\<lambda>a b. c a b \<noteq> Greater) (sort_by c xs)" by simp
  with Cons.prems show ?case
    unfolding step by (intro sorted_insert_by [OF assms(1)]) auto
qed

lemma sorted_sort_by_le:
  "total_preorder_on UNIV c \<Longrightarrow> sorted_wrt (\<lambda>a b. c a b \<le> Equal) (sort_by c xs)"
  unfolding le_Equal_iff by (rule sorted_sort_by [where A = UNIV]) simp_all

lemma filter_insert_by:
  assumes "\<And>y. P x \<Longrightarrow> P y \<Longrightarrow> y \<in> set xs \<Longrightarrow> c x y \<noteq> Greater"
  shows "filter P (insert_by c x xs) = (if P x then x # filter P xs else filter P xs)"
  using assms by (induction xs) auto

text \<open>Stability: a class of elements none of which is Greater than another keeps its order.\<close>

lemma sort_by_stable:
  assumes "\<And>x y. x \<in> set xs \<Longrightarrow> y \<in> set xs \<Longrightarrow> P x \<Longrightarrow> P y \<Longrightarrow> c x y \<noteq> Greater"
  shows "filter P (sort_by c xs) = filter P xs"
  using assms
proof (induction xs)
  case Nil
  then show ?case by (simp add: sort_by_def)
next
  case (Cons x xs)
  have step: "sort_by c (x # xs) = insert_by c x (sort_by c xs)" by (simp add: sort_by_def)
  have "filter P (insert_by c x (sort_by c xs)) =
      (if P x then x # filter P (sort_by c xs) else filter P (sort_by c xs))"
    by (rule filter_insert_by) (use Cons.prems in auto)
  moreover have "filter P (sort_by c xs) = filter P xs"
    by (rule Cons.IH) (use Cons.prems in auto)
  ultimately show ?case by (simp add: step)
qed

text \<open>Comparisons built from keys: lexicographic composition of total preorders.\<close>

lemma then_with_Greater: "then_with a b = Greater \<longleftrightarrow> a = Greater \<or> a = Equal \<and> b = Greater"
  by (cases a) auto

lemma cmp_simps [simp]:
  "cmp x y = Greater \<longleftrightarrow> y < x" "cmp x y = Equal \<longleftrightarrow> x = y" "cmp x y = Less \<longleftrightarrow> x < y"
  by (auto simp: cmp_def)

section \<open>Lists, sets and multisets\<close>

lemma mset_eq_set: "mset xs = mset ys \<Longrightarrow> set xs = set ys"
  by (metis set_mset_mset)

lemma mset_filter_eq: "mset xs = mset ys \<Longrightarrow> mset (filter P xs) = mset (filter P ys)"
  by simp

lemma mset_eq_length_filter: "mset xs = mset ys \<Longrightarrow> length (filter P xs) = length (filter P ys)"
  by (metis mset_filter size_mset)

lemma mset_eq_filter_empty: "mset xs = mset ys \<Longrightarrow> filter P xs = [] \<longleftrightarrow> filter P ys = []"
  by (metis mset_filter mset_zero_iff)

lemma mset_eq_list_ex: "mset xs = mset ys \<Longrightarrow> list_ex P xs = list_ex P ys"
  by (metis list_ex_iff mset_eq_setD)

end
