(* ===== verification/F64.thy ===== *)
theory F64
  imports Prelude "HOL-Library.Log_Nat"
begin

text \<open>
  Rust's \<open>f64\<close>, the IEEE 754 binary64 arithmetic the scoring code computes with. A finite
  value is the rational it denotes; every operation is the exact rational result rounded to
  nearest, ties to even, at 53 bits of precision and a least exponent of -1074, with
  overflow to infinity. The sign of zero is not represented: no division of the program
  divides by a zero whose sign a computation produced. Casts to integers truncate and
  saturate, with NaN going to 0, as Rust's \<open>as\<close> does.

  The lemmas give what the scoring proofs need of rounding: it is monotone, it is exact on
  every representable value (all integers below \<open>2^53\<close> among them), and it does not
  overflow below \<open>2^1023\<close>.
\<close>

datatype f64 = Fin rat | PInf | NInf | NaN

section \<open>Rounding\<close>

text \<open>Powers of two, with an evaluation that squares instead of counting up.\<close>

definition pow2 :: "int \<Rightarrow> rat" where
  "pow2 e = 2 powi e"

function pow2_int :: "int \<Rightarrow> int" where
  "pow2_int e =
     (if e \<le> 0 then 1
      else let h = pow2_int (e div 2) in if even e then h * h else 2 * (h * h))"
  by pat_completeness auto
termination
  by (relation "measure nat") auto

declare pow2_int.simps [simp del]

lemma pow2_int_eq: "pow2_int e = 2 ^ nat e"
proof (induction e rule: pow2_int.induct)
  case (1 e)
  show ?case
  proof (cases "e \<le> 0")
    case True
    then show ?thesis by (subst pow2_int.simps) simp
  next
    case False
    define k where "k = e div 2"
    have IH: "pow2_int k = 2 ^ nat k" using False "1" by (simp add: k_def)
    have step: "pow2_int e = (if even e then pow2_int k * pow2_int k else 2 * (pow2_int k * pow2_int k))"
      using False by (subst pow2_int.simps) (simp add: Let_def k_def)
    have k: "0 \<le> k" using False by (simp add: k_def)
    show ?thesis
    proof (cases "even e")
      case True
      then have "e = k + k" by (simp add: k_def)
      then have "nat e = nat k + nat k" using k by simp
      with True show ?thesis by (simp add: step IH power_add)
    next
      case False
      then have "e = k + k + 1" unfolding k_def by presburger
      then have "nat e = Suc (nat k + nat k)" using k by simp
      with False show ?thesis by (simp add: step IH power_add)
    qed
  qed
qed

lemma pow2_code [code]:
  "pow2 e = (if 0 \<le> e then of_int (pow2_int e) else 1 / of_int (pow2_int (- e)))"
proof (cases "0 \<le> e")
  case True
  then show ?thesis by (simp add: pow2_def power_int_def pow2_int_eq)
next
  case False
  then show ?thesis by (simp add: pow2_def power_int_def pow2_int_eq power_one_over)
qed

definition rat_exp :: "rat \<Rightarrow> int" where
  "rat_exp q =
     (let (n, d) = quotient_of q;
          k = bitlen n - bitlen d
      in if pow2 k \<le> q then k else k - 1)"

definition round_half_even :: "rat \<Rightarrow> int" where
  "round_half_even x =
     (let f = \<lfloor>x\<rfloor>; r = x - of_int f
      in if r < 1 / 2 \<or> (r = 1 / 2 \<and> even f) then f else f + 1)"

definition ulp_exp :: "rat \<Rightarrow> int" where
  "ulp_exp q = max (rat_exp \<bar>q\<bar>) (- 1022) - 52"

definition round_rat :: "rat \<Rightarrow> rat" where
  "round_rat q =
     (if q = 0 then 0
      else let u = pow2 (ulp_exp q) in of_int (round_half_even (q / u)) * u)"

definition f64_of_rat :: "rat \<Rightarrow> f64" where
  "f64_of_rat q =
     (let r = round_rat q
      in if pow2 1024 \<le> r then PInf else if r \<le> - pow2 1024 then NInf else Fin r)"

section \<open>Operations\<close>

fun f64_add :: "f64 \<Rightarrow> f64 \<Rightarrow> f64" where
  "f64_add (Fin a) (Fin b) = f64_of_rat (a + b)"
| "f64_add NaN _ = NaN"
| "f64_add _ NaN = NaN"
| "f64_add PInf NInf = NaN"
| "f64_add NInf PInf = NaN"
| "f64_add PInf _ = PInf"
| "f64_add _ PInf = PInf"
| "f64_add NInf _ = NInf"
| "f64_add _ NInf = NInf"

fun f64_neg :: "f64 \<Rightarrow> f64" where
  "f64_neg (Fin a) = Fin (- a)"
| "f64_neg PInf = NInf"
| "f64_neg NInf = PInf"
| "f64_neg NaN = NaN"

definition f64_sub :: "f64 \<Rightarrow> f64 \<Rightarrow> f64" where
  "f64_sub a b = f64_add a (f64_neg b)"

definition f64_inf_signed :: "rat \<Rightarrow> f64" where
  "f64_inf_signed a = (if a = 0 then NaN else if 0 < a then PInf else NInf)"

fun f64_mul :: "f64 \<Rightarrow> f64 \<Rightarrow> f64" where
  "f64_mul (Fin a) (Fin b) = f64_of_rat (a * b)"
| "f64_mul NaN _ = NaN"
| "f64_mul _ NaN = NaN"
| "f64_mul PInf (Fin b) = f64_inf_signed b"
| "f64_mul NInf (Fin b) = f64_inf_signed (- b)"
| "f64_mul (Fin a) PInf = f64_inf_signed a"
| "f64_mul (Fin a) NInf = f64_inf_signed (- a)"
| "f64_mul PInf PInf = PInf"
| "f64_mul NInf NInf = PInf"
| "f64_mul PInf NInf = NInf"
| "f64_mul NInf PInf = NInf"

fun f64_div :: "f64 \<Rightarrow> f64 \<Rightarrow> f64" where
  "f64_div (Fin a) (Fin b) = (if b = 0 then f64_inf_signed a else f64_of_rat (a / b))"
| "f64_div NaN _ = NaN"
| "f64_div _ NaN = NaN"
| "f64_div (Fin a) _ = Fin 0"
| "f64_div PInf (Fin b) = (if 0 \<le> b then PInf else NInf)"
| "f64_div NInf (Fin b) = (if 0 \<le> b then NInf else PInf)"
| "f64_div _ _ = NaN"

text \<open>\<open>f64::round\<close>: half away from zero. \<open>as u32\<close>, \<open>as i64\<close>: truncate and saturate.\<close>

definition rat_round :: "rat \<Rightarrow> int" where
  "rat_round q = (if 0 \<le> q then \<lfloor>q + 1 / 2\<rfloor> else - \<lfloor>- q + 1 / 2\<rfloor>)"

definition rat_trunc :: "rat \<Rightarrow> int" where
  "rat_trunc q = (if 0 \<le> q then \<lfloor>q\<rfloor> else - \<lfloor>- q\<rfloor>)"

fun f64_round :: "f64 \<Rightarrow> f64" where
  "f64_round (Fin q) = Fin (of_int (rat_round q))"
| "f64_round x = x"

fun f64_to_int :: "int \<Rightarrow> int \<Rightarrow> f64 \<Rightarrow> int" where
  "f64_to_int lo hi (Fin q) = max lo (min hi (rat_trunc q))"
| "f64_to_int lo hi PInf = hi"
| "f64_to_int lo hi NInf = lo"
| "f64_to_int lo hi NaN = 0"

definition f64_to_u32 :: "f64 \<Rightarrow> u32" where
  "f64_to_u32 x = of_int (f64_to_int 0 (2 ^ 32 - 1) x)"

definition f64_to_i64 :: "f64 \<Rightarrow> i64" where
  "f64_to_i64 x = f64_to_int (- (2 ^ 63)) (2 ^ 63 - 1) x"

definition f64_of_u32 :: "u32 \<Rightarrow> f64" where
  "f64_of_u32 w = f64_of_rat (of_int (uint w))"

definition f64_of_nat :: "nat \<Rightarrow> f64" where
  "f64_of_nat n = f64_of_rat (of_nat n)"

definition f64_of_i64 :: "i64 \<Rightarrow> f64" where
  "f64_of_i64 i = f64_of_rat (of_int i)"

fun f64_partial_cmp :: "f64 \<Rightarrow> f64 \<Rightarrow> ordering option" where
  "f64_partial_cmp NaN _ = None"
| "f64_partial_cmp _ NaN = None"
| "f64_partial_cmp (Fin a) (Fin b) = Some (cmp a b)"
| "f64_partial_cmp PInf PInf = Some Equal"
| "f64_partial_cmp NInf NInf = Some Equal"
| "f64_partial_cmp PInf _ = Some Greater"
| "f64_partial_cmp _ PInf = Some Less"
| "f64_partial_cmp NInf _ = Some Less"
| "f64_partial_cmp _ NInf = Some Greater"

section \<open>Exponents\<close>

lemma floorlog_rat:
  assumes "0 < n"
  shows "2 powi (int (floorlog 2 n) - 1) \<le> (of_nat n :: rat)"
    "(of_nat n :: rat) < 2 powi int (floorlog 2 n)"
proof -
  have "0 < floorlog 2 n" using assms by (simp add: floorlog_def)
  then have e: "int (floorlog 2 n) - 1 = int (floorlog 2 n - 1)" by simp
  have "2 ^ (floorlog 2 n - 1) \<le> n" "n < 2 ^ floorlog 2 n"
    using floorlog_bounds [of n 2] assms by simp_all
  then have "(2 :: rat) ^ (floorlog 2 n - 1) \<le> of_nat n" "(of_nat n :: rat) < 2 ^ floorlog 2 n"
    by (metis of_nat_le_iff of_nat_numeral of_nat_power)
       (metis \<open>n < 2 ^ floorlog 2 n\<close> of_nat_less_iff of_nat_numeral of_nat_power)
  then show "2 powi (int (floorlog 2 n) - 1) \<le> (of_nat n :: rat)"
    "(of_nat n :: rat) < 2 powi int (floorlog 2 n)"
    unfolding e by simp_all
qed

lemma rat_exp_bounds:
  assumes "0 < q"
  shows "2 powi rat_exp q \<le> q" "q < 2 powi (rat_exp q + 1)"
proof -
  obtain n d where nd: "quotient_of q = (n, d)" by (cases "quotient_of q")
  have d: "0 < d" and q: "q = of_int n / of_int d"
    using quotient_of_denom_pos [OF nd] quotient_of_div [OF nd] by simp_all
  with assms have n: "0 < n" by (simp add: zero_less_divide_iff)
  define a where "a = int (floorlog 2 (nat n))"
  define b where "b = int (floorlog 2 (nat d))"
  have N: "2 powi (a - 1) \<le> (of_int n :: rat)" "(of_int n :: rat) < 2 powi a"
    and D: "2 powi (b - 1) \<le> (of_int d :: rat)" "(of_int d :: rat) < 2 powi b"
    using floorlog_rat [of "nat n"] floorlog_rat [of "nat d"] n d by (simp_all add: a_def b_def)
  have pos: "0 < (of_int n :: rat)" "0 < (of_int d :: rat)" using n d by simp_all
  have "of_int n / of_int d < 2 powi a / (2 powi (b - 1) :: rat)"
    by (rule frac_less) (use N D pos in simp_all)
  also have "\<dots> = 2 powi (a - b + 1)" by (simp add: power_int_diff power_int_add)
  finally have up: "q < 2 powi (a - b + 1)" unfolding q .
  have "2 powi (a - 1) / (2 powi b :: rat) \<le> of_int n / of_int d"
    by (rule frac_le) (use N D pos in simp_all)
  moreover have "2 powi (a - 1) / (2 powi b :: rat) = 2 powi (a - b - 1)"
    by (simp add: power_int_diff)
  ultimately have lo: "2 powi (a - b - 1) \<le> q" unfolding q by simp
  have e: "rat_exp q = (if 2 powi (a - b) \<le> q then a - b else a - b - 1)"
    by (simp add: rat_exp_def nd a_def b_def Let_def pow2_def bitlen_def)
  show "2 powi rat_exp q \<le> q" "q < 2 powi (rat_exp q + 1)"
    using lo up by (auto simp: e split: if_splits)
qed

lemma rat_exp_less: "0 < q \<Longrightarrow> q < 2 powi k \<Longrightarrow> rat_exp q < k"
proof (rule ccontr)
  assume q: "0 < q" "q < 2 powi k" and "\<not> rat_exp q < k"
  then have "(2 :: rat) powi k \<le> 2 powi rat_exp q" by (simp add: power_int_increasing)
  with rat_exp_bounds(1) [OF q(1)] q(2) show False by simp
qed

lemma rat_exp_mono: "0 < p \<Longrightarrow> p \<le> q \<Longrightarrow> rat_exp p \<le> rat_exp q"
  using rat_exp_less [of p "rat_exp q + 1"] rat_exp_bounds(2) [of q] by simp

section \<open>Rounding is monotone, odd and exact on representable values\<close>

lemma round_half_even_of_int [simp]: "round_half_even (of_int n) = n"
  by (simp add: round_half_even_def)

lemma round_half_even_mono:
  assumes "x \<le> y"
  shows "round_half_even x \<le> round_half_even y"
proof (cases "\<lfloor>x\<rfloor> = \<lfloor>y\<rfloor>")
  case True
  with assms show ?thesis by (auto simp: round_half_even_def Let_def)
next
  case False
  with floor_mono [OF assms] have "\<lfloor>x\<rfloor> + 1 \<le> \<lfloor>y\<rfloor>" by simp
  then show ?thesis by (auto simp: round_half_even_def Let_def)
qed

lemma round_half_even_bounds:
  "of_int a \<le> x \<Longrightarrow> a \<le> round_half_even x" "x \<le> of_int b \<Longrightarrow> round_half_even x \<le> b"
  using round_half_even_mono [of "of_int a" x] round_half_even_mono [of x "of_int b"] by simp_all

lemma floor_minus_non_int: "of_int \<lfloor>x\<rfloor> \<noteq> (x :: rat) \<Longrightarrow> \<lfloor>- x\<rfloor> = - \<lfloor>x\<rfloor> - 1"
  by (simp add: floor_minus ceiling_altdef)

lemma round_half_even_minus_non_int:
  assumes "of_int \<lfloor>x\<rfloor> \<noteq> x"
  shows "round_half_even (- x) = - round_half_even x"
proof -
  define f where "f = \<lfloor>x\<rfloor>"
  define r where "r = x - of_int f"
  have m: "- x - of_int (- f - 1) = 1 - r" by (simp add: r_def)
  have "\<lfloor>- x\<rfloor> = - f - 1" unfolding f_def using assms by (rule floor_minus_non_int)
  then have "round_half_even (- x) = (if 1 - r < 1 / 2 \<or> (1 - r = 1 / 2 \<and> even (- f - 1)) then - f - 1 else - f)"
    unfolding round_half_even_def Let_def by (simp only: m) simp
  moreover have "round_half_even x = (if r < 1 / 2 \<or> (r = 1 / 2 \<and> even f) then f else f + 1)"
    by (simp only: round_half_even_def Let_def f_def [symmetric] r_def [symmetric])
  ultimately show ?thesis by auto
qed

lemma round_half_even_minus [simp]: "round_half_even (- x) = - round_half_even x"
proof (cases "of_int \<lfloor>x\<rfloor> = x")
  case True
  then have "round_half_even (- of_int \<lfloor>x\<rfloor>) = - round_half_even (of_int \<lfloor>x\<rfloor> :: rat)"
    using round_half_even_of_int [of "- \<lfloor>x\<rfloor>"] by simp
  then show ?thesis by (simp only: True)
next
  case False
  then show ?thesis by (rule round_half_even_minus_non_int)
qed

lemma ulp_exp_minus [simp]: "ulp_exp (- q) = ulp_exp q"
  by (simp add: ulp_exp_def)

lemma round_rat_minus [simp]: "round_rat (- q) = - round_rat q"
  by (simp add: round_rat_def Let_def pow2_def)

lemma round_rat_0 [simp]: "round_rat 0 = 0"
  by (simp add: round_rat_def)

lemma round_rat_exact:
  assumes q: "q = of_int m * 2 powi k" and m: "\<bar>m\<bar> < 2 ^ 53" and k: "- 1074 \<le> k"
  shows "round_rat q = q"
proof (cases "q = 0")
  case True
  then show ?thesis by simp
next
  case False
  have "\<bar>q\<bar> = of_int \<bar>m\<bar> * 2 powi k" by (simp add: q abs_mult)
  also have "of_int \<bar>m\<bar> < (2 powi 53 :: rat)"
    using m by (metis of_int_less_iff of_int_numeral of_int_power power_int_numeral)
  then have "of_int \<bar>m\<bar> * 2 powi k < (2 powi (53 + k) :: rat)"
    by (simp add: power_int_add)
  finally have "rat_exp \<bar>q\<bar> < 53 + k" using False by (intro rat_exp_less) simp_all
  then have u: "ulp_exp q \<le> k" using k by (simp add: ulp_exp_def)
  define n where "n = m * 2 ^ nat (k - ulp_exp q)"
  have "2 powi k = (2 powi ulp_exp q :: rat) * 2 powi (k - ulp_exp q)"
    by (simp add: power_int_diff)
  also have "2 powi (k - ulp_exp q) = (of_int (2 ^ nat (k - ulp_exp q)) :: rat)"
    using u by (simp add: power_int_def)
  finally have "of_int m * 2 powi k = of_int n * (2 powi ulp_exp q :: rat)"
    by (simp add: n_def ac_simps)
  then have "q = of_int n * 2 powi ulp_exp q" using q by simp
  moreover define u where "u = (2 :: rat) powi ulp_exp q"
  ultimately have qn: "q = of_int n * u" by simp
  have "0 < u" by (simp add: u_def)
  with qn have "q / u = of_int n" by (simp add: nonzero_divide_eq_eq)
  then have "round_rat q = of_int n * u"
    using False by (simp add: round_rat_def Let_def pow2_def u_def [symmetric])
  with qn show ?thesis by simp
qed

lemma round_rat_of_int: "\<bar>n\<bar> < 2 ^ 53 \<Longrightarrow> round_rat (of_int n) = of_int n"
  by (rule round_rat_exact [where m = n and k = 0]) simp_all

lemma round_rat_pow2: "- 1074 \<le> k \<Longrightarrow> round_rat (2 powi k) = 2 powi k"
  by (rule round_rat_exact [where m = 1 and k = k]) simp_all

lemma round_rat_nonneg: "0 \<le> q \<Longrightarrow> 0 \<le> round_rat q"
  by (auto simp: round_rat_def Let_def pow2_def intro!: mult_nonneg_nonneg round_half_even_bounds(1))

lemma round_rat_mono_pos:
  assumes p: "0 < p" and pq: "p \<le> q"
  shows "round_rat p \<le> round_rat q"
proof (cases "ulp_exp p = ulp_exp q")
  case True
  define u where "u = (2 :: rat) powi ulp_exp q"
  have "0 < u" by (simp add: u_def)
  with pq have "p / u \<le> q / u" by (simp add: divide_right_mono)
  then have "round_half_even (p / u) \<le> round_half_even (q / u)" by (rule round_half_even_mono)
  with \<open>0 < u\<close> p pq True show ?thesis
    by (simp add: round_rat_def Let_def pow2_def u_def mult_right_mono)
next
  case False
  from p pq have q: "0 < q" by simp
  have e: "rat_exp p \<le> rat_exp q" using p pq by (rule rat_exp_mono)
  with False p q have big: "- 1022 < rat_exp q" and uq: "ulp_exp q = rat_exp q - 52"
    and up: "ulp_exp p + 53 \<le> rat_exp q" and pe: "rat_exp p + 1 \<le> ulp_exp p + 53"
    by (auto simp: ulp_exp_def max_def split: if_splits)
  have "p < 2 powi (rat_exp p + 1)" using p by (rule rat_exp_bounds)
  also have "\<dots> \<le> (2 powi (ulp_exp p + 53) :: rat)" using pe by (simp add: power_int_increasing)
  finally have "p / 2 powi ulp_exp p \<le> of_int (2 ^ 53)"
    by (simp add: power_int_add divide_le_eq mult.commute)
  then have "round_half_even (p / 2 powi ulp_exp p) \<le> 2 ^ 53" by (rule round_half_even_bounds)
  then have "round_rat p \<le> of_int (2 ^ 53) * 2 powi ulp_exp p"
    using p unfolding round_rat_def Let_def pow2_def
    by (simp add: mult_right_mono del: of_int_power of_int_numeral)
  also have "\<dots> = 2 powi (ulp_exp p + 53)" by (simp add: power_int_add)
  also have "\<dots> \<le> 2 powi rat_exp q" using up by (simp add: power_int_increasing)
  also have "\<dots> = of_int (2 ^ 52) * 2 powi ulp_exp q" by (simp add: uq power_int_diff)
  also have "\<dots> \<le> round_rat q"
  proof -
    have "of_int (2 ^ 52) \<le> q / 2 powi ulp_exp q"
      using rat_exp_bounds(1) [OF q] by (simp add: uq power_int_diff field_simps)
    then have "2 ^ 52 \<le> round_half_even (q / 2 powi ulp_exp q)" by (rule round_half_even_bounds)
    with q show ?thesis unfolding round_rat_def Let_def pow2_def
      by (simp add: mult_right_mono del: of_int_power of_int_numeral)
  qed
  finally show ?thesis .
qed

lemma round_rat_mono: "p \<le> q \<Longrightarrow> round_rat p \<le> round_rat q"
proof -
  assume pq: "p \<le> q"
  consider "0 < p" | "p \<le> 0" "0 \<le> q" | "q < 0" by linarith
  then show ?thesis
  proof cases
    case 1
    then show ?thesis using pq by (rule round_rat_mono_pos)
  next
    case 2
    then have "0 \<le> round_rat (- p)" "0 \<le> round_rat q" by (simp_all add: round_rat_nonneg del: round_rat_minus)
    then show ?thesis by simp
  next
    case 3
    with pq have "round_rat (- q) \<le> round_rat (- p)" by (intro round_rat_mono_pos) simp_all
    then show ?thesis by simp
  qed
qed

text \<open>Below \<open>2^1023\<close> nothing overflows: a finite operation is its rounded exact result.\<close>

lemma f64_of_rat_Fin: "\<bar>q\<bar> \<le> 2 powi 1023 \<Longrightarrow> f64_of_rat q = Fin (round_rat q)"
proof -
  assume q: "\<bar>q\<bar> \<le> 2 powi 1023"
  define b where "b = (2 :: rat) powi 1023"
  define c where "c = (2 :: rat) powi 1024"
  have bc: "b < c" unfolding b_def c_def by (rule power_int_strict_increasing) simp_all
  have exact: "round_rat b = b" unfolding b_def by (rule round_rat_pow2) simp
  from q have "\<bar>q\<bar> \<le> b" unfolding b_def .
  then have "- b \<le> q" "q \<le> b" by (simp_all add: abs_le_iff)
  then have "round_rat (- b) \<le> round_rat q" "round_rat q \<le> round_rat b"
    by (simp_all add: round_rat_mono del: round_rat_minus)
  with exact have "- b \<le> round_rat q" "round_rat q \<le> b" by simp_all
  with bc show ?thesis
    unfolding f64_of_rat_def Let_def pow2_def c_def [symmetric] by simp
qed

lemma f64_of_int_Fin: "\<bar>n\<bar> < 2 ^ 53 \<Longrightarrow> f64_of_rat (of_int n) = Fin (of_int n)"
proof -
  assume n: "\<bar>n\<bar> < 2 ^ 53"
  have "\<bar>of_int n\<bar> = (of_int \<bar>n\<bar> :: rat)" by simp
  also have "\<dots> \<le> of_int (2 ^ 53)" using n by (simp del: of_int_power of_int_numeral)
  also have "\<dots> = 2 powi 53" by simp
  also have "\<dots> \<le> 2 powi 1023" by (rule power_int_increasing) simp_all
  finally show ?thesis using n by (simp add: f64_of_rat_Fin round_rat_of_int)
qed

lemma f64_of_u32_Fin [simp]: "f64_of_u32 w = Fin (of_int (uint w))"
  unfolding f64_of_u32_def using uint_u32_bounds [of w] by (intro f64_of_int_Fin) simp

end
