(* ===== verification/Strings.thy ===== *)
theory Strings
  imports Prelude
begin

text \<open>
  Rust strings and the standard library's string operations the program uses. A \<open>String\<close>
  or \<open>&str\<close> is the list of its UTF-8 bytes, so \<open>len()\<close> is \<open>length\<close> and indices are byte
  indices; a literal is written with its ASCII characters. \<open>trim\<close> removes Unicode
  White_Space, recognised by its UTF-8 encoding. Number parsing is \<open>FromStr\<close> of \<open>u32\<close> and
  \<open>i64\<close>, number printing is \<open>Display\<close>.
\<close>

section \<open>Trimming\<close>

abbreviation byte :: "char \<Rightarrow> nat" where
  "byte c \<equiv> of_char c"

text \<open>The length in bytes of the White_Space character at the head of a string, 0 if none.\<close>

definition ws_byte :: "char \<Rightarrow> bool" where
  "ws_byte c \<longleftrightarrow> (9 \<le> byte c \<and> byte c \<le> 13) \<or> byte c = 32"

definition ws_pair :: "char \<Rightarrow> char \<Rightarrow> bool" where
  "ws_pair c d \<longleftrightarrow> byte c = 0xC2 \<and> (byte d = 0x85 \<or> byte d = 0xA0)"

definition ws_triple :: "char \<Rightarrow> char \<Rightarrow> char \<Rightarrow> bool" where
  "ws_triple c d e \<longleftrightarrow>
     (byte c = 0xE1 \<and> byte d = 0x9A \<and> byte e = 0x80) \<or>
     (byte c = 0xE2 \<and> byte d = 0x80 \<and>
       ((0x80 \<le> byte e \<and> byte e \<le> 0x8A) \<or> byte e = 0xA8 \<or> byte e = 0xA9 \<or> byte e = 0xAF)) \<or>
     (byte c = 0xE2 \<and> byte d = 0x81 \<and> byte e = 0x9F) \<or>
     (byte c = 0xE3 \<and> byte d = 0x80 \<and> byte e = 0x80)"

fun ws_len :: "string \<Rightarrow> nat" where
  "ws_len (c # d # e # s) =
     (if ws_byte c then 1 else if ws_pair c d then 2 else if ws_triple c d e then 3 else 0)"
| "ws_len [c, d] = (if ws_byte c then 1 else if ws_pair c d then 2 else 0)"
| "ws_len [c] = (if ws_byte c then 1 else 0)"
| "ws_len [] = 0"

lemma ws_len_le [simp]: "ws_len s \<le> length s"
  by (cases s rule: ws_len.cases) auto

lemma ws_len_progress: "0 < ws_len s \<Longrightarrow> length s - ws_len s < length s"
  using ws_len_le [of s] by linarith

function trim_start :: "string \<Rightarrow> string" where
  "trim_start s = (if ws_len s = 0 then s else trim_start (drop (ws_len s) s))"
  by pat_completeness auto
termination
  by (relation "measure length") (simp_all add: ws_len_progress)

declare trim_start.simps [simp del]

text \<open>The length in bytes of the White_Space character a string ends with, 0 if none.\<close>

definition ws_len_end :: "string \<Rightarrow> nat" where
  "ws_len_end s =
     (let n = length s
      in if 1 \<le> n \<and> ws_len (drop (n - 1) s) = 1 then 1
         else if 2 \<le> n \<and> ws_len (drop (n - 2) s) = 2 then 2
         else if 3 \<le> n \<and> ws_len (drop (n - 3) s) = 3 then 3 else 0)"

lemma ws_len_end_le [simp]: "ws_len_end s \<le> length s"
  by (simp add: ws_len_end_def Let_def)

lemma ws_len_end_progress: "0 < ws_len_end s \<Longrightarrow> length s - ws_len_end s < length s"
  using ws_len_end_le [of s] by linarith

function trim_end :: "string \<Rightarrow> string" where
  "trim_end s =
     (if ws_len_end s = 0 then s else trim_end (take (length s - ws_len_end s) s))"
  by pat_completeness auto
termination
  by (relation "measure length") (simp_all add: ws_len_end_progress)

declare trim_end.simps [simp del]

definition trim :: "string \<Rightarrow> string" where
  "trim s = trim_end (trim_start s)"

lemma ws_len_append: "0 < ws_len s \<Longrightarrow> ws_len (s @ t) = ws_len s"
  by (cases s rule: ws_len.cases; cases t rule: ws_len.cases) (auto split: if_splits)

lemma ws_len_trim_start [simp]: "ws_len (trim_start s) = 0"
  by (induction s rule: trim_start.induct) (subst trim_start.simps, auto)

lemma ws_len_end_trim_end [simp]: "ws_len_end (trim_end s) = 0"
  by (induction s rule: trim_end.induct) (subst trim_end.simps, auto)

lemma trim_start_id: "ws_len s = 0 \<Longrightarrow> trim_start s = s"
  by (subst trim_start.simps) simp

lemma trim_end_id: "ws_len_end s = 0 \<Longrightarrow> trim_end s = s"
  by (subst trim_end.simps) simp

lemma trim_end_prefix: "\<exists>t. s = trim_end s @ t"
proof (induction s rule: trim_end.induct)
  case (1 s)
  show ?case
  proof (cases "ws_len_end s = 0")
    case True
    then show ?thesis by (simp add: trim_end_id)
  next
    case False
    with "1" obtain t where "take (length s - ws_len_end s) s = trim_end s @ t"
      by (metis trim_end.simps)
    then have "s = trim_end s @ t @ drop (length s - ws_len_end s) s"
      by (metis append.assoc append_take_drop_id)
    then show ?thesis by blast
  qed
qed

lemma ws_len_trim_end: "ws_len s = 0 \<Longrightarrow> ws_len (trim_end s) = 0"
  by (metis trim_end_prefix ws_len_append neq0_conv)

text \<open>Trimming twice is trimming once.\<close>

lemma trim_idem [simp]: "trim (trim s) = trim s"
  by (simp add: trim_def trim_start_id ws_len_trim_end trim_end_id)

lemma trim_ws_Cons: "ws_byte c \<Longrightarrow> trim (c # s) = trim s"
proof -
  assume "ws_byte c"
  then have "ws_len (c # s) = 1" by (cases "c # s" rule: ws_len.cases) auto
  then have "trim_start (c # s) = trim_start s" by (subst trim_start.simps) simp
  then show ?thesis by (simp add: trim_def)
qed

section \<open>Splitting\<close>

text \<open>\<open>str::split(c)\<close>: the pieces between the separators, one at least.\<close>

fun split_on :: "char \<Rightarrow> string \<Rightarrow> string list" where
  "split_on d [] = [[]]"
| "split_on d (c # s) =
     (if c = d then [] # split_on d s
      else (case split_on d s of [] \<Rightarrow> [[c]] | p # ps \<Rightarrow> (c # p) # ps))"

lemma split_on_nonempty [simp]: "split_on d s \<noteq> []"
  by (induction s) (auto split: list.splits)

lemma split_on_none: "d \<notin> set s \<Longrightarrow> split_on d s = [s]"
  by (induction s) auto

lemma split_on_append: "d \<notin> set a \<Longrightarrow> split_on d (a @ d # b) = a # split_on d b"
  by (induction a) auto

lemma split_on_pieces: "p \<in> set (split_on d s) \<Longrightarrow> d \<notin> set p"
  by (induction s arbitrary: p) (auto split: list.splits if_splits)

fun join :: "char \<Rightarrow> string list \<Rightarrow> string" where
  "join d [] = []"
| "join d [p] = p"
| "join d (p # ps) = p @ d # join d ps"

lemma join_Cons_Cons: "ps \<noteq> [] \<Longrightarrow> join d ((c # p) # ps) = c # join d (p # ps)"
  by (cases ps) auto

lemma join_split_on [simp]: "join d (split_on d s) = s"
proof (induction s)
  case Nil
  then show ?case by simp
next
  case (Cons c s)
  obtain p ps where sp: "split_on d s = p # ps" by (cases "split_on d s") auto
  with Cons show ?case by (cases ps) auto
qed

section \<open>Numbers\<close>

definition digit_val :: "char \<Rightarrow> int option" where
  "digit_val c =
     (let b = (of_char c :: int) in if 48 \<le> b \<and> b \<le> 57 then Some (b - 48) else None)"

definition digit_char :: "int \<Rightarrow> char" where
  "digit_char d = char_of (d + 48)"

fun digits_acc :: "int \<Rightarrow> string \<Rightarrow> int option" where
  "digits_acc a [] = Some a"
| "digits_acc a (c # s) =
     (case digit_val c of None \<Rightarrow> None | Some d \<Rightarrow> digits_acc (a * 10 + d) s)"

definition parse_digits :: "string \<Rightarrow> int option" where
  "parse_digits s = (if s = [] then None else digits_acc 0 s)"

definition strip_plus :: "string \<Rightarrow> string" where
  "strip_plus s = (case s of c # r \<Rightarrow> if c = CHR ''+'' then r else s | [] \<Rightarrow> [])"

definition parse_u32 :: "string \<Rightarrow> u32 option" where
  "parse_u32 s =
     (case parse_digits (strip_plus s) of
        None \<Rightarrow> None
      | Some n \<Rightarrow> if n < 2 ^ 32 then Some (of_int n) else None)"

definition parse_i64 :: "string \<Rightarrow> i64 option" where
  "parse_i64 s =
     (case s of
        c # r \<Rightarrow>
          if c = CHR ''-'' then
            (case parse_digits r of
               None \<Rightarrow> None | Some n \<Rightarrow> if n \<le> 2 ^ 63 then Some (- n) else None)
          else
            (case parse_digits (strip_plus s) of
               None \<Rightarrow> None | Some n \<Rightarrow> if n < 2 ^ 63 then Some n else None)
      | [] \<Rightarrow> None)"

function show_digits :: "int \<Rightarrow> string" where
  "show_digits n =
     (if n < 10 then [digit_char n] else show_digits (n div 10) @ [digit_char (n mod 10)])"
  by pat_completeness auto
termination
  by (relation "measure nat") auto

declare show_digits.simps [simp del]

definition show_u32 :: "u32 \<Rightarrow> string" where
  "show_u32 w = show_digits (uint w)"

definition show_i64 :: "i64 \<Rightarrow> string" where
  "show_i64 i = (if i < 0 then CHR ''-'' # show_digits (- i) else show_digits i)"

lemma digit_char_val: "0 \<le> d \<Longrightarrow> d < 10 \<Longrightarrow> digit_val (digit_char d) = Some d"
  by (simp add: digit_val_def digit_char_def Let_def take_bit_eq_mod)

lemma digits_acc_snoc:
  "digits_acc a (s @ [c]) =
     (case digits_acc a s of
        None \<Rightarrow> None | Some v \<Rightarrow> (case digit_val c of None \<Rightarrow> None | Some d \<Rightarrow> Some (v * 10 + d)))"
  by (induction s arbitrary: a) (auto split: option.splits)

lemma digits_acc_show: "0 \<le> n \<Longrightarrow> digits_acc 0 (show_digits n) = Some n"
proof (induction n rule: show_digits.induct)
  case (1 n)
  show ?case
  proof (cases "n < 10")
    case True
    with "1" show ?thesis by (subst show_digits.simps) (simp add: digit_char_val)
  next
    case False
    with "1" show ?thesis
      by (subst show_digits.simps) (simp add: digits_acc_snoc digit_char_val)
  qed
qed

lemma show_digits_nonempty [simp]: "show_digits n \<noteq> []"
  by (subst show_digits.simps) simp

lemma parse_show_digits [simp]: "0 \<le> n \<Longrightarrow> parse_digits (show_digits n) = Some n"
  by (simp add: parse_digits_def digits_acc_show)

fun_cases digits_acc_ConsE: "digits_acc a (c # s) = Some v"

lemma digit_val_set: "digits_acc a s = Some v \<Longrightarrow> c \<in> set s \<Longrightarrow> digit_val c \<noteq> None"
  by (induction s arbitrary: a) (auto elim!: digits_acc_ConsE split: option.splits)

lemma show_digits_digit: "0 \<le> n \<Longrightarrow> c \<in> set (show_digits n) \<Longrightarrow> digit_val c \<noteq> None"
  by (rule digit_val_set [OF digits_acc_show])

lemma show_digits_not_in:
  "0 \<le> n \<Longrightarrow> digit_val c = None \<Longrightarrow> c \<notin> set (show_digits n)"
  using show_digits_digit by blast

lemma strip_plus_show [simp]: "0 \<le> n \<Longrightarrow> strip_plus (show_digits n) = show_digits n"
proof -
  assume n: "0 \<le> n"
  obtain c r where cr: "show_digits n = c # r" by (cases "show_digits n") auto
  have "c \<noteq> CHR ''+''" using show_digits_digit [OF n, of c] cr by (auto simp: digit_val_def)
  then show ?thesis by (simp add: strip_plus_def cr)
qed

text \<open>Printing and parsing a number is the identity.\<close>

lemma parse_show_u32 [simp]: "parse_u32 (show_u32 w) = Some w"
  using uint_u32_bounds [of w] by (simp add: parse_u32_def show_u32_def)

lemma parse_show_i64: "i64_range i \<Longrightarrow> parse_i64 (show_i64 i) = Some i"
proof (cases "i < 0")
  case True
  assume "i64_range i"
  with True show ?thesis by (simp add: parse_i64_def show_i64_def i64_range_def)
next
  case False
  assume r: "i64_range i"
  obtain c s where cs: "show_digits i = c # s" by (cases "show_digits i") auto
  have "c \<noteq> CHR ''-''" using show_digits_digit [of i c] cs False by (auto simp: digit_val_def)
  moreover have "parse_digits (strip_plus (c # s)) = Some i"
    using False cs [symmetric] by simp
  ultimately show ?thesis
    using False r by (simp add: parse_i64_def show_i64_def cs i64_range_def)
qed

lemma show_u32_no_comma: "digit_val c = None \<Longrightarrow> c \<notin> set (show_u32 w)"
  using show_digits_not_in uint_u32_bounds [of w] by (simp add: show_u32_def)

end
