(* ===== verification/Types.thy ===== *)
theory Types
  imports F64 Strings
begin

text \<open>
  The data model, \<open>src/src/libs/types\<close>: identifiers, accounts, teams, challenges, flags,
  submissions, hint unlocks, configuration, notifications and scoreboard rows, with the
  operations the types themselves carry (\<open>CtfConfig::is_running\<close>, \<open>is_frozen\<close>,
  \<open>HintCost::evaluate\<close>, \<open>FlagValidator::is_match\<close>, \<open>find_matching_partial\<close>,
  \<open>NotificationTarget::matches\<close>). Newtypes are one-constructor datatypes, structs are
  records with a prefix per struct, enums are datatypes; two constructors called \<open>None\<close> in
  the source are \<open>NoDeduction\<close> and \<open>NoDeployment\<close> here.

  The crates the types call (\<open>regex\<close>, \<open>rhai\<close>, \<open>constant_time_eq\<close>) are the fields of the
  record \<open>ext\<close>, an argument of the definitions that use them.
\<close>

section \<open>Crates\<close>

text \<open>The limits a rhai engine is built with, and the values pushed into a script's scope.\<close>

record rhai_engine =
  max_operations :: nat
  max_call_levels :: nat
  max_expr_depths :: "nat \<times> nat"
  max_string_size :: nat
  max_array_size :: "nat option"
  max_map_size :: "nat option"

datatype rhai_value = RInt i64 | RStr string | RArr "rhai_value list"

text \<open>
  \<open>regex_match p s\<close> is \<open>Regex::new(p)\<close> followed by \<open>is_match(s)\<close>, \<open>None\<close> when the pattern
  does not compile; \<open>rhai_bool e sc p\<close> and \<open>rhai_int e sc p\<close> are \<open>eval_with_scope\<close> of
  script \<open>p\<close> on engine \<open>e\<close>, \<open>None\<close> when it errs (a result of another type included).
\<close>

record ext =
  constant_time_eq :: "string \<Rightarrow> string \<Rightarrow> bool"
  regex_match :: "string \<Rightarrow> string \<Rightarrow> bool option"
  rhai_bool :: "rhai_engine \<Rightarrow> (string \<times> rhai_value) list \<Rightarrow> string \<Rightarrow> bool option"
  rhai_int :: "rhai_engine \<Rightarrow> (string \<times> rhai_value) list \<Rightarrow> string \<Rightarrow> i64 option"

text \<open>The documented behaviour of \<open>constant_time_eq\<close>: it decides equality of the bytes.\<close>

definition lawful_ext :: "ext \<Rightarrow> bool" where
  "lawful_ext X \<longleftrightarrow> (\<forall>a b. constant_time_eq X a b \<longleftrightarrow> a = b)"

lemma lawful_ext_eq [simp]: "lawful_ext X \<Longrightarrow> constant_time_eq X a b \<longleftrightarrow> a = b"
  by (simp add: lawful_ext_def)

typedecl json_value \<comment> \<open>\<open>serde_json::Value\<close>\<close>

section \<open>Accounts and teams\<close>

datatype account_id = AccountId (acc_str: string)
datatype account_name = AccountName (acc_name_str: string)
datatype account_email = AccountEmail (email_str: string)
datatype account_role = Admin | Player | Spectator
datatype team_id = TeamId (team_str: string)
datatype team_name = TeamName (team_name_str: string)
datatype html_string = HtmlString (html_str: string)

record account =
  acc_id :: account_id
  acc_username :: account_name
  acc_email :: "account_email option"
  acc_password_hash :: "string option"
  acc_role :: account_role
  acc_team_id :: "team_id option"
  acc_ctftime_id :: "u32 option"
  acc_fields :: "string \<rightharpoonup> json_value"
  acc_created_at :: i64

record team =
  team_id :: team_id
  team_name :: team_name
  team_ctftime_id :: "u32 option"
  team_invite_code :: "string option"
  team_captain_id :: account_id
  team_member_ids :: "account_id list"
  team_bracket :: string
  team_fields :: "string \<rightharpoonup> json_value"
  team_create_at :: i64

section \<open>Flags\<close>

datatype flag_validator =
    Static string
  | Regex string
  | Script string
  | Instanced
  | Multi "partial_flag list"
and partial_flag =
  PartialFlag (pf_id: string) (pf_validator: flag_validator) (pf_weight: f64)

definition ct_eq :: "ext \<Rightarrow> string \<Rightarrow> string \<Rightarrow> bool" where
  "ct_eq X a b = constant_time_eq X a b"

definition sandboxed_engine :: rhai_engine where
  "sandboxed_engine =
     \<lparr>max_operations = 100000, max_call_levels = 32, max_expr_depths = (64, 64),
      max_string_size = 16 * 1024, max_array_size = Some 1024, max_map_size = Some 1024\<rparr>"

lemma size_partial_flag: "p \<in> set ps \<Longrightarrow> size (pf_validator p) < Suc (size_list size ps)"
proof -
  assume p: "p \<in> set ps"
  have "size (pf_validator p) < size p" by (cases p) simp
  also have "\<dots> \<le> size_list size ps" by (rule size_list_estimation' [OF p]) simp
  finally show ?thesis by simp
qed

function is_match :: "ext \<Rightarrow> flag_validator \<Rightarrow> string \<Rightarrow> string option \<Rightarrow> bool" where
  "is_match X (Static flag) submitted active = ct_eq X (trim flag) (trim submitted)"
| "is_match X (Regex pattern) submitted active =
     (case regex_match X pattern (trim submitted) of Some b \<Rightarrow> b | None \<Rightarrow> False)"
| "is_match X Instanced submitted active =
     (case active of Some flag \<Rightarrow> ct_eq X (trim flag) (trim submitted) | None \<Rightarrow> False)"
| "is_match X (Script script) submitted active =
     (case rhai_bool X sandboxed_engine [(''flag'', RStr (trim submitted))] script of
        Some b \<Rightarrow> b | None \<Rightarrow> False)"
| "is_match X (Multi flags) submitted active =
     list_ex (\<lambda>p. is_match X (pf_validator p) submitted active) flags"
  by pat_completeness auto
termination
  by (relation "measure (\<lambda>(X, v, f, a). size v)") (auto intro: size_partial_flag)

declare is_match.simps(5) [simp del]

lemma is_match_Multi:
  "is_match X (Multi flags) f a \<longleftrightarrow> (\<exists>p \<in> set flags. is_match X (pf_validator p) f a)"
  by (simp add: is_match.simps(5) list_ex_iff)

definition find_matching_partial ::
    "ext \<Rightarrow> flag_validator \<Rightarrow> string \<Rightarrow> string option \<Rightarrow> partial_flag option" where
  "find_matching_partial X v submitted active =
     (case v of
        Multi flags \<Rightarrow> find (\<lambda>p. is_match X (pf_validator p) submitted active) flags
      | _ \<Rightarrow> None)"

lemma find_matching_partial_Some:
  "find_matching_partial X v f a = Some p \<Longrightarrow>
     \<exists>flags. v = Multi flags \<and> p \<in> set flags \<and> is_match X (pf_validator p) f a"
  by (auto simp: find_matching_partial_def find_Some_iff split: flag_validator.splits)

text \<open>A multi-flag matches exactly when it has a first matching part.\<close>

lemma find_matching_partial_iff:
  "is_match X (Multi flags) f a \<longleftrightarrow> find_matching_partial X (Multi flags) f a \<noteq> None"
  by (auto simp: find_matching_partial_def is_match_Multi find_None_iff)

text \<open>The verdict depends only on the trimmed submission.\<close>

lemma is_match_trim: "is_match X v (trim f) a = is_match X v f a"
proof (induction X v f a rule: is_match.induct)
  case (5 X flags f a)
  then show ?case by (auto simp: is_match_Multi)
qed (simp_all split: option.split)

section \<open>Challenges\<close>

datatype scoring_mode =
    PointValue
  | PointAttribution
  | DynamicDecay u32 u32 u32

record challenge_points =
  pts_mode :: scoring_mode
  pts_equation :: string

record challenge_author =
  author_id :: string
  author_username :: string

datatype hint_cost = Fixed u32 | CostScript string

text \<open>
  \<open>HintCost::evaluate\<close>: a script sees \<open>solves\<close> and \<open>now\<close>; its integer is clamped at 0 from
  below and then cast, which keeps the low 32 bits; a script that errs costs 0.
\<close>

definition hint_cost_evaluate :: "ext \<Rightarrow> hint_cost \<Rightarrow> u32 \<Rightarrow> i64 \<Rightarrow> u32" where
  "hint_cost_evaluate X hc solves now =
     (case hc of
        Fixed cost \<Rightarrow> cost
      | CostScript script \<Rightarrow>
          (case rhai_int X sandboxed_engine
                  [(''solves'', RInt (uint solves)), (''now'', RInt now)] script of
             Some cost \<Rightarrow> of_int (max cost 0)
           | None \<Rightarrow> 0))"

record challenge_hint =
  hint_content :: html_string
  hint_price :: hint_cost

record challenge_file =
  file_name :: string
  file_url :: string
  file_checksum_sha256 :: "string option"

datatype challenge_requirement = Solve string

datatype challenge_deployment = NoDeployment | Shared string | InstancedDeployment

record locked_reveal =
  rv_description :: bool
  rv_category :: bool
  rv_points :: bool
  rv_tags :: bool
  rv_files :: bool
  rv_hints :: bool
  rv_requirements :: bool
  rv_connection_info :: bool

definition default_reveal :: locked_reveal where
  "default_reveal =
     \<lparr>rv_description = False, rv_category = True, rv_points = True, rv_tags = True,
      rv_files = False, rv_hints = False, rv_requirements = True, rv_connection_info = False\<rparr>"

datatype challenge_visibility = Visible | Hidden | Locked locked_reveal

datatype attempt_count_mode = All | Unique | IncorrectOnly | UniqueIncorrect

record max_attempts =
  ma_limit :: u32
  ma_mode :: attempt_count_mode

record challenge =
  ch_id :: string
  ch_title :: string
  ch_description :: html_string
  ch_category :: string
  ch_points :: challenge_points
  ch_flag :: flag_validator
  ch_author :: challenge_author
  ch_hints :: "challenge_hint list"
  ch_files :: "challenge_file list"
  ch_tags :: "string list"
  ch_requirements :: "challenge_requirement list"
  ch_team_consensus :: bool
  ch_deployment :: challenge_deployment
  ch_visibility :: challenge_visibility
  ch_max_attempts :: "max_attempts option"

section \<open>Submissions and hint unlocks\<close>

datatype submission_id = SubmissionId string
datatype hint_unlock_id = HintUnlockId string

record submission =
  sub_id :: submission_id
  sub_challenge_id :: string
  sub_team_id :: "team_id option"
  sub_account_id :: account_id
  sub_points :: u32
  sub_provided_flag :: string
  sub_is_correct :: bool
  sub_submitted_at :: i64
  sub_submitted_ip :: string

record hint_unlock =
  hu_id :: hint_unlock_id
  hu_challenge_id :: string
  hu_hint_index :: u32
  hu_team_id :: "team_id option"
  hu_account_id :: account_id
  hu_cost :: u32
  hu_unlocked_at :: i64

section \<open>Configuration\<close>

datatype hint_deduction_mode = NoDeduction | FloorZero | AllowNegative | Gate

datatype storage_backend = Local string | Rclone string string

record notification_config =
  require_auth :: bool
  broadcast_solves :: bool
  broadcast_first_bloods :: bool

record ctf_config =
  ctf_name :: string
  start_time :: "i64 option"
  end_time :: "i64 option"
  freeze_time :: "i64 option"
  registration_open :: bool
  require_email_verification :: bool
  sort_by_accuracy :: bool
  hint_deduction_mode :: hint_deduction_mode
  storage :: storage_backend
  max_upload_bytes :: u64
  notifications :: notification_config

definition default_max_upload_bytes :: u64 where
  "default_max_upload_bytes = 25 * 1024 * 1024"

definition default_notification_config :: notification_config where
  "default_notification_config =
     \<lparr>require_auth = False, broadcast_solves = True, broadcast_first_bloods = True\<rparr>"

definition default_storage_backend :: storage_backend where
  "default_storage_backend = Local ''./uploads''"

definition default_config :: ctf_config where
  "default_config =
     \<lparr>ctf_name = ''cctf.rs'', start_time = None, end_time = None, freeze_time = None,
      registration_open = True, require_email_verification = False,
      sort_by_accuracy = False, hint_deduction_mode = FloorZero,
      storage = default_storage_backend, max_upload_bytes = default_max_upload_bytes,
      notifications = default_notification_config\<rparr>"

definition is_running :: "ctf_config \<Rightarrow> i64 \<Rightarrow> bool" where
  "is_running cfg now \<longleftrightarrow>
     (case start_time cfg of None \<Rightarrow> True | Some s \<Rightarrow> now \<ge> s) \<and>
     (case end_time cfg of None \<Rightarrow> True | Some e \<Rightarrow> now < e)"

definition is_frozen :: "ctf_config \<Rightarrow> i64 \<Rightarrow> bool" where
  "is_frozen cfg now \<longleftrightarrow> (case freeze_time cfg of None \<Rightarrow> False | Some f \<Rightarrow> now \<ge> f)"

section \<open>Notifications and stored files\<close>

datatype notification_id = NotificationId string
datatype notification_kind = Announcement | SolveKind | FirstBlood
datatype notification_target =
    Everyone
  | Teams "team_id list"
  | Accounts "account_id list"
  | Filter string

definition target_matches :: "notification_target \<Rightarrow> account_id \<Rightarrow> team_id option \<Rightarrow> bool" where
  "target_matches t acct tm =
     (case t of
        Everyone \<Rightarrow> True
      | Accounts ids \<Rightarrow> acct \<in> set ids
      | Teams ids \<Rightarrow> (case tm of Some x \<Rightarrow> x \<in> set ids | None \<Rightarrow> False)
      | Filter _ \<Rightarrow> False)"

record notification =
  nt_id :: notification_id
  nt_kind :: notification_kind
  nt_title :: string
  nt_message :: html_string
  nt_target :: notification_target
  nt_created_at :: i64

record stored_file =
  sf_id :: string
  sf_name :: string
  sf_checksum_sha256 :: string
  sf_size :: u64
  sf_content_type :: string
  sf_uploaded_at :: i64

text \<open>
  What the configuration's schedule says: the event runs in a half-open interval and the
  board freezes from an instant on.
\<close>

lemma is_running_iff:
  "is_running cfg now \<longleftrightarrow>
     (\<forall>s. start_time cfg = Some s \<longrightarrow> s \<le> now) \<and> (\<forall>e. end_time cfg = Some e \<longrightarrow> now < e)"
  by (auto simp: is_running_def split: option.splits)

lemma is_frozen_mono: "is_frozen cfg t \<Longrightarrow> t \<le> t' \<Longrightarrow> is_frozen cfg t'"
  by (auto simp: is_frozen_def split: option.splits)

section \<open>Scoreboard rows\<close>

record scoreboard_entry =
  en_team_id :: team_id
  en_team_name :: string
  en_points :: i64
  en_last_solve_time :: "i64 option"
  en_solves :: "string list"
  en_rank :: u32

record ctftime_task_stats =
  ts_points :: u32
  ts_time :: i64

record ctftime_standings_entry =
  st_pos :: "u32 option"
  st_team :: string
  st_score :: f64
  st_task_stats :: "string \<rightharpoonup> ctftime_task_stats"

record ctftime_scoreboard_export =
  ex_tasks :: "string list"
  ex_standings :: "ctftime_standings_entry list"

end
