(* ===== verification/Repos.thy ===== *)
theory Repos
  imports Types
begin

text \<open>
  The repository traits, \<open>src/src/libs/repos\<close>, and the two error types. A trait is a record
  of its methods over a store of type \<open>'s\<close>, the dictionary a generic service is called
  with; a method is an action that can fail. The contracts the services rely on are
  locales: what a query returns in terms of an abstract view of the store, what an insert
  adds to it, and that everything else leaves it as it was. A query's result is only
  determined as a multiset, because \<open>SELECT\<close> without \<open>ORDER BY\<close> promises no order.
\<close>

section \<open>Errors\<close>

datatype repo_error = Connection string | NotFound | Conflict string | Internal string

text \<open>The distinctions of \<open>sqlx::Error\<close> that its conversion makes.\<close>

datatype sqlx_error =
    Database bool string \<comment> \<open>whether a unique violation, message\<close>
  | RowNotFound
  | SqlxIo string
  | SqlxOther string

definition repo_error_of_sqlx :: "sqlx_error \<Rightarrow> repo_error" where
  "repo_error_of_sqlx err =
     (case err of
        Database is_unique_violation msg \<Rightarrow>
          (if is_unique_violation then Conflict ''auth-username-taken'' else Internal msg)
      | RowNotFound \<Rightarrow> NotFound
      | SqlxIo msg \<Rightarrow> Connection msg
      | SqlxOther msg \<Rightarrow> Internal msg)"

datatype service_error =
    Repo repo_error
  | OAuth string
  | InvalidRequest string
  | Unauthorized
  | Kube string
  | RateLimitExceeded

text \<open>A repository call under the question mark of a service.\<close>

definition repo_call :: "('s, repo_error, 'a) act \<Rightarrow> ('s, service_error, 'a) act" where
  "repo_call m = map_err Repo m"

lemma repo_call_Inr: "repo_call m s = (Inr x, s') \<longleftrightarrow> m s = (Inr x, s')"
  by (simp add: repo_call_def map_err_Inr)

lemma repo_call_Inl: "repo_call m s = (Inl e, s') \<longleftrightarrow> (\<exists>e'. m s = (Inl e', s') \<and> e = Repo e')"
  by (auto simp: repo_call_def map_err_Inl)

lemma keeps_repo_call [intro]: "keeps v m \<Longrightarrow> keeps v (repo_call m)"
  unfolding repo_call_def by (rule keeps_map_err)

section \<open>Traits\<close>

record 's account_repo =
  ar_find_by_id :: "account_id \<Rightarrow> ('s, repo_error, account option) act"
  ar_find_by_username :: "account_name \<Rightarrow> ('s, repo_error, account option) act"
  ar_find_by_ctftime_id :: "u32 \<Rightarrow> ('s, repo_error, account option) act"
  ar_save :: "account \<Rightarrow> ('s, repo_error, unit) act"
  ar_update :: "account \<Rightarrow> ('s, repo_error, unit) act"
  ar_find_all :: "('s, repo_error, account list) act"

record 's team_repo =
  tr_find_by_id :: "team_id \<Rightarrow> ('s, repo_error, team option) act"
  tr_find_by_name :: "team_name \<Rightarrow> ('s, repo_error, team option) act"
  tr_find_by_ctftime_id :: "u32 \<Rightarrow> ('s, repo_error, team option) act"
  tr_save :: "team \<Rightarrow> ('s, repo_error, unit) act"
  tr_update :: "team \<Rightarrow> ('s, repo_error, unit) act"
  tr_find_all :: "('s, repo_error, team list) act"

record 's instance_repo =
  ir_find_active_flag ::
    "string \<Rightarrow> team_id option \<Rightarrow> account_id \<Rightarrow> ('s, repo_error, string option) act"
  ir_get_instance_ip :: "string \<Rightarrow> ('s, repo_error, string option) act"

record 's challenge_repo = "'s instance_repo" +
  cr_find_by_id :: "string \<Rightarrow> ('s, repo_error, challenge option) act"
  cr_find_all :: "('s, repo_error, challenge list) act"
  cr_save :: "challenge \<Rightarrow> ('s, repo_error, unit) act"
  cr_update :: "challenge \<Rightarrow> ('s, repo_error, unit) act"
  cr_delete :: "string \<Rightarrow> bool \<Rightarrow> ('s, repo_error, unit) act"

record 's submission_repo =
  sr_find_all :: "('s, repo_error, submission list) act"
  sr_find_by_team :: "team_id \<Rightarrow> ('s, repo_error, submission list) act"
  sr_save :: "submission \<Rightarrow> ('s, repo_error, unit) act"

record 's hint_unlock_repo =
  hr_find_all :: "('s, repo_error, hint_unlock list) act"
  hr_find_for ::
    "string \<Rightarrow> team_id option \<Rightarrow> account_id \<Rightarrow> ('s, repo_error, hint_unlock list) act"
  hr_save :: "hint_unlock \<Rightarrow> ('s, repo_error, unit) act"

record 's file_repo =
  fr_save :: "stored_file \<Rightarrow> ('s, repo_error, unit) act"
  fr_find_by_id :: "string \<Rightarrow> ('s, repo_error, stored_file option) act"
  fr_delete :: "string \<Rightarrow> ('s, repo_error, unit) act"

record 's config_repo =
  gr_get :: "('s, repo_error, ctf_config) act"
  gr_set :: "ctf_config \<Rightarrow> ('s, repo_error, unit) act"

record 's notification_repo =
  nr_save :: "notification \<Rightarrow> ('s, repo_error, unit) act"
  nr_list_recent :: "i64 \<Rightarrow> ('s, repo_error, notification list) act"

section \<open>Contracts\<close>

text \<open>
  A submission repository: \<open>subs\<close> is the table's content. Queries return it (or the team's
  part of it), a successful insert adds one row, a failed one adds none.
\<close>

locale submission_store =
  fixes SR :: "'s submission_repo"
    and subs :: "'s \<Rightarrow> submission multiset"
  assumes find_all_ok: "sr_find_all SR s = (Inr xs, s') \<Longrightarrow> mset xs = subs s"
    and find_all_keeps: "keeps subs (sr_find_all SR)"
    and find_by_team_ok: "sr_find_by_team SR t s = (Inr xs, s') \<Longrightarrow>
      mset xs = filter_mset (\<lambda>x. sub_team_id x = Some t) (subs s)"
    and find_by_team_keeps: "keeps subs (sr_find_by_team SR t)"
    and save_ok: "sr_save SR x s = (Inr u, s') \<Longrightarrow> subs s' = add_mset x (subs s)"
    and save_err: "sr_save SR x s = (Inl e, s') \<Longrightarrow> subs s' = subs s"

text \<open>A hint-unlock repository, with the content \<open>unlocks\<close>.\<close>

definition unlock_owned_by :: "team_id option \<Rightarrow> account_id \<Rightarrow> hint_unlock \<Rightarrow> bool" where
  "unlock_owned_by tm acct u \<longleftrightarrow>
     (case tm of
        Some t \<Rightarrow> hu_team_id u = Some t
      | None \<Rightarrow> hu_team_id u = None \<and> hu_account_id u = acct)"

locale hint_store =
  fixes HR :: "'s hint_unlock_repo"
    and unlocks :: "'s \<Rightarrow> hint_unlock multiset"
  assumes hints_all_ok: "hr_find_all HR s = (Inr xs, s') \<Longrightarrow> mset xs = unlocks s"
    and hints_all_keeps: "keeps unlocks (hr_find_all HR)"
    and hints_for_ok: "hr_find_for HR c tm acct s = (Inr xs, s') \<Longrightarrow>
      mset xs = filter_mset (\<lambda>u. hu_challenge_id u = c \<and> unlock_owned_by tm acct u) (unlocks s)"
    and hints_for_keeps: "keeps unlocks (hr_find_for HR c tm acct)"
    and hint_save_ok: "hr_save HR u s = (Inr x, s') \<Longrightarrow> unlocks s' = add_mset u (unlocks s)"
    and hint_save_err: "hr_save HR u s = (Inl e, s') \<Longrightarrow> unlocks s' = unlocks s"

text \<open>
  What the read side of the other repositories owes a service that watches \<open>v\<close>: no query
  changes it.
\<close>

locale read_only_lookups =
  fixes CR :: "('s, 'x) challenge_repo_scheme"
    and TR :: "'s team_repo"
    and v :: "'s \<Rightarrow> 'v"
  assumes challenge_find_keeps: "keeps v (cr_find_by_id CR c)"
    and challenge_all_keeps: "keeps v (cr_find_all CR)"
    and active_flag_keeps: "keeps v (ir_find_active_flag CR c tm acct)"
    and team_find_keeps: "keeps v (tr_find_by_id TR t)"
    and team_all_keeps: "keeps v (tr_find_all TR)"

text \<open>
  The tables a service only reads: a lookup by key returns a stored row with that key, or
  there is none; a listing returns all rows.
\<close>

locale team_store =
  fixes TR :: "'s team_repo"
    and teams :: "'s \<Rightarrow> team multiset"
  assumes team_all_ok: "tr_find_all TR s = (Inr ts, s') \<Longrightarrow> mset ts = teams s"
    and team_find_ok: "tr_find_by_id TR t s = (Inr (Some x), s') \<Longrightarrow> x \<in># teams s \<and> team_id x = t"
    and team_find_none: "tr_find_by_id TR t s = (Inr None, s') \<Longrightarrow> x \<in># teams s \<Longrightarrow> team_id x \<noteq> t"

locale challenge_store =
  fixes CR :: "('s, 'x) challenge_repo_scheme"
    and chals :: "'s \<Rightarrow> challenge multiset"
  assumes challenge_all_ok: "cr_find_all CR s = (Inr cs, s') \<Longrightarrow> mset cs = chals s"
    and challenge_find_ok: "cr_find_by_id CR c s = (Inr (Some ch), s') \<Longrightarrow> ch \<in># chals s \<and> ch_id ch = c"
    and challenge_find_none: "cr_find_by_id CR c s = (Inr None, s') \<Longrightarrow> ch \<in># chals s \<Longrightarrow> ch_id ch \<noteq> c"

end
