(* ===== verification/Pg.thy ===== *)
theory Pg
  imports Repos
begin

text \<open>
  The database under the repositories, \<open>src/src/libs/repos/pg/mod.rs\<close> and \<open>mappers.rs\<close>: the
  tables of \<open>SCHEMA_STATEMENTS\<close> with their keys, unique columns, references and lengths, and
  the mappers from rows to the program's types.

  A table is the list of its rows in the order a scan returns them; nothing proved depends on
  that order. \<open>JSONB\<close> columns hold values of a type \<open>'j\<close> and the \<open>serde\<close> derives are a record
  of encoders and decoders. A statement first meets the next entry of \<open>db_faults\<close>: a fault
  fails it with a driver error and without effect, so every statement can fail at any time.
  (That a lost connection can hide a statement that did execute, and that PostgreSQL drops
  excess trailing blanks of a \<open>VARCHAR\<close> instead of refusing it, is not modelled.)
\<close>

section \<open>Columns\<close>

text \<open>\<open>VARCHAR(n)\<close> counts characters; a text value never holds a zero byte.\<close>

definition utf8_chars :: "string \<Rightarrow> nat" where
  "utf8_chars s = length (filter (\<lambda>c. \<not> (128 \<le> (of_char c :: int) \<and> (of_char c :: int) < 192)) s)"

definition text_col :: "string \<Rightarrow> bool" where
  "text_col s \<longleftrightarrow> CHR 0x00 \<notin> set s"

definition varchar :: "nat \<Rightarrow> string \<Rightarrow> bool" where
  "varchar n s \<longleftrightarrow> text_col s \<and> utf8_chars s \<le> n"

definition varchar_opt :: "nat \<Rightarrow> string option \<Rightarrow> bool" where
  "varchar_opt n x = (case x of None \<Rightarrow> True | Some s \<Rightarrow> varchar n s)"

record 'j team_row =
  trow_id :: string
  trow_name :: string
  trow_ctftime_id :: "i32 option"
  trow_invite_code :: "string option"
  trow_captain_id :: string
  trow_bracket :: string
  trow_fields :: 'j
  trow_created_at :: i64

record 'j account_row =
  arow_id :: string
  arow_username :: string
  arow_email :: "string option"
  arow_password_hash :: "string option"
  arow_role :: string
  arow_team_id :: "string option"
  arow_ctftime_id :: "i32 option"
  arow_fields :: 'j
  arow_created_at :: i64

record 'j challenge_row =
  crow_id :: string
  crow_title :: string
  crow_description :: string
  crow_category :: string
  crow_points_mode :: string
  crow_points_equation :: string
  crow_flag :: 'j
  crow_author_id :: string
  crow_author_username :: string
  crow_hints :: 'j
  crow_files :: 'j
  crow_tags :: 'j
  crow_requirements :: 'j
  crow_team_consensus :: bool
  crow_deployment :: 'j
  crow_visibility :: 'j
  crow_max_attempts :: "'j option"

record submission_row =
  srow_id :: string
  srow_challenge_id :: string
  srow_team_id :: "string option"
  srow_account_id :: string
  srow_points :: i32
  srow_provided_flag :: string
  srow_is_correct :: bool
  srow_submitted_at :: i64
  srow_submitted_ip :: string

record instance_row =
  irow_id :: string
  irow_challenge_id :: string
  irow_team_id :: "string option"
  irow_account_id :: string
  irow_flag :: string
  irow_cluster_ip :: string
  irow_created_at :: i64
  irow_expires_at :: i64

record hint_row =
  hrow_id :: string
  hrow_challenge_id :: string
  hrow_hint_index :: i32
  hrow_team_id :: "string option"
  hrow_account_id :: string
  hrow_cost :: i32
  hrow_unlocked_at :: i64

record file_row =
  frow_id :: string
  frow_name :: string
  frow_checksum_sha256 :: string
  frow_size :: i64
  frow_content_type :: string
  frow_uploaded_at :: i64

record 'j notification_row =
  nrow_id :: string
  nrow_kind :: 'j
  nrow_title :: string
  nrow_message :: string
  nrow_target :: 'j
  nrow_created_at :: i64

record 'j db =
  db_teams :: "'j team_row list"
  db_accounts :: "'j account_row list"
  db_challenges :: "'j challenge_row list"
  db_submissions :: "submission_row list"
  db_instances :: "instance_row list"
  db_config :: "'j option" \<comment> \<open>the row with id 1\<close>
  db_hint_unlocks :: "hint_row list"
  db_files :: "file_row list"
  db_notifications :: "'j notification_row list"
  db_clock :: i64 \<comment> \<open>\<open>chrono::Utc::now().timestamp()\<close>\<close>
  db_faults :: "sqlx_error option list"

definition init_db :: "i64 \<Rightarrow> sqlx_error option list \<Rightarrow> 'j db" where
  "init_db now faults =
     \<lparr>db_teams = [], db_accounts = [], db_challenges = [], db_submissions = [],
      db_instances = [], db_config = None, db_hint_unlocks = [], db_files = [],
      db_notifications = [], db_clock = now, db_faults = faults\<rparr>"

section \<open>Statements\<close>

definition unique_violation :: sqlx_error where
  "unique_violation = Database True ''duplicate key value violates unique constraint''"

definition constraint_error :: sqlx_error where
  "constraint_error = Database False ''value violates a length, text or reference constraint''"

definition statement ::
    "('j db \<Rightarrow> (sqlx_error + 'a) \<times> 'j db) \<Rightarrow> ('j db, repo_error, 'a) act" where
  "statement q = (\<lambda>db.
     let next_db = db\<lparr>db_faults := tl (db_faults db)\<rparr> in
     case db_faults db of
       Some e # _ \<Rightarrow> (Inl (repo_error_of_sqlx e), next_db)
     | _ \<Rightarrow>
         (case q next_db of
            (Inl e, db') \<Rightarrow> (Inl (repo_error_of_sqlx e), db')
          | (Inr x, db') \<Rightarrow> (Inr x, db')))"

text \<open>A query returns rows and leaves the tables; a change returns the new tables or an error.\<close>

definition select :: "('j db \<Rightarrow> 'a) \<Rightarrow> ('j db, repo_error, 'a) act" where
  "select f = statement (\<lambda>db. (Inr (f db), db))"

definition change :: "('j db \<Rightarrow> sqlx_error + 'j db) \<Rightarrow> ('j db, repo_error, unit) act" where
  "change f = statement (\<lambda>db. case f db of Inl e \<Rightarrow> (Inl e, db) | Inr db' \<Rightarrow> (Inr (), db'))"

text \<open>\<open>fetch_optional\<close>: the first row of the scan that satisfies the condition.\<close>

definition fetch_optional :: "('j db \<Rightarrow> 'r list) \<Rightarrow> ('r \<Rightarrow> bool) \<Rightarrow> ('j db, repo_error, 'r option) act" where
  "fetch_optional table cond = select (\<lambda>db. find cond (table db))"

definition fetch_all :: "('j db \<Rightarrow> 'r list) \<Rightarrow> ('r \<Rightarrow> bool) \<Rightarrow> ('j db, repo_error, 'r list) act" where
  "fetch_all table cond = select (\<lambda>db. filter cond (table db))"

definition decode_error :: "string \<Rightarrow> repo_error" where
  "decode_error msg = repo_error_of_sqlx (SqlxOther msg)"

definition team_exists :: "'j db \<Rightarrow> string option \<Rightarrow> bool" where
  "team_exists db t = (case t of None \<Rightarrow> True | Some i \<Rightarrow> list_ex (\<lambda>r. trow_id r = i) (db_teams db))"

definition account_exists :: "'j db \<Rightarrow> string \<Rightarrow> bool" where
  "account_exists db a = list_ex (\<lambda>r. arow_id r = a) (db_accounts db)"

text \<open>An insert with well-formed values, a key, and references.\<close>

definition checked :: "bool \<Rightarrow> bool \<Rightarrow> bool \<Rightarrow> 'j db \<Rightarrow> sqlx_error + 'j db" where
  "checked well_formed duplicate refs_ok db' =
     (if \<not> well_formed then Inl constraint_error
      else if duplicate then Inl unique_violation
      else if \<not> refs_ok then Inl constraint_error
      else Inr db')"

section \<open>Rows and values\<close>

text \<open>
  The derived \<open>Serialize\<close> and \<open>Deserialize\<close> implementations of the types in \<open>JSONB\<close> columns;
  a decoder returns an error message or a value.
\<close>

record 'j serde =
  fields_to :: "(string \<rightharpoonup> json_value) \<Rightarrow> 'j"
  fields_from :: "'j \<Rightarrow> string + (string \<rightharpoonup> json_value)"
  flag_to :: "flag_validator \<Rightarrow> 'j"
  flag_from :: "'j \<Rightarrow> string + flag_validator"
  hints_to :: "challenge_hint list \<Rightarrow> 'j"
  hints_from :: "'j \<Rightarrow> string + challenge_hint list"
  files_to :: "challenge_file list \<Rightarrow> 'j"
  files_from :: "'j \<Rightarrow> string + challenge_file list"
  tags_to :: "string list \<Rightarrow> 'j"
  tags_from :: "'j \<Rightarrow> string + string list"
  requirements_to :: "challenge_requirement list \<Rightarrow> 'j"
  requirements_from :: "'j \<Rightarrow> string + challenge_requirement list"
  deployment_to :: "challenge_deployment \<Rightarrow> 'j"
  deployment_from :: "'j \<Rightarrow> string + challenge_deployment"
  visibility_to :: "challenge_visibility \<Rightarrow> 'j"
  visibility_from :: "'j \<Rightarrow> string + challenge_visibility"
  max_attempts_to :: "max_attempts option \<Rightarrow> 'j"
  max_attempts_from :: "'j \<Rightarrow> string + max_attempts"
  config_to :: "ctf_config \<Rightarrow> 'j"
  config_from :: "'j \<Rightarrow> string + ctf_config"
  kind_to :: "notification_kind \<Rightarrow> 'j"
  kind_from :: "'j \<Rightarrow> string + notification_kind"
  target_to :: "notification_target \<Rightarrow> 'j"
  target_from :: "'j \<Rightarrow> string + notification_target"

definition or_else :: "string + 'a \<Rightarrow> 'a \<Rightarrow> 'a" where
  "or_else r d = (case r of Inl _ \<Rightarrow> d | Inr x \<Rightarrow> x)"

text \<open>The decoding step of a mapper: an error ends it.\<close>

definition and_then :: "'e + 'a \<Rightarrow> ('a \<Rightarrow> 'e + 'b) \<Rightarrow> 'e + 'b" where
  "and_then r k = (case r of Inl e \<Rightarrow> Inl e | Inr x \<Rightarrow> k x)"

lemma and_then_simps [simp]: "and_then (Inl e) k = Inl e" "and_then (Inr x) k = k x"
  by (simp_all add: and_then_def)

lemma and_then_Inr: "and_then r k = Inr y \<longleftrightarrow> (\<exists>x. r = Inr x \<and> k x = Inr y)"
  by (cases r) simp_all

definition role_of_str :: "string \<Rightarrow> account_role" where
  "role_of_str s =
     (if s = ''Admin'' then Admin else if s = ''Spectator'' then Spectator else Player)"

definition role_str :: "account_role \<Rightarrow> string" where
  "role_str r = (case r of Admin \<Rightarrow> ''Admin'' | Spectator \<Rightarrow> ''Spectator'' | Player \<Rightarrow> ''Player'')"

definition map_account :: "'j serde \<Rightarrow> 'j account_row \<Rightarrow> string + account" where
  "map_account J row =
     and_then (fields_from J (arow_fields row)) (\<lambda>fields.
       Inr \<lparr>acc_id = AccountId (arow_id row), acc_username = AccountName (arow_username row),
            acc_email = map_option AccountEmail (arow_email row),
            acc_password_hash = arow_password_hash row,
            acc_role = role_of_str (arow_role row),
            acc_team_id = map_option TeamId (arow_team_id row),
            acc_ctftime_id = arow_ctftime_id row, acc_fields = fields,
            acc_created_at = arow_created_at row\<rparr>)"

definition scoring_mode_of :: "string \<Rightarrow> string \<Rightarrow> scoring_mode" where
  "scoring_mode_of points_mode points_equation =
     (if points_mode = ''PointAttribution'' then PointAttribution
      else if points_mode = ''DynamicDecay'' then
        (case split_on (CHR '','') points_equation of
           [a, b, c] \<Rightarrow>
             DynamicDecay (case parse_u32 a of Some i \<Rightarrow> i | None \<Rightarrow> 500)
               (case parse_u32 b of Some m \<Rightarrow> m | None \<Rightarrow> 100)
               (case parse_u32 c of Some d \<Rightarrow> d | None \<Rightarrow> 10)
         | _ \<Rightarrow> DynamicDecay 500 100 10)
      else PointValue)"

definition mode_str :: "scoring_mode \<Rightarrow> string" where
  "mode_str m =
     (case m of
        PointValue \<Rightarrow> ''PointValue''
      | PointAttribution \<Rightarrow> ''PointAttribution''
      | DynamicDecay _ _ _ \<Rightarrow> ''DynamicDecay'')"

definition equation_str :: "challenge_points \<Rightarrow> string" where
  "equation_str p =
     (case pts_mode p of
        DynamicDecay i m d \<Rightarrow> show_u32 i @ '','' @ show_u32 m @ '','' @ show_u32 d
      | _ \<Rightarrow> pts_equation p)"

definition map_challenge :: "'j serde \<Rightarrow> 'j challenge_row \<Rightarrow> string + challenge" where
  "map_challenge J row =
     and_then (flag_from J (crow_flag row)) (\<lambda>flag.
     and_then (hints_from J (crow_hints row)) (\<lambda>hints.
     and_then (files_from J (crow_files row)) (\<lambda>files.
     and_then (tags_from J (crow_tags row)) (\<lambda>tags.
     and_then (requirements_from J (crow_requirements row)) (\<lambda>requirements.
     and_then (deployment_from J (crow_deployment row)) (\<lambda>deployment.
     Inr \<lparr>ch_id = crow_id row, ch_title = crow_title row,
          ch_description = HtmlString (crow_description row), ch_category = crow_category row,
          ch_points =
            \<lparr>pts_mode = scoring_mode_of (crow_points_mode row) (crow_points_equation row),
             pts_equation = crow_points_equation row\<rparr>,
          ch_flag = flag,
          ch_author =
            \<lparr>author_id = crow_author_id row, author_username = crow_author_username row\<rparr>,
          ch_hints = hints, ch_files = files, ch_tags = tags, ch_requirements = requirements,
          ch_team_consensus = crow_team_consensus row, ch_deployment = deployment,
          ch_visibility = or_else (visibility_from J (crow_visibility row)) Visible,
          ch_max_attempts =
            (case crow_max_attempts row of
               None \<Rightarrow> None
             | Some v \<Rightarrow> (case max_attempts_from J v of Inl _ \<Rightarrow> None | Inr m \<Rightarrow> Some m))\<rparr>))))))"

definition map_submission :: "submission_row \<Rightarrow> submission" where
  "map_submission row =
     \<lparr>sub_id = SubmissionId (srow_id row), sub_challenge_id = srow_challenge_id row,
      sub_team_id = map_option TeamId (srow_team_id row),
      sub_account_id = AccountId (srow_account_id row), sub_points = srow_points row,
      sub_provided_flag = srow_provided_flag row, sub_is_correct = srow_is_correct row,
      sub_submitted_at = srow_submitted_at row, sub_submitted_ip = srow_submitted_ip row\<rparr>"

definition map_hint_unlock :: "hint_row \<Rightarrow> hint_unlock" where
  "map_hint_unlock row =
     \<lparr>hu_id = HintUnlockId (hrow_id row), hu_challenge_id = hrow_challenge_id row,
      hu_hint_index = hrow_hint_index row, hu_team_id = map_option TeamId (hrow_team_id row),
      hu_account_id = AccountId (hrow_account_id row), hu_cost = hrow_cost row,
      hu_unlocked_at = hrow_unlocked_at row\<rparr>"

text \<open>The scoring mode survives its two columns.\<close>

lemma role_roundtrip [simp]: "role_of_str (role_str r) = r"
  by (cases r) (simp_all add: role_of_str_def role_str_def)

lemma scoring_mode_roundtrip [simp]:
  "scoring_mode_of (mode_str (pts_mode p)) (equation_str p) = pts_mode p"
proof (cases "pts_mode p")
  case (DynamicDecay i m d)
  have "digit_val (CHR '','') = None" by (simp add: digit_val_def)
  then have "split_on (CHR '','') (show_u32 i @ CHR '','' # show_u32 m @ CHR '','' # show_u32 d)
      = [show_u32 i, show_u32 m, show_u32 d]"
    by (simp add: split_on_append split_on_none show_u32_no_comma)
  then show ?thesis
    by (simp add: DynamicDecay scoring_mode_of_def mode_str_def equation_str_def parse_show_u32)
qed (simp_all add: scoring_mode_of_def mode_str_def)

end
