(* ===== verification/Scoring.thy ===== *)
theory Scoring
  imports Repos
begin

text \<open>
  The value of a challenge, \<open>calculate_dynamic_points\<close> of
  \<open>src/src/libs/services/solve.rs\<close>, in binary64 arithmetic. The lemmas reduce it to one
  chain of roundings, and from the monotonicity of rounding derive that the value stays
  between the minimum and the initial value and never rises with the number of solves.
\<close>

section \<open>Scoring\<close>

definition calculate_dynamic_points :: "u32 \<Rightarrow> u32 \<Rightarrow> u32 \<Rightarrow> u32 \<Rightarrow> u32" where
  "calculate_dynamic_points initial minimum decay solve_count =
     (if solve_count \<le> 1 then initial
      else
        let x = f64_of_u32 (solve_count - 1);
            d = f64_of_u32 decay;
            ratio = f64_div (Fin 1) (f64_add (Fin 1) (f64_div (f64_mul x x) (f64_mul d d)));
            points =
              f64_add
                (f64_mul (f64_sub (f64_of_u32 initial) (f64_of_u32 minimum)) ratio)
                (f64_of_u32 minimum)
        in f64_to_u32 (f64_round points))"

definition fixed_points :: "challenge \<Rightarrow> u32" where
  "fixed_points ch =
     (case parse_u32 (pts_equation (ch_points ch)) of Some p \<Rightarrow> p | None \<Rightarrow> 100)"

section \<open>The formula as a chain of roundings\<close>

definition square :: "int \<Rightarrow> rat" where
  "square n = round_rat (of_int (n * n))"

definition denominator :: "int \<Rightarrow> int \<Rightarrow> rat" where
  "denominator x d = round_rat (1 + round_rat (square x / square d))"

definition decay_ratio :: "int \<Rightarrow> int \<Rightarrow> rat" where
  "decay_ratio x d = (if d = 0 then 0 else round_rat (1 / denominator x d))"

definition decay_value :: "int \<Rightarrow> int \<Rightarrow> rat \<Rightarrow> rat" where
  "decay_value i m r = round_rat (round_rat (of_int (i - m) * r) + of_int m)"

definition u32_int :: "int \<Rightarrow> bool" where
  "u32_int n \<longleftrightarrow> 0 \<le> n \<and> n < 2 ^ 32"

lemma u32_int_uint [simp]: "u32_int (uint (w :: u32))"
  using uint_u32_bounds [of w] by (simp add: u32_int_def)

lemma u32_intD: "u32_int n \<Longrightarrow> 0 \<le> n" "u32_int n \<Longrightarrow> n < 2 ^ 32"
  by (simp_all add: u32_int_def)

lemma int_square_bound: "u32_int n \<Longrightarrow> n * n < 2 ^ 64"
proof -
  assume "u32_int n"
  then have "n * n \<le> (2 ^ 32 - 1) * (2 ^ 32 - 1)"
    by (intro mult_mono) (simp_all add: u32_int_def)
  then show ?thesis by simp
qed

lemma round_rat_le_int: "q \<le> of_int n \<Longrightarrow> \<bar>n\<bar> < 2 ^ 53 \<Longrightarrow> round_rat q \<le> of_int n"
  using round_rat_mono [of q "of_int n"] by (simp add: round_rat_of_int)

lemma round_rat_ge_int: "of_int n \<le> q \<Longrightarrow> \<bar>n\<bar> < 2 ^ 53 \<Longrightarrow> of_int n \<le> round_rat q"
  using round_rat_mono [of "of_int n" q] by (simp add: round_rat_of_int)

lemma round_rat_ge_1: "1 \<le> q \<Longrightarrow> 1 \<le> round_rat q"
  using round_rat_ge_int [of 1 q] by simp

lemma round_rat_le_1: "q \<le> 1 \<Longrightarrow> round_rat q \<le> 1"
  using round_rat_le_int [of q 1] by simp

text \<open>Everything up to \<open>2^65\<close> is far from overflow.\<close>

definition two64 :: rat where
  "two64 = 2 powi 64"

lemma two64_round: "q \<le> two64 \<Longrightarrow> round_rat q \<le> two64"
  using round_rat_mono [of q two64] round_rat_pow2 [of 64] by (simp add: two64_def)

lemma two64_ge: "1 + two64 \<le> 2 * two64" "1 \<le> two64"
  by (simp_all add: two64_def)

lemma two64_int: "of_int n \<le> two64" if "n \<le> 2 ^ 64"
proof -
  have "of_int n \<le> (of_int (2 ^ 64) :: rat)" using that by (simp only: of_int_le_iff)
  then show ?thesis by (simp add: two64_def)
qed

lemma f64_small: "\<bar>q\<bar> \<le> 2 * two64 \<Longrightarrow> f64_of_rat q = Fin (round_rat q)"
proof -
  assume "\<bar>q\<bar> \<le> 2 * two64"
  also have "2 * two64 = 2 powi 65" by (simp add: two64_def)
  also have "(2 :: rat) powi 65 \<le> 2 powi 1023" by (rule power_int_increasing) simp_all
  finally show ?thesis by (rule f64_of_rat_Fin)
qed

lemma square_ge_1: "1 \<le> n \<Longrightarrow> 1 \<le> square n"
proof -
  assume "1 \<le> n"
  then have "1 * 1 \<le> n * n" by (intro mult_mono) simp_all
  then have "(1 :: rat) \<le> of_int (n * n)" by (metis of_int_1_le_iff mult_1)
  then show ?thesis unfolding square_def by (rule round_rat_ge_1)
qed

lemma square_le: "u32_int n \<Longrightarrow> square n \<le> two64"
  unfolding square_def using int_square_bound [of n] by (intro two64_round two64_int) simp

lemma square_nonneg [simp]: "0 \<le> square n"
  unfolding square_def by (rule round_rat_nonneg) simp

lemma square_0 [simp]: "square 0 = 0"
  by (simp add: square_def)

lemma square_mono: "0 \<le> m \<Longrightarrow> m \<le> n \<Longrightarrow> square m \<le> square n"
  unfolding square_def by (intro round_rat_mono) (simp only: of_int_le_iff, simp add: mult_mono)

lemma square_f64: "u32_int n \<Longrightarrow> f64_mul (Fin (of_int n)) (Fin (of_int n)) = Fin (square n)"
proof -
  assume "u32_int n"
  then have "of_int (n * n) \<le> two64" using int_square_bound [of n] by (intro two64_int) simp
  with two64_ge have "\<bar>of_int (n * n)\<bar> \<le> 2 * two64" by simp
  from f64_small [OF this] show ?thesis by (simp add: square_def)
qed

lemma quotient_bounds:
  assumes "u32_int x" "1 \<le> d"
  shows "0 \<le> square x / square d" "square x / square d \<le> two64"
proof -
  have d: "1 \<le> square d" using assms(2) by (rule square_ge_1)
  then show "0 \<le> square x / square d" by simp
  have "square x / square d \<le> square x / 1" by (rule divide_left_mono) (use d in simp_all)
  with square_le [OF assms(1)] show "square x / square d \<le> two64" by simp
qed

lemma denominator_ge_1: "1 \<le> d \<Longrightarrow> 1 \<le> denominator x d"
  unfolding denominator_def using square_ge_1 [of d]
  by (intro round_rat_ge_1) (simp add: round_rat_nonneg)

lemma decay_ratio_bounds:
  assumes "0 \<le> d"
  shows "0 \<le> decay_ratio x d" "decay_ratio x d \<le> 1"
proof -
  have s: "1 \<le> denominator x d" if "d \<noteq> 0"
    using assms that by (intro denominator_ge_1) simp
  have "0 \<le> round_rat (1 / denominator x d)" if "d \<noteq> 0"
    using s [OF that] by (intro round_rat_nonneg) simp
  then show "0 \<le> decay_ratio x d" by (simp add: decay_ratio_def)
  have "round_rat (1 / denominator x d) \<le> 1" if "d \<noteq> 0"
    using s [OF that] by (intro round_rat_le_1) simp
  then show "decay_ratio x d \<le> 1" by (simp add: decay_ratio_def)
qed

lemma decay_ratio_antimono:
  assumes "0 \<le> x" "x \<le> y" "0 \<le> d"
  shows "decay_ratio y d \<le> decay_ratio x d"
proof (cases "d = 0")
  case True
  then show ?thesis by (simp add: decay_ratio_def)
next
  case False
  with assms have d: "1 \<le> d" by simp
  have "square x / square d \<le> square y / square d"
    by (rule divide_right_mono) (use assms square_ge_1 [OF d] in \<open>simp_all add: square_mono\<close>)
  then have den: "denominator x d \<le> denominator y d"
    unfolding denominator_def by (simp add: round_rat_mono)
  have one: "1 \<le> denominator x d" using d by (rule denominator_ge_1)
  have "1 / denominator y d \<le> 1 / denominator x d"
    by (rule divide_left_mono) (use den one in simp_all)
  then show ?thesis using False by (simp add: decay_ratio_def round_rat_mono)
qed

lemma decay_ratio_f64:
  assumes x: "u32_int x" "1 \<le> x" and d: "u32_int d"
  shows "f64_div (Fin 1) (f64_add (Fin 1) (f64_div (Fin (square x)) (Fin (square d))))
    = Fin (decay_ratio x d)"
proof (cases "d = 0")
  case True
  have "1 \<le> square x" using x(2) by (rule square_ge_1)
  with True show ?thesis by (simp add: decay_ratio_def f64_inf_signed_def)
next
  case False
  with d have d1: "1 \<le> d" by (simp add: u32_int_def)
  have dd: "1 \<le> square d" using d1 by (rule square_ge_1)
  note q = quotient_bounds [OF x(1) d1]
  have "f64_div (Fin (square x)) (Fin (square d)) = Fin (round_rat (square x / square d))"
    using dd q two64_ge by (simp add: f64_small)
  moreover have "f64_add (Fin 1) (Fin (round_rat (square x / square d))) = Fin (denominator x d)"
    using q two64_round [OF q(2)] round_rat_nonneg [OF q(1)] two64_ge
    by (simp add: f64_small denominator_def)
  moreover have "f64_div (Fin 1) (Fin (denominator x d)) = Fin (decay_ratio x d)"
  proof -
    have den: "1 \<le> denominator x d" using d1 by (rule denominator_ge_1)
    then have "\<bar>1 / denominator x d\<bar> \<le> 1" by simp
    with two64_ge have "\<bar>1 / denominator x d\<bar> \<le> 2 * two64" by linarith
    from f64_small [OF this] den False show ?thesis by (simp add: decay_ratio_def)
  qed
  ultimately show ?thesis by simp
qed

lemma decay_value_bounds:
  assumes "0 \<le> r" "r \<le> 1" "u32_int i" "u32_int m"
  shows "of_int (min i m) \<le> decay_value i m r" "decay_value i m r \<le> of_int (max i m)"
proof -
  have n: "\<bar>i - m\<bar> < 2 ^ 53" using assms(3,4) by (auto simp: u32_int_def)
  have k: "min (of_int (i - m)) 0 \<le> of_int (i - m) * r" "of_int (i - m) * r \<le> max (of_int (i - m)) 0"
    using assms(1,2)
    by (auto simp: min_def max_def mult_le_cancel_left1 mult_le_cancel_left2 mult_nonneg_nonneg
          mult_nonpos_nonneg simp flip: of_int_diff)
  have lo: "of_int (min (i - m) 0) \<le> round_rat (of_int (i - m) * r)"
    using k n by (intro round_rat_ge_int) (auto simp: min_def)
  have hi: "round_rat (of_int (i - m) * r) \<le> of_int (max (i - m) 0)"
    using k n by (intro round_rat_le_int) (auto simp: max_def)
  have "of_int (min (i - m) 0 + m) \<le> decay_value i m r" unfolding decay_value_def
    using lo assms(3,4) by (intro round_rat_ge_int) (auto simp: u32_int_def min_def)
  then show "of_int (min i m) \<le> decay_value i m r" by (simp add: min_def split: if_splits)
  have "decay_value i m r \<le> of_int (max (i - m) 0 + m)" unfolding decay_value_def
    using hi assms(3,4) by (intro round_rat_le_int) (auto simp: u32_int_def max_def)
  then show "decay_value i m r \<le> of_int (max i m)" by (simp add: max_def split: if_splits)
qed

lemma decay_value_mono: "m \<le> i \<Longrightarrow> r \<le> r' \<Longrightarrow> decay_value i m r \<le> decay_value i m r'"
  unfolding decay_value_def by (simp add: round_rat_mono mult_left_mono)

lemma decay_value_f64:
  assumes "0 \<le> r" "r \<le> 1" "u32_int i" "u32_int m"
  shows "f64_add (f64_mul (f64_sub (Fin (of_int i)) (Fin (of_int m))) (Fin r)) (Fin (of_int m))
    = Fin (decay_value i m r)"
proof -
  have n: "\<bar>i - m\<bar> < 2 ^ 32" using assms(3,4) by (auto simp: u32_int_def)
  have "f64_sub (Fin (of_int i)) (Fin (of_int m)) = f64_of_rat (of_int (i - m))"
    by (simp add: f64_sub_def)
  also have "\<dots> = Fin (of_int (i - m))" using n by (intro f64_of_int_Fin) simp
  finally have 1: "f64_sub (Fin (of_int i)) (Fin (of_int m)) = Fin (of_int (i - m))" .
  have "\<bar>of_int (i - m) * r\<bar> \<le> \<bar>of_int (i - m)\<bar> * 1"
    unfolding abs_mult by (rule mult_left_mono) (use assms in simp_all)
  also have "\<dots> \<le> of_int (2 ^ 32)"
    using n by (simp only: mult_1_right of_int_abs [symmetric] of_int_le_iff)
  finally have b: "\<bar>of_int (i - m) * r\<bar> \<le> of_int (2 ^ 32)" .
  also have "of_int (2 ^ 32) \<le> 2 * two64" by (simp add: two64_def)
  finally have 2: "f64_mul (Fin (of_int (i - m))) (Fin r) = Fin (round_rat (of_int (i - m) * r))"
    by (simp add: f64_small)
  have "round_rat (of_int (i - m) * r) \<le> of_int (2 ^ 32)"
    "of_int (- (2 ^ 32)) \<le> round_rat (of_int (i - m) * r)"
    using b by (intro round_rat_le_int round_rat_ge_int; simp add: abs_le_iff)+
  moreover have "0 \<le> (of_int m :: rat)" "of_int m \<le> (of_int (2 ^ 32) :: rat)"
    using assms(4) by (simp_all only: of_int_le_iff) (simp_all add: u32_int_def)
  ultimately have "\<bar>round_rat (of_int (i - m) * r) + of_int m\<bar> \<le> 2 * two64"
    by (simp add: two64_def abs_le_iff)
  then have "f64_add (Fin (round_rat (of_int (i - m) * r))) (Fin (of_int m)) = Fin (decay_value i m r)"
    by (simp add: f64_small decay_value_def)
  with 1 2 show ?thesis by simp
qed

section \<open>The value of a challenge\<close>

lemma rat_round_mono: "p \<le> q \<Longrightarrow> rat_round p \<le> rat_round q"
proof -
  assume pq: "p \<le> q"
  consider "0 \<le> p" | "p < 0" "0 \<le> q" | "q < 0" by linarith
  then show ?thesis
  proof cases
    case 2
    then have "0 \<le> \<lfloor>q + 1 / 2\<rfloor>" "0 \<le> \<lfloor>- p + 1 / 2\<rfloor>" by simp_all
    then have "- \<lfloor>- p + 1 / 2\<rfloor> \<le> \<lfloor>q + 1 / 2\<rfloor>" by linarith
    with 2 show ?thesis unfolding rat_round_def by simp
  qed (use pq in \<open>auto simp: rat_round_def intro!: floor_mono\<close>)
qed

lemma rat_round_of_int [simp]: "rat_round (of_int n) = n"
proof (cases "0 \<le> n")
  case True
  have "\<lfloor>of_int n + 1 / 2 :: rat\<rfloor> = n" by (rule floor_unique) simp_all
  with True show ?thesis by (simp add: rat_round_def)
next
  case False
  have "\<lfloor>- of_int n + 1 / 2 :: rat\<rfloor> = - n" by (rule floor_unique) simp_all
  with False show ?thesis by (simp add: rat_round_def)
qed

lemma rat_trunc_of_int [simp]: "rat_trunc (of_int n) = n"
proof (cases "0 \<le> n")
  case False
  have "- of_int n = (of_int (- n) :: rat)" by simp
  then have "\<lfloor>- of_int n :: rat\<rfloor> = - n" by (metis floor_of_int)
  with False show ?thesis by (simp add: rat_trunc_def)
qed (simp add: rat_trunc_def)

lemma f64_to_u32_round:
  assumes "u32_int (rat_round q)"
  shows "f64_to_u32 (f64_round (Fin q)) = of_int (rat_round q)"
  using assms by (simp add: f64_to_u32_def u32_int_def)

text \<open>The code's value, as an integer: the rounded chain, with nothing saturated.\<close>

lemma decayed_points:
  fixes initial minimum decay solve_count :: u32
  assumes "\<not> solve_count \<le> 1"
  defines "V \<equiv> decay_value (uint initial) (uint minimum)
      (decay_ratio (uint solve_count - 1) (uint decay))"
  shows "uint (calculate_dynamic_points initial minimum decay solve_count) = rat_round V"
    and "min (uint initial) (uint minimum) \<le> rat_round V"
    and "rat_round V \<le> max (uint initial) (uint minimum)"
proof -
  define x where "x = uint solve_count - 1"
  have gt: "1 < uint solve_count" using assms(1) by (simp add: word_le_def)
  then have x: "uint (solve_count - 1) = x" 
    using uint_u32_bounds [of solve_count] by (simp add: x_def uint_word_ariths)
  have xx: "u32_int x" "1 \<le> x"
    using gt u32_int_uint [of solve_count] by (auto simp: x_def u32_int_def)
  define r where "r = decay_ratio x (uint decay)"
  have r: "0 \<le> r" "r \<le> 1" unfolding r_def by (rule decay_ratio_bounds, simp)+
  have ratio: "f64_div (Fin 1) (f64_add (Fin 1)
      (f64_div (Fin (square x)) (Fin (square (uint decay))))) = Fin r"
    unfolding r_def by (rule decay_ratio_f64) (use xx in simp_all)
  have sqx: "f64_mul (f64_of_u32 (solve_count - 1)) (f64_of_u32 (solve_count - 1)) = Fin (square x)"
    unfolding f64_of_u32_Fin x by (rule square_f64 [OF xx(1)])
  have sqd: "f64_mul (f64_of_u32 decay) (f64_of_u32 decay) = Fin (square (uint decay))"
    unfolding f64_of_u32_Fin by (rule square_f64) simp
  have val: "f64_add (f64_mul (f64_sub (f64_of_u32 initial) (f64_of_u32 minimum)) (Fin r))
      (f64_of_u32 minimum) = Fin (decay_value (uint initial) (uint minimum) r)"
    unfolding f64_of_u32_Fin by (rule decay_value_f64 [OF r]) simp_all
  have V: "V = decay_value (uint initial) (uint minimum) r" by (simp add: V_def r_def x_def)
  note b = decay_value_bounds [OF r, of "uint initial" "uint minimum", simplified u32_int_uint]
  show lo: "min (uint initial) (uint minimum) \<le> rat_round V"
    using rat_round_mono [OF b(1)] by (simp add: V del: of_int_min)
  show hi: "rat_round V \<le> max (uint initial) (uint minimum)"
    using rat_round_mono [OF b(2)] by (simp add: V del: of_int_max)
  have u: "u32_int (rat_round V)"
  proof -
    have "0 \<le> min (uint initial) (uint minimum)" by simp
    moreover have "max (uint initial) (uint minimum) < 2 ^ 32"
      using uint_u32_bounds [of initial] uint_u32_bounds [of minimum] by simp
    ultimately show ?thesis unfolding u32_int_def using lo hi by linarith
  qed
  have "calculate_dynamic_points initial minimum decay solve_count = f64_to_u32 (f64_round (Fin V))"
    using assms(1)
    by (simp only: calculate_dynamic_points_def Let_def sqx sqd ratio val if_False V)
  also have "\<dots> = of_int (rat_round V)" using u by (rule f64_to_u32_round)
  finally show "uint (calculate_dynamic_points initial minimum decay solve_count) = rat_round V"
    using u by (simp add: u32_int_def word_of_int_inverse unsigned_of_int take_bit_int_eq_self)
qed

lemma decayed_points_first: "solve_count \<le> 1 \<Longrightarrow> calculate_dynamic_points i m d solve_count = i"
  by (simp add: calculate_dynamic_points_def)

text \<open>Between the two configured values, whichever is larger.\<close>

lemma calculate_dynamic_points_between:
  "min (uint i) (uint m) \<le> uint (calculate_dynamic_points i m d n)"
  "uint (calculate_dynamic_points i m d n) \<le> max (uint i) (uint m)"
  using decayed_points [of n i m d] by (cases "n \<le> 1"; simp add: decayed_points_first)+

text \<open>More solves never raise the value of a challenge whose minimum is below its initial value.\<close>

lemma calculate_dynamic_points_antimono:
  assumes "minimum \<le> initial" "a \<le> b"
  shows "calculate_dynamic_points initial minimum decay b \<le> calculate_dynamic_points initial minimum decay a"
proof (cases "a \<le> 1")
  case True
  with assms(1) calculate_dynamic_points_between(2) [of initial minimum decay b]
  show ?thesis by (simp add: decayed_points_first word_le_def)
next
  case False
  with assms(2) have b: "\<not> b \<le> 1" by (meson order_trans)
  have gt: "1 < uint a" using False by (simp add: word_le_def)
  have r: "decay_ratio (uint b - 1) (uint decay) \<le> decay_ratio (uint a - 1) (uint decay)"
    by (rule decay_ratio_antimono) (use gt assms(2) in \<open>simp_all add: word_le_def\<close>)
  have "rat_round (decay_value (uint initial) (uint minimum) (decay_ratio (uint b - 1) (uint decay)))
      \<le> rat_round (decay_value (uint initial) (uint minimum) (decay_ratio (uint a - 1) (uint decay)))"
    by (intro rat_round_mono decay_value_mono r) (use assms(1) in \<open>simp add: word_le_def\<close>)
  then show ?thesis
    unfolding word_le_def decayed_points(1) [OF b] decayed_points(1) [OF False] .
qed

end
