(* ===== verification/Solve.thy ===== *)
theory Solve
  imports Scoring
begin

text \<open>
  Flag submission, \<open>src/src/libs/services/solve.rs\<close>: \<open>SolveService::submit_flag\<close>, cut where its code has a blank line into the attempt limit,
  the prerequisites, the flag check, the duplicate check, the solve count, the consensus
  check and the points, and composed in the code's order. The clock and the generated id
  are arguments. The second half proves what one call does to any lawful store.
\<close>

section \<open>The service\<close>

record 's solve_service =
  sv_challenge_repo :: "'s challenge_repo"
  sv_submission_repo :: "'s submission_repo"
  sv_team_repo :: "'s team_repo"

text \<open>The submissions a check looks at: the team's when there is a team, else all.\<close>

definition candidate_subs ::
    "'s solve_service \<Rightarrow> team_id option \<Rightarrow> ('s, service_error, submission list) act" where
  "candidate_subs svc tm =
     repo_call
       (case tm of
          Some t \<Rightarrow> sr_find_by_team (sv_submission_repo svc) t
        | None \<Rightarrow> sr_find_all (sv_submission_repo svc))"

definition own_sub :: "team_id option \<Rightarrow> account_id \<Rightarrow> submission \<Rightarrow> bool" where
  "own_sub tm acct s \<longleftrightarrow> tm \<noteq> None \<or> sub_account_id s = acct"

definition count_attempts :: "attempt_count_mode \<Rightarrow> submission list \<Rightarrow> nat" where
  "count_attempts m prior =
     (case m of
        All \<Rightarrow> length prior
      | IncorrectOnly \<Rightarrow> length (filter (\<lambda>s. \<not> sub_is_correct s) prior)
      | Unique \<Rightarrow> card (set (map (\<lambda>s. trim (sub_provided_flag s)) prior))
      | UniqueIncorrect \<Rightarrow>
          card (set (map (\<lambda>s. trim (sub_provided_flag s))
                       (filter (\<lambda>s. \<not> sub_is_correct s) prior))))"

definition check_max_attempts ::
    "'s solve_service \<Rightarrow> challenge \<Rightarrow> string \<Rightarrow> team_id option \<Rightarrow> account_id \<Rightarrow>
     ('s, service_error, unit) act" where
  "check_max_attempts svc ch cid tm acct =
     (case ch_max_attempts ch of
        None \<Rightarrow> ret ()
      | Some limit_cfg \<Rightarrow>
          try_await (candidate_subs svc tm) (\<lambda>all.
            let prior = filter (\<lambda>s. sub_challenge_id s = cid \<and> own_sub tm acct s) all;
                attempts = (of_nat (count_attempts (ma_mode limit_cfg) prior) :: u32)
            in if attempts \<ge> ma_limit limit_cfg
               then fail (InvalidRequest ''ctf-max-attempts-reached'')
               else ret ()))"

definition requirement_in :: "string set \<Rightarrow> challenge_requirement \<Rightarrow> bool" where
  "requirement_in solved req = (case req of Solve i \<Rightarrow> i \<in> solved)"

definition check_requirements ::
    "'s solve_service \<Rightarrow> challenge \<Rightarrow> team_id option \<Rightarrow> account_id \<Rightarrow>
     ('s, service_error, unit) act" where
  "check_requirements svc ch tm acct =
     (if ch_requirements ch = [] then ret ()
      else
        try_await (candidate_subs svc tm) (\<lambda>subs.
          let solved =
                set (map sub_challenge_id
                       (filter (\<lambda>s. sub_is_correct s \<and> own_sub tm acct s) subs))
          in if list_all (requirement_in solved) (ch_requirements ch) then ret ()
             else fail (InvalidRequest ''ctf-requirements-not-met'')))"

definition check_flag :: "ext \<Rightarrow> challenge \<Rightarrow> string \<Rightarrow> string option \<Rightarrow> partial_flag option \<Rightarrow> bool" where
  "check_flag X ch submitted active matched_partial =
     (case ch_flag ch of
        Multi _ \<Rightarrow> matched_partial \<noteq> None
      | _ \<Rightarrow> is_match X (ch_flag ch) submitted active)"

definition existing_correct_subs ::
    "'s solve_service \<Rightarrow> string \<Rightarrow> team_id option \<Rightarrow> account_id \<Rightarrow>
     ('s, service_error, submission list) act" where
  "existing_correct_subs svc cid tm acct =
     try_await (candidate_subs svc tm) (\<lambda>subs.
       ret (filter (\<lambda>s. sub_challenge_id s = cid \<and> own_sub tm acct s \<and> sub_is_correct s) subs))"

definition already_solved ::
    "ext \<Rightarrow> challenge \<Rightarrow> account_id \<Rightarrow> string option \<Rightarrow> partial_flag option \<Rightarrow>
     submission list \<Rightarrow> bool" where
  "already_solved X ch acct active matched_partial existing =
     (case matched_partial of
        Some pf \<Rightarrow>
          list_ex (\<lambda>s. is_match X (pf_validator pf) (sub_provided_flag s) active) existing
      | None \<Rightarrow>
          if ch_team_consensus ch then list_ex (\<lambda>s. sub_account_id s = acct) existing
          else existing \<noteq> [])"

section \<open>Counting solves\<close>

text \<open>
  \<open>team_solves\<close> is a \<open>HashMap\<close> from teams to the accounts that solved; the association list
  keeps the order of first insertion, and the loop over it only counts.
\<close>

fun push_solver ::
    "team_id \<Rightarrow> account_id \<Rightarrow> (team_id \<times> account_id list) list \<Rightarrow> (team_id \<times> account_id list) list" where
  "push_solver t a [] = [(t, [a])]"
| "push_solver t a ((t', as) # m) =
     (if t' = t then (t', as @ [a]) # m else (t', as) # push_solver t a m)"

fun group_team_solves ::
    "string \<Rightarrow> submission list \<Rightarrow> (team_id \<times> account_id list) list \<Rightarrow>
     (team_id \<times> account_id list) list" where
  "group_team_solves cid [] m = m"
| "group_team_solves cid (s # ss) m =
     group_team_solves cid ss
       (if sub_challenge_id s = cid \<and> sub_is_correct s then
          (case sub_team_id s of Some t \<Rightarrow> push_solver t (sub_account_id s) m | None \<Rightarrow> m)
        else m)"

definition team_reached :: "challenge \<Rightarrow> team \<Rightarrow> account_id list \<Rightarrow> bool" where
  "team_reached ch tm users =
     (if ch_team_consensus ch
      then team_member_ids tm \<noteq> [] \<and> list_all (\<lambda>m. m \<in> set users) (team_member_ids tm)
      else users \<noteq> [])"

fun count_full_solves ::
    "'s solve_service \<Rightarrow> challenge \<Rightarrow> (team_id \<times> account_id list) list \<Rightarrow> u32 \<Rightarrow>
     ('s, service_error, u32) act" where
  "count_full_solves svc ch [] n = ret n"
| "count_full_solves svc ch ((t, users) # rest) n =
     try_await (attempt (tr_find_by_id (sv_team_repo svc) t)) (\<lambda>found.
       count_full_solves svc ch rest
         (case found of
            Inr (Some tm) \<Rightarrow> if team_reached ch tm users then n + 1 else n
          | _ \<Rightarrow> n))"

definition solve_count ::
    "'s solve_service \<Rightarrow> challenge \<Rightarrow> string \<Rightarrow> team_id option \<Rightarrow> ('s, service_error, u32) act" where
  "solve_count svc ch cid tm =
     try_await (repo_call (sr_find_all (sv_submission_repo svc))) (\<lambda>all_subs.
       case tm of
         Some _ \<Rightarrow> count_full_solves svc ch (group_team_solves cid all_subs []) 0
       | None \<Rightarrow>
           ret (of_nat (card (set (map sub_account_id
                  (filter (\<lambda>s. sub_challenge_id s = cid \<and> sub_is_correct s) all_subs))))))"

definition reaches_consensus ::
    "'s solve_service \<Rightarrow> challenge \<Rightarrow> team_id option \<Rightarrow> account_id \<Rightarrow> submission list \<Rightarrow>
     ('s, service_error, bool) act" where
  "reaches_consensus svc ch tm acct existing =
     (case tm of
        None \<Rightarrow> ret True
      | Some t \<Rightarrow>
          if ch_team_consensus ch then
            try_await (attempt (tr_find_by_id (sv_team_repo svc) t)) (\<lambda>found.
              ret (case found of
                     Inr (Some team) \<Rightarrow>
                       list_all
                         (\<lambda>m. m = acct \<or> list_ex (\<lambda>s. sub_account_id s = m) existing)
                         (team_member_ids team)
                   | _ \<Rightarrow> False))
          else ret (existing = []))"

definition points_awarded ::
    "challenge \<Rightarrow> bool \<Rightarrow> partial_flag option \<Rightarrow> u32 \<Rightarrow> u32" where
  "points_awarded ch is_correct matched_partial next_solve_count =
     (if is_correct then
        let base_points =
              (case pts_mode (ch_points ch) of
                 PointValue \<Rightarrow> fixed_points ch
               | PointAttribution \<Rightarrow> fixed_points ch
               | DynamicDecay i m d \<Rightarrow> calculate_dynamic_points i m d (max next_solve_count 1))
        in case matched_partial of
             Some pf \<Rightarrow> f64_to_u32 (f64_round (f64_mul (f64_of_u32 base_points) (pf_weight pf)))
           | None \<Rightarrow> base_points
      else 0)"

section \<open>Submitting a flag\<close>

definition new_submission ::
    "string \<Rightarrow> i64 \<Rightarrow> string \<Rightarrow> team_id option \<Rightarrow> account_id \<Rightarrow> string \<Rightarrow> string \<Rightarrow> bool \<Rightarrow>
     u32 \<Rightarrow> submission" where
  "new_submission new_id now cid tm acct submitted ip is_correct points =
     \<lparr>sub_id = SubmissionId new_id, sub_challenge_id = cid, sub_team_id = tm,
      sub_account_id = acct, sub_points = points, sub_provided_flag = submitted,
      sub_is_correct = is_correct, sub_submitted_at = now, sub_submitted_ip = ip\<rparr>"

text \<open>The second half of the function: count, value, insert, and answer.\<close>

definition record_submission ::
    "'s solve_service \<Rightarrow> string \<Rightarrow> i64 \<Rightarrow> challenge \<Rightarrow> string \<Rightarrow> team_id option \<Rightarrow> account_id \<Rightarrow>
     string \<Rightarrow> string \<Rightarrow> partial_flag option \<Rightarrow> bool \<Rightarrow> submission list \<Rightarrow>
     ('s, service_error, submission) act" where
  "record_submission svc new_id now ch cid tm acct submitted ip matched_partial is_correct existing =
     try_await (solve_count svc ch cid tm) (\<lambda>n.
     try_await (reaches_consensus svc ch tm acct existing) (\<lambda>reached.
     let next_solve_count = (if reached then n + 1 else n);
         sub = new_submission new_id now cid tm acct submitted ip is_correct
                 (points_awarded ch is_correct matched_partial next_solve_count)
     in
     try_await (repo_call (sr_save (sv_submission_repo svc) sub)) (\<lambda>_.
     if \<not> is_correct then fail (InvalidRequest ''ctf-incorrect-flag'') else ret sub)))"

definition grade_and_record ::
    "ext \<Rightarrow> 's solve_service \<Rightarrow> challenge \<Rightarrow> string \<Rightarrow> i64 \<Rightarrow> string \<Rightarrow> team_id option \<Rightarrow>
     account_id \<Rightarrow> string \<Rightarrow> string \<Rightarrow> ('s, service_error, submission) act" where
  "grade_and_record X svc ch new_id now cid tm acct submitted ip =
     try_await (repo_call (ir_find_active_flag (sv_challenge_repo svc) cid tm acct)) (\<lambda>active.
     let matched_partial = find_matching_partial X (ch_flag ch) submitted active;
         is_correct = check_flag X ch submitted active matched_partial
     in
     try_await (existing_correct_subs svc cid tm acct) (\<lambda>existing.
     if is_correct \<and> already_solved X ch acct active matched_partial existing
     then fail (InvalidRequest ''ctf-already-solved'')
     else record_submission svc new_id now ch cid tm acct submitted ip
            matched_partial is_correct existing))"

definition submit_flag ::
    "ext \<Rightarrow> 's solve_service \<Rightarrow> string \<Rightarrow> i64 \<Rightarrow> string \<Rightarrow> team_id option \<Rightarrow> account_id \<Rightarrow>
     string \<Rightarrow> string \<Rightarrow> ('s, service_error, submission) act" where
  "submit_flag X svc new_id now cid tm acct submitted ip =
     try_await (repo_call (cr_find_by_id (sv_challenge_repo svc) cid)) (\<lambda>found.
     case found of
       None \<Rightarrow> fail (InvalidRequest ''ctf-challenge-not-found'')
     | Some ch \<Rightarrow>
         try_await (check_max_attempts svc ch cid tm acct) (\<lambda>_.
         try_await (check_requirements svc ch tm acct) (\<lambda>_.
         grade_and_record X svc ch new_id now cid tm acct submitted ip)))"

section \<open>What a submission does to a lawful store\<close>

text \<open>
  A submission belongs to the viewer who made it: the team when there is one, otherwise the
  account. \<open>attempts_of\<close> and \<open>solves_of\<close> are the rows the limit and the duplicate check see.
\<close>

definition belongs :: "team_id option \<Rightarrow> account_id \<Rightarrow> submission \<Rightarrow> bool" where
  "belongs tm acct x \<longleftrightarrow>
     (case tm of Some t \<Rightarrow> sub_team_id x = Some t | None \<Rightarrow> sub_account_id x = acct)"

definition attempts_of ::
    "string \<Rightarrow> team_id option \<Rightarrow> account_id \<Rightarrow> submission multiset \<Rightarrow> submission multiset" where
  "attempts_of cid tm acct M = filter_mset (\<lambda>x. sub_challenge_id x = cid \<and> belongs tm acct x) M"

definition solves_of ::
    "string \<Rightarrow> team_id option \<Rightarrow> account_id \<Rightarrow> submission multiset \<Rightarrow> submission multiset" where
  "solves_of cid tm acct M = filter_mset sub_is_correct (attempts_of cid tm acct M)"

definition attempt_count :: "attempt_count_mode \<Rightarrow> submission multiset \<Rightarrow> nat" where
  "attempt_count m M =
     (case m of
        All \<Rightarrow> size M
      | IncorrectOnly \<Rightarrow> size (filter_mset (\<lambda>s. \<not> sub_is_correct s) M)
      | Unique \<Rightarrow> card ((\<lambda>s. trim (sub_provided_flag s)) ` set_mset M)
      | UniqueIncorrect \<Rightarrow>
          card ((\<lambda>s. trim (sub_provided_flag s)) ` set_mset (filter_mset (\<lambda>s. \<not> sub_is_correct s) M)))"

lemma count_attempts_mset: "count_attempts m xs = attempt_count m (mset xs)"
  by (cases m)
     (simp_all add: count_attempts_def attempt_count_def flip: size_mset mset_filter
       set_mset_mset)

lemma attempt_count_add:
  "attempt_count m (add_mset x M) \<le> Suc (attempt_count m M)"
  by (cases m) (auto simp: attempt_count_def card_insert_if image_Un
      intro!: card_insert_le_m1)

text \<open>
  The checks of \<open>submit_flag\<close>, as predicates on the stored rows: the attempt limit, the
  prerequisites, and that a correct flag is not a second solve.
\<close>

definition under_limit :: "challenge \<Rightarrow> string \<Rightarrow> team_id option \<Rightarrow> account_id \<Rightarrow> submission multiset \<Rightarrow> bool" where
  "under_limit ch cid tm acct M \<longleftrightarrow>
     (\<forall>cfg. ch_max_attempts ch = Some cfg \<longrightarrow>
        (of_nat (attempt_count (ma_mode cfg) (attempts_of cid tm acct M)) :: u32) < ma_limit cfg)"

definition requirements_solved :: "challenge \<Rightarrow> team_id option \<Rightarrow> account_id \<Rightarrow> submission multiset \<Rightarrow> bool" where
  "requirements_solved ch tm acct M \<longleftrightarrow>
     (\<forall>i. Solve i \<in> set (ch_requirements ch) \<longrightarrow> solves_of i tm acct M \<noteq> {#})"

definition grade :: "ext \<Rightarrow> challenge \<Rightarrow> string \<Rightarrow> string option \<Rightarrow> bool" where
  "grade X ch f active = check_flag X ch f active (find_matching_partial X (ch_flag ch) f active)"

definition not_duplicate ::
    "ext \<Rightarrow> challenge \<Rightarrow> string \<Rightarrow> team_id option \<Rightarrow> account_id \<Rightarrow> string \<Rightarrow> string option \<Rightarrow>
     submission multiset \<Rightarrow> bool" where
  "not_duplicate X ch cid tm acct f active M \<longleftrightarrow>
     (grade X ch f active \<longrightarrow>
        (\<exists>ex. mset ex = solves_of cid tm acct M \<and>
           \<not> already_solved X ch acct active (find_matching_partial X (ch_flag ch) f active) ex))"

definition admits ::
    "ext \<Rightarrow> challenge \<Rightarrow> string \<Rightarrow> team_id option \<Rightarrow> account_id \<Rightarrow> string \<Rightarrow> string option \<Rightarrow>
     submission multiset \<Rightarrow> bool" where
  "admits X ch cid tm acct f active M \<longleftrightarrow>
     under_limit ch cid tm acct M \<and> requirements_solved ch tm acct M \<and>
     not_duplicate X ch cid tm acct f active M"

text \<open>The row a graded submission adds, and the answer its submitter gets.\<close>

definition graded ::
    "ext \<Rightarrow> challenge \<Rightarrow> string \<Rightarrow> i64 \<Rightarrow> string \<Rightarrow> team_id option \<Rightarrow> account_id \<Rightarrow> string \<Rightarrow>
     string \<Rightarrow> string option \<Rightarrow> u32 \<Rightarrow> submission" where
  "graded X ch nid now cid tm acct f ip active n =
     new_submission nid now cid tm acct f ip (grade X ch f active)
       (points_awarded ch (grade X ch f active)
          (find_matching_partial X (ch_flag ch) f active) n)"

definition answer :: "submission \<Rightarrow> service_error + submission" where
  "answer x =
     (if sub_is_correct x then Inr x else Inl (InvalidRequest ''ctf-incorrect-flag''))"

lemma graded_simps [simp]:
  "sub_id (graded X ch nid now cid tm acct f ip active n) = SubmissionId nid"
  "sub_challenge_id (graded X ch nid now cid tm acct f ip active n) = cid"
  "sub_team_id (graded X ch nid now cid tm acct f ip active n) = tm"
  "sub_account_id (graded X ch nid now cid tm acct f ip active n) = acct"
  "sub_provided_flag (graded X ch nid now cid tm acct f ip active n) = f"
  "sub_is_correct (graded X ch nid now cid tm acct f ip active n) = grade X ch f active"
  "sub_submitted_at (graded X ch nid now cid tm acct f ip active n) = now"
  by (simp_all add: graded_def new_submission_def)

lemma count_full_no_error: "count_full_solves svc ch m n s = (Inl e, s') \<Longrightarrow> False"
  by (induction m arbitrary: n s) (auto simp: attempt_eq elim!: try_await_cases)

lemma consensus_no_error: "reaches_consensus svc ch tm acct ex s = (Inl e, s') \<Longrightarrow> False"
  by (auto simp: reaches_consensus_def attempt_eq split: option.splits if_splits elim!: try_await_cases)

text \<open>
  The reads a submission makes leave \<open>v\<close> alone when those of the repositories do, and the
  whole submission does when the insert does too.
\<close>

locale solve_reads =
  read_only_lookups "sv_challenge_repo svc" "sv_team_repo svc" v
  for svc :: "'s solve_service" and v :: "'s \<Rightarrow> 'v" +
  assumes subs_all_keeps: "keeps v (sr_find_all (sv_submission_repo svc))"
    and subs_by_team_keeps: "keeps v (sr_find_by_team (sv_submission_repo svc) t)"
begin

lemma candidate_keeps [frame]: "keeps v (candidate_subs svc tm)"
  unfolding candidate_subs_def
  by (intro keeps_repo_call keeps_case_option subs_all_keeps subs_by_team_keeps)

lemma max_attempts_keeps [frame]: "keeps v (check_max_attempts svc ch cid tm acct)"
  unfolding check_max_attempts_def Let_def
  by (intro keeps_case_option keeps_ret keeps_try_await candidate_keeps keeps_if keeps_fail)

lemma requirements_keeps [frame]: "keeps v (check_requirements svc ch tm acct)"
  unfolding check_requirements_def Let_def
  by (intro keeps_if keeps_ret keeps_try_await candidate_keeps keeps_fail)

lemma existing_keeps [frame]: "keeps v (existing_correct_subs svc cid tm acct)"
  unfolding existing_correct_subs_def by (intro keeps_try_await candidate_keeps keeps_ret)

lemma count_full_keeps [frame]: "keeps v (count_full_solves svc ch m n)"
  by (induction m arbitrary: n)
     (auto intro!: keeps_try_await keeps_attempt team_find_keeps)

lemma solve_count_keeps [frame]: "keeps v (solve_count svc ch cid tm)"
  unfolding solve_count_def
  by (intro keeps_try_await keeps_repo_call subs_all_keeps keeps_case_option keeps_ret count_full_keeps)

lemma consensus_keeps [frame]: "keeps v (reaches_consensus svc ch tm acct ex)"
  unfolding reaches_consensus_def
  by (intro keeps_case_option keeps_ret keeps_if keeps_try_await keeps_attempt team_find_keeps)

end

locale submit_frame = solve_reads svc v for svc :: "'s solve_service" and v :: "'s \<Rightarrow> 'v" +
  assumes save_keeps: "keeps v (sr_save (sv_submission_repo svc) x)"
begin

lemma record_keeps: "keeps v (record_submission svc nid now ch cid tm acct f ip mp ok ex)"
  unfolding record_submission_def Let_def
  by (intro keeps_try_await solve_count_keeps consensus_keeps keeps_repo_call save_keeps keeps_if
      keeps_fail keeps_ret)

lemma submit_flag_keeps: "keeps v (submit_flag X svc nid now cid tm acct f ip)"
  unfolding submit_flag_def grade_and_record_def Let_def
  by (intro keeps_try_await keeps_repo_call challenge_find_keeps keeps_case_option keeps_fail
      max_attempts_keeps requirements_keeps active_flag_keeps existing_keeps keeps_if record_keeps)

end

locale solve_client =
  submission_store "sv_submission_repo svc" subs +
  read_only_lookups "sv_challenge_repo svc" "sv_team_repo svc" subs
  for svc :: "'s solve_service" and subs :: "'s \<Rightarrow> submission multiset"

sublocale solve_client \<subseteq> solve_reads svc subs
  by unfold_locales (rule find_all_keeps, rule find_by_team_keeps)

context solve_client
begin

lemma candidate_own:
  assumes "candidate_subs svc tm s = (Inr xs, s')"
  shows "mset (filter (\<lambda>x. P x \<and> own_sub tm acct x) xs) =
    filter_mset (\<lambda>x. P x \<and> belongs tm acct x) (subs s)"
proof (cases tm)
  case None
  with assms have "mset xs = subs s" by (auto simp: candidate_subs_def repo_call_Inr find_all_ok)
  with None show ?thesis by (simp add: own_sub_def belongs_def)
next
  case (Some t)
  with assms have "mset xs = filter_mset (\<lambda>x. sub_team_id x = Some t) (subs s)"
    by (auto simp: candidate_subs_def repo_call_Inr find_by_team_ok)
  with Some show ?thesis
    by (simp add: own_sub_def belongs_def filter_filter_mset conj_commute)
qed

lemma max_attempts_ok:
  assumes "check_max_attempts svc ch cid tm acct s = (Inr u, s')" "ch_max_attempts ch = Some cfg"
  shows "(of_nat (attempt_count (ma_mode cfg) (attempts_of cid tm acct (subs s))) :: u32) < ma_limit cfg"
proof -
  obtain xs s1 where c: "candidate_subs svc tm s = (Inr xs, s1)"
    and n: "\<not> ma_limit cfg \<le> (of_nat (count_attempts (ma_mode cfg)
          (filter (\<lambda>x. sub_challenge_id x = cid \<and> own_sub tm acct x) xs)) :: u32)"
    using assms
    by (auto simp: check_max_attempts_def Let_def split: if_splits elim!: try_await_ok_cases)
  from n show ?thesis
    unfolding count_attempts_mset candidate_own [OF c] attempts_of_def by simp
qed

lemma requirements_ok:
  assumes "check_requirements svc ch tm acct s = (Inr u, s')" "Solve i \<in> set (ch_requirements ch)"
  shows "solves_of i tm acct (subs s) \<noteq> {#}"
proof -
  from assms(2) have ne: "ch_requirements ch \<noteq> []" by auto
  obtain xs s1 where c: "candidate_subs svc tm s = (Inr xs, s1)"
    and met: "list_all (requirement_in (set (map sub_challenge_id
          (filter (\<lambda>x. sub_is_correct x \<and> own_sub tm acct x) xs)))) (ch_requirements ch)"
    using assms ne
    by (auto simp: check_requirements_def Let_def split: if_splits elim!: try_await_ok_cases)
  from met assms(2) obtain x
    where x: "x \<in> set (filter (\<lambda>x. sub_is_correct x \<and> own_sub tm acct x) xs)" "sub_challenge_id x = i"
    by (fastforce simp: list_all_iff requirement_in_def)
  then have "x \<in># filter_mset (\<lambda>x. sub_is_correct x \<and> belongs tm acct x) (subs s)"
    unfolding candidate_own [OF c, symmetric] by simp
  with x(2) have "x \<in># solves_of i tm acct (subs s)"
    by (simp add: solves_of_def attempts_of_def)
  then show ?thesis by auto
qed

lemma existing_ok:
  assumes "existing_correct_subs svc cid tm acct s = (Inr ex, s')"
  shows "mset ex = solves_of cid tm acct (subs s)"
proof -
  obtain xs s1 where c: "candidate_subs svc tm s = (Inr xs, s1)"
    and ex: "ex = filter (\<lambda>x. sub_challenge_id x = cid \<and> own_sub tm acct x \<and> sub_is_correct x) xs"
    using assms by (auto simp: existing_correct_subs_def elim!: try_await_ok_cases)
  have "ex = filter (\<lambda>x. (sub_challenge_id x = cid \<and> sub_is_correct x) \<and> own_sub tm acct x) xs"
    unfolding ex by (rule filter_cong) auto
  then have "mset ex = filter_mset (\<lambda>x. (sub_challenge_id x = cid \<and> sub_is_correct x) \<and> belongs tm acct x) (subs s)"
    by (simp only: candidate_own [OF c])
  then show ?thesis
    by (simp add: solves_of_def attempts_of_def filter_filter_mset conj_ac)
qed

text \<open>Recording: one row is added, or the store is as it was and an error comes back.\<close>

lemma record_cases:
  assumes "record_submission svc nid now ch cid tm acct f ip mp good ex s = (r, s')"
  obtains (rejected) e where "r = Inl (Repo e)" "subs s' = subs s"
  | (recorded) x n where "subs s' = add_mset x (subs s)"
      "r = (if good then Inr x else Inl (InvalidRequest ''ctf-incorrect-flag''))"
      "x = new_submission nid now cid tm acct f ip good (points_awarded ch good mp n)"
  using assms unfolding record_submission_def
proof (cases rule: try_await_cases)
  case (err e)
  from err(1) have "\<exists>e'. e = Repo e'"
    by (auto simp: solve_count_def repo_call_Inl elim!: try_await_cases
        split: option.splits dest: count_full_no_error)
  with err rejected keepsD [OF solve_count_keeps err(1)] show ?thesis by auto
next
  case (ok n s1)
  note v1 = keepsD [OF solve_count_keeps ok(1)]
  from ok(2) show ?thesis
  proof (cases rule: try_await_cases)
    case (err e)
    then show ?thesis by (auto dest: consensus_no_error)
  next
    case (ok reached s2)
    have v2: "subs s2 = subs s" using keepsD [OF consensus_keeps ok(1)] v1 by simp
    from ok(2) [unfolded Let_def] show ?thesis
    proof (cases rule: try_await_cases)
      case (err e)
      then obtain e' where "e = Repo e'" "subs s' = subs s"
        using v2 by (auto simp: repo_call_Inl dest: save_err)
      with err rejected show ?thesis by simp
    next
      case (ok u s3)
      then have "s3 = s'" by (auto split: if_splits)
      with ok v2 show ?thesis
        by (intro recorded [OF _ _ refl, of "if reached then n + 1 else n"])
           (auto simp: repo_call_Inr dest!: save_ok split: if_splits)
    qed
  qed
qed

text \<open>The tail of \<open>submit_flag\<close>, once the limit and the prerequisites are passed.\<close>

lemma grade_and_record_cases:
  assumes "grade_and_record X svc ch nid now cid tm acct f ip s = (r, s')"
  obtains (rejected') e where "r = Inl e" "subs s' = subs s"
  | (recorded') active n where "not_duplicate X ch cid tm acct f active (subs s)"
      "subs s' = add_mset (graded X ch nid now cid tm acct f ip active n) (subs s)"
      "r = answer (graded X ch nid now cid tm acct f ip active n)"
  using assms unfolding grade_and_record_def Let_def
proof (cases rule: try_await_cases)
  case (err e)
  with keepsD [OF keeps_repo_call [OF active_flag_keeps]] rejected' show ?thesis by blast
next
  case (ok active s1)
  note v1 = keepsD [OF keeps_repo_call [OF active_flag_keeps] ok(1)]
  let ?mp = "find_matching_partial X (ch_flag ch) f active"
  let ?good = "check_flag X ch f active ?mp"
  from ok(2) show ?thesis
  proof (cases rule: try_await_cases)
    case (err e)
    with keepsD [OF existing_keeps err(1)] rejected' v1 show ?thesis by simp
  next
    case (ok ex s2)
    have v2: "subs s2 = subs s" using keepsD [OF existing_keeps ok(1)] v1 by simp
    have ex: "mset ex = solves_of cid tm acct (subs s)" using existing_ok [OF ok(1)] v1 by simp
    show ?thesis
    proof (cases "?good \<and> already_solved X ch acct active ?mp ex")
      case True
      with ok(2) v2 rejected' show ?thesis by auto
    next
      case False
      then have dup: "not_duplicate X ch cid tm acct f active (subs s)"
        using ex by (auto simp: not_duplicate_def grade_def)
      from ok(2) False have "record_submission svc nid now ch cid tm acct f ip ?mp ?good ex s2 = (r, s')"
        by (simp split: if_splits)
      then show ?thesis
      proof (cases rule: record_cases)
        case (rejected e)
        with rejected' v2 show ?thesis by auto
      next
        case (recorded x n)
        with recorded' [OF dup, of n] v2 show ?thesis
          by (simp add: graded_def answer_def new_submission_def grade_def)
      qed
    qed
  qed
qed

text \<open>
  What \<open>submit_flag\<close> does: an error without a trace, or one new row that satisfied every
  check against the rows that were there when it started.
\<close>

lemma submit_flag_cases:
  assumes "submit_flag X svc nid now cid tm acct f ip s = (r, s')"
  obtains (rejected) e where "r = Inl e" "subs s' = subs s"
  | (recorded) s1 ch active n where
      "cr_find_by_id (sv_challenge_repo svc) cid s = (Inr (Some ch), s1)"
      "admits X ch cid tm acct f active (subs s)"
      "subs s' = add_mset (graded X ch nid now cid tm acct f ip active n) (subs s)"
      "r = answer (graded X ch nid now cid tm acct f ip active n)"
  using assms unfolding submit_flag_def
proof (cases rule: try_await_cases)
  case (err e)
  with keepsD [OF keeps_repo_call [OF challenge_find_keeps]] rejected show ?thesis by blast
next
  case (ok found s1)
  note v1 = keepsD [OF keeps_repo_call [OF challenge_find_keeps] ok(1)]
  show ?thesis
  proof (cases found)
    case None
    with ok v1 rejected show ?thesis by auto
  next
    case (Some ch)
    have found: "cr_find_by_id (sv_challenge_repo svc) cid s = (Inr (Some ch), s1)"
      using ok(1) Some by (simp add: repo_call_Inr)
    from ok(2) [unfolded Some option.case] show ?thesis
    proof (cases rule: try_await_cases)
      case (err e)
      with keepsD [OF max_attempts_keeps err(1)] rejected v1 show ?thesis by simp
    next
      case (ok u s2)
      have v2: "subs s2 = subs s" using keepsD [OF max_attempts_keeps ok(1)] v1 by simp
      have lim: "under_limit ch cid tm acct (subs s)"
        using max_attempts_ok [OF ok(1)] v1 by (simp add: under_limit_def)
      from ok(2) show ?thesis
      proof (cases rule: try_await_cases)
        case (err e)
        with keepsD [OF requirements_keeps err(1)] rejected v2 show ?thesis by simp
      next
        case (ok u s3)
        have v3: "subs s3 = subs s" using keepsD [OF requirements_keeps ok(1)] v2 by simp
        have req: "requirements_solved ch tm acct (subs s)"
          using requirements_ok [OF ok(1)] v2 by (simp add: requirements_solved_def)
        from ok(2) show ?thesis
        proof (cases rule: grade_and_record_cases)
          case (rejected' e)
          then show ?thesis using rejected v3 by simp
        next
          case (recorded' active n)
          then show ?thesis
            using recorded [OF found] lim req v3 by (simp add: admits_def)
        qed
      qed
    qed
  qed
qed

end

end
