(* ===== verification/Scoreboard.thy ===== *)
theory Scoreboard
  imports Solve
begin

text \<open>
  The scoreboard, \<open>src/src/libs/services/scoreboard.rs\<close>: the solvers per challenge, a team's
  score from solves, the hint deduction, \<open>ScoreboardService::get_scoreboard\<close> with its
  freeze, bracket filter, two orders and ranks, and \<open>export_ctftime\<close>. The bodies of the
  code's loops are definitions of their own; \<open>HashMap\<close>s are maps, their iteration order is
  never observed. The second half gives a score as one sum and derives from it what the
  board depends on.
\<close>

section \<open>Solvers and solve scores\<close>

definition solver_id :: "submission \<Rightarrow> string" where
  "solver_id s = (case sub_team_id s of Some t \<Rightarrow> team_str t | None \<Rightarrow> acc_str (sub_account_id s))"

definition add_solver :: "submission \<Rightarrow> (string \<rightharpoonup> string set) \<Rightarrow> (string \<rightharpoonup> string set)" where
  "add_solver sub solvers =
     (if sub_is_correct sub then
        solvers(sub_challenge_id sub \<mapsto>
          insert (solver_id sub)
            (case solvers (sub_challenge_id sub) of Some A \<Rightarrow> A | None \<Rightarrow> {}))
      else solvers)"

definition build_challenge_solvers :: "submission list \<Rightarrow> (string \<rightharpoonup> string set)" where
  "build_challenge_solvers submissions = fold add_solver submissions Map.empty"

record team_solve_score =
  tss_points :: i64
  tss_last_solve_time :: "i64 option"
  tss_solved_ids :: "string list"

fun max_time :: "i64 list \<Rightarrow> i64 option" where
  "max_time [] = None"
| "max_time (t # ts) = Some (case max_time ts of None \<Rightarrow> t | Some u \<Rightarrow> max t u)"

definition later_solve :: "i64 option \<Rightarrow> submission list \<Rightarrow> i64 option" where
  "later_solve latest subs =
     (case max_time (map sub_submitted_at subs) of
        Some sub_time \<Rightarrow>
          (case latest of None \<Rightarrow> Some sub_time | Some t \<Rightarrow> Some (max t sub_time))
      | None \<Rightarrow> latest)"

definition scored_by :: "challenge \<Rightarrow> team \<Rightarrow> submission list \<Rightarrow> bool" where
  "scored_by ch tm subs =
     (if ch_team_consensus ch
      then team_member_ids tm \<noteq> [] \<and>
           list_all (\<lambda>m. list_ex (\<lambda>s. sub_account_id s = m) subs) (team_member_ids tm)
      else subs \<noteq> [])"

definition challenge_value :: "challenge \<Rightarrow> u32 \<Rightarrow> u32" where
  "challenge_value ch solves =
     (case pts_mode (ch_points ch) of
        PointValue \<Rightarrow> fixed_points ch
      | PointAttribution \<Rightarrow> fixed_points ch
      | DynamicDecay i m d \<Rightarrow> calculate_dynamic_points i m d solves)"

definition part_points :: "u32 \<Rightarrow> partial_flag \<Rightarrow> i64" where
  "part_points decayed pf = f64_to_i64 (f64_round (f64_mul (f64_of_u32 decayed) (pf_weight pf)))"

definition part_subs :: "ext \<Rightarrow> challenge \<Rightarrow> submission list \<Rightarrow> partial_flag \<Rightarrow> submission list" where
  "part_subs X ch team_subs pf =
     filter (\<lambda>s. sub_challenge_id s = ch_id ch \<and> sub_is_correct s \<and>
                 is_match X (pf_validator pf) (sub_provided_flag s) (Some (sub_provided_flag s)))
       team_subs"

definition challenge_subs :: "challenge \<Rightarrow> submission list \<Rightarrow> submission list" where
  "challenge_subs ch team_subs =
     filter (\<lambda>s. sub_challenge_id s = ch_id ch \<and> sub_is_correct s) team_subs"

text \<open>One part of a multi-flag: the accumulator is points, last solve time, scored.\<close>

fun score_part ::
    "ext \<Rightarrow> team \<Rightarrow> challenge \<Rightarrow> submission list \<Rightarrow> u32 \<Rightarrow> partial_flag \<Rightarrow>
     i64 \<times> i64 option \<times> bool \<Rightarrow> i64 \<times> i64 option \<times> bool" where
  "score_part X tm ch team_subs decayed pf (points, latest, scored) =
     (let pf_subs = part_subs X ch team_subs pf
      in if scored_by ch tm pf_subs
         then (wrap_i64 (points + part_points decayed pf), later_solve latest pf_subs, True)
         else (points, latest, scored))"

definition solve_count_of :: "(string \<rightharpoonup> string set) \<Rightarrow> challenge \<Rightarrow> u32" where
  "solve_count_of solvers ch =
     of_nat (case solvers (ch_id ch) of Some A \<Rightarrow> card A | None \<Rightarrow> 0)"

definition score_challenge ::
    "ext \<Rightarrow> team \<Rightarrow> submission list \<Rightarrow> (string \<rightharpoonup> string set) \<Rightarrow> challenge \<Rightarrow>
     team_solve_score \<Rightarrow> team_solve_score" where
  "score_challenge X tm team_subs solvers ch acc =
     (let decayed = challenge_value ch (solve_count_of solvers ch);
          (points, latest, scored) =
            (case ch_flag ch of
               Multi partials \<Rightarrow>
                 fold (score_part X tm ch team_subs decayed) partials
                   (tss_points acc, tss_last_solve_time acc, False)
             | _ \<Rightarrow>
                 (let c_subs = challenge_subs ch team_subs
                  in if scored_by ch tm c_subs
                     then (wrap_i64 (tss_points acc + uint decayed),
                           later_solve (tss_last_solve_time acc) c_subs, True)
                     else (tss_points acc, tss_last_solve_time acc, False)))
      in \<lparr>tss_points = points, tss_last_solve_time = latest,
          tss_solved_ids = (if scored then tss_solved_ids acc @ [ch_id ch] else tss_solved_ids acc)\<rparr>)"

definition compute_team_solve_score ::
    "ext \<Rightarrow> team \<Rightarrow> challenge list \<Rightarrow> submission list \<Rightarrow> (string \<rightharpoonup> string set) \<Rightarrow>
     team_solve_score" where
  "compute_team_solve_score X tm challenges submissions challenge_solvers =
     (let team_subs = filter (\<lambda>s. sub_team_id s = Some (team_id tm)) submissions
      in fold (score_challenge X tm team_subs challenge_solvers) challenges
           \<lparr>tss_points = 0, tss_last_solve_time = None, tss_solved_ids = []\<rparr>)"

section \<open>Hint deduction\<close>

definition total_hint_cost ::
    "hint_unlock list \<Rightarrow> team_id option \<Rightarrow> account_id option \<Rightarrow> i64" where
  "total_hint_cost unlocks tm acct =
     fold (\<lambda>u total. wrap_i64 (total + uint (hu_cost u)))
       (filter (\<lambda>u. case tm of
                      Some t \<Rightarrow> hu_team_id u = Some t
                    | None \<Rightarrow> hu_team_id u = None \<and> Some (hu_account_id u) = acct) unlocks) 0"

definition apply_hint_deduction :: "i64 \<Rightarrow> i64 \<Rightarrow> hint_deduction_mode \<Rightarrow> i64" where
  "apply_hint_deduction points spent mode =
     (case mode of
        NoDeduction \<Rightarrow> points
      | AllowNegative \<Rightarrow> wrap_i64 (points - spent)
      | FloorZero \<Rightarrow> max (wrap_i64 (points - spent)) 0
      | Gate \<Rightarrow> max (wrap_i64 (points - spent)) 0)"

section \<open>The board\<close>

record 's scoreboard_service =
  sb_team_repo :: "'s team_repo"
  sb_challenge_repo :: "'s challenge_repo"
  sb_submission_repo :: "'s submission_repo"
  sb_sort_by_accuracy :: bool
  sb_freeze_time :: "i64 option"
  sb_hint_unlock_repo :: "'s hint_unlock_repo"
  sb_hint_deduction_mode :: hint_deduction_mode

definition before_freeze :: "i64 option \<Rightarrow> ('a \<Rightarrow> i64) \<Rightarrow> 'a list \<Rightarrow> 'a list" where
  "before_freeze freeze time xs =
     (case freeze of Some f \<Rightarrow> filter (\<lambda>x. time x < f) xs | None \<Rightarrow> xs)"

definition in_bracket :: "string option \<Rightarrow> team list \<Rightarrow> team list" where
  "in_bracket filter_bracket teams =
     (case filter_bracket of Some b \<Rightarrow> filter (\<lambda>tm. team_bracket tm = b) teams | None \<Rightarrow> teams)"

definition get_accuracy :: "submission list \<Rightarrow> team_id \<Rightarrow> f64" where
  "get_accuracy submissions t =
     (let subs = filter (\<lambda>s. sub_team_id s = Some t) submissions
      in if subs = [] then Fin 1
         else f64_div (f64_of_nat (length (filter sub_is_correct subs))) (f64_of_nat (length subs)))"

definition by_accuracy :: "submission list \<Rightarrow> scoreboard_entry \<Rightarrow> scoreboard_entry \<Rightarrow> ordering" where
  "by_accuracy submissions a b =
     then_with (cmp (en_points b) (en_points a))
       (case f64_partial_cmp (get_accuracy submissions (en_team_id b))
               (get_accuracy submissions (en_team_id a)) of
          Some c \<Rightarrow> c | None \<Rightarrow> Equal)"

definition by_last_solve :: "scoreboard_entry \<Rightarrow> scoreboard_entry \<Rightarrow> ordering" where
  "by_last_solve a b =
     then_with (cmp (en_points b) (en_points a))
       (case en_last_solve_time a of
          Some t1 \<Rightarrow> (case en_last_solve_time b of Some t2 \<Rightarrow> cmp t1 t2 | None \<Rightarrow> Less)
        | None \<Rightarrow> (case en_last_solve_time b of Some _ \<Rightarrow> Greater | None \<Rightarrow> Equal))"

definition board_entry ::
    "ext \<Rightarrow> hint_deduction_mode \<Rightarrow> challenge list \<Rightarrow> submission list \<Rightarrow> hint_unlock list \<Rightarrow>
     team \<Rightarrow> scoreboard_entry" where
  "board_entry X mode challenges submissions unlocks tm =
     (let score = compute_team_solve_score X tm challenges submissions
                    (build_challenge_solvers submissions);
          spent = total_hint_cost unlocks (Some (team_id tm)) None
      in \<lparr>en_team_id = team_id tm, en_team_name = team_name_str (team_name tm),
          en_points = apply_hint_deduction (tss_points score) spent mode,
          en_last_solve_time = tss_last_solve_time score,
          en_solves = tss_solved_ids score, en_rank = 0\<rparr>)"

fun assign_ranks :: "nat \<Rightarrow> scoreboard_entry list \<Rightarrow> scoreboard_entry list" where
  "assign_ranks i [] = []"
| "assign_ranks i (e # es) = e\<lparr>en_rank := of_nat (i + 1)\<rparr> # assign_ranks (i + 1) es"

definition get_scoreboard ::
    "ext \<Rightarrow> 's scoreboard_service \<Rightarrow> string option \<Rightarrow>
     ('s, service_error, scoreboard_entry list) act" where
  "get_scoreboard X svc filter_bracket =
     try_await (repo_call (tr_find_all (sb_team_repo svc))) (\<lambda>all_teams.
     let teams = in_bracket filter_bracket all_teams in
     try_await (repo_call (sr_find_all (sb_submission_repo svc))) (\<lambda>all_subs.
     let submissions = before_freeze (sb_freeze_time svc) sub_submitted_at all_subs in
     try_await (repo_call (cr_find_all (sb_challenge_repo svc))) (\<lambda>challenges.
     try_await (repo_call (hr_find_all (sb_hint_unlock_repo svc))) (\<lambda>all_unlocks.
     let hint_unlocks = before_freeze (sb_freeze_time svc) hu_unlocked_at all_unlocks;
         entries = map (board_entry X (sb_hint_deduction_mode svc) challenges submissions hint_unlocks) teams;
         ranked = (if sb_sort_by_accuracy svc then sort_by (by_accuracy submissions) entries
                   else sort_by by_last_solve entries)
     in ret (assign_ranks 0 ranked)))))"

section \<open>The CTFtime export\<close>

definition add_task_stats ::
    "challenge list \<Rightarrow> submission \<Rightarrow> (string \<rightharpoonup> ctftime_task_stats) \<Rightarrow> (string \<rightharpoonup> ctftime_task_stats)" where
  "add_task_stats challenges solve stats =
     (case map_of (rev (map (\<lambda>c. (ch_id c, c)) challenges)) (sub_challenge_id solve) of
        Some ch \<Rightarrow>
          stats(ch_title ch \<mapsto> \<lparr>ts_points = sub_points solve, ts_time = sub_submitted_at solve\<rparr>)
      | None \<Rightarrow> stats)"

definition standings_entry ::
    "challenge list \<Rightarrow> submission list \<Rightarrow> scoreboard_entry \<Rightarrow> ctftime_standings_entry" where
  "standings_entry challenges submissions entry =
     (let team_solves =
            filter (\<lambda>s. sub_team_id s = Some (en_team_id entry) \<and> sub_is_correct s) submissions
      in \<lparr>st_pos = Some (en_rank entry), st_team = en_team_name entry,
          st_score = f64_of_i64 (en_points entry),
          st_task_stats = fold (add_task_stats challenges) team_solves Map.empty\<rparr>)"

definition export_ctftime ::
    "ext \<Rightarrow> 's scoreboard_service \<Rightarrow> ('s, service_error, ctftime_scoreboard_export) act" where
  "export_ctftime X svc =
     try_await (get_scoreboard X svc None) (\<lambda>standings.
     try_await (repo_call (sr_find_all (sb_submission_repo svc))) (\<lambda>submissions.
     try_await (repo_call (cr_find_all (sb_challenge_repo svc))) (\<lambda>challenges.
     ret \<lparr>ex_tasks = map ch_title challenges,
          ex_standings = map (standings_entry challenges submissions) standings\<rparr>)))"

section \<open>A score as one sum\<close>

text \<open>
  What a team gets for one challenge, whether it scored on it, and the submissions that
  count for its solve time; the loop over the challenges adds them up.
\<close>

definition scored_parts :: "ext \<Rightarrow> team \<Rightarrow> challenge \<Rightarrow> submission list \<Rightarrow> partial_flag list \<Rightarrow> partial_flag list" where
  "scored_parts X tm ch team_subs ps = filter (\<lambda>p. scored_by ch tm (part_subs X ch team_subs p)) ps"

definition challenge_gain :: "ext \<Rightarrow> team \<Rightarrow> submission list \<Rightarrow> u32 \<Rightarrow> challenge \<Rightarrow> int" where
  "challenge_gain X tm team_subs value ch =
     (case ch_flag ch of
        Multi ps \<Rightarrow> (\<Sum>p\<leftarrow>scored_parts X tm ch team_subs ps. part_points value p)
      | _ \<Rightarrow> if scored_by ch tm (challenge_subs ch team_subs) then uint value else 0)"

definition challenge_scored :: "ext \<Rightarrow> team \<Rightarrow> submission list \<Rightarrow> challenge \<Rightarrow> bool" where
  "challenge_scored X tm team_subs ch \<longleftrightarrow>
     (case ch_flag ch of
        Multi ps \<Rightarrow> scored_parts X tm ch team_subs ps \<noteq> []
      | _ \<Rightarrow> scored_by ch tm (challenge_subs ch team_subs))"

definition counted_subs :: "ext \<Rightarrow> team \<Rightarrow> submission list \<Rightarrow> challenge \<Rightarrow> submission list" where
  "counted_subs X tm team_subs ch =
     (case ch_flag ch of
        Multi ps \<Rightarrow> concat (map (part_subs X ch team_subs) (scored_parts X tm ch team_subs ps))
      | _ \<Rightarrow> if scored_by ch tm (challenge_subs ch team_subs) then challenge_subs ch team_subs else [])"

lemma max_time_append:
  "max_time (xs @ ys) =
     (case max_time xs of
        None \<Rightarrow> max_time ys
      | Some t \<Rightarrow> (case max_time ys of None \<Rightarrow> Some t | Some u \<Rightarrow> Some (max t u)))"
  by (induction xs) (auto split: option.split simp: max.assoc)

lemma max_time_set: "max_time xs = (if set xs = {} then None else Some (Max (set xs)))"
proof (induction xs)
  case (Cons t ts)
  then show ?case by (cases "ts = []") auto
qed simp

lemma later_solve_append: "later_solve t (xs @ ys) = later_solve (later_solve t xs) ys"
  by (simp add: later_solve_def max_time_append max.assoc split: option.split)

lemma later_solve_Nil [simp]: "later_solve t [] = t"
  by (simp add: later_solve_def)

lemma later_solve_None: "later_solve None xs = max_time (map sub_submitted_at xs)"
  by (simp add: later_solve_def split: option.split)

lemma fold_score_part:
  assumes "i64_range points"
  shows "fold (score_part X tm ch tsubs v) ps (points, t, scored) =
    (wrap_i64 (points + (\<Sum>p\<leftarrow>scored_parts X tm ch tsubs ps. part_points v p)),
     later_solve t (concat (map (part_subs X ch tsubs) (scored_parts X tm ch tsubs ps))),
     scored \<or> scored_parts X tm ch tsubs ps \<noteq> [])"
  using assms
  by (induction ps arbitrary: points t scored)
     (simp_all add: scored_parts_def later_solve_append Let_def add.assoc)

lemma score_challenge:
  assumes "i64_range (tss_points acc)"
  shows "score_challenge X tm tsubs solvers ch acc =
    \<lparr>tss_points = wrap_i64 (tss_points acc +
       challenge_gain X tm tsubs (challenge_value ch (solve_count_of solvers ch)) ch),
     tss_last_solve_time = later_solve (tss_last_solve_time acc) (counted_subs X tm tsubs ch),
     tss_solved_ids = tss_solved_ids acc @ (if challenge_scored X tm tsubs ch then [ch_id ch] else [])\<rparr>"
  using assms
  by (cases "ch_flag ch")
     (simp_all add: score_challenge_def Let_def fold_score_part challenge_gain_def
       challenge_scored_def counted_subs_def)

lemma fold_score_challenge:
  assumes "i64_range (tss_points acc)"
  shows "fold (score_challenge X tm tsubs solvers) chs acc =
    \<lparr>tss_points = wrap_i64 (tss_points acc + (\<Sum>ch\<leftarrow>chs.
       challenge_gain X tm tsubs (challenge_value ch (solve_count_of solvers ch)) ch)),
     tss_last_solve_time = later_solve (tss_last_solve_time acc) (concat (map (counted_subs X tm tsubs) chs)),
     tss_solved_ids = tss_solved_ids acc @ map ch_id (filter (challenge_scored X tm tsubs) chs)\<rparr>"
  using assms
  by (induction chs arbitrary: acc) (simp_all add: score_challenge later_solve_append add.assoc)

definition team_subs_of :: "team \<Rightarrow> submission list \<Rightarrow> submission list" where
  "team_subs_of tm subs = filter (\<lambda>s. sub_team_id s = Some (team_id tm)) subs"

definition solve_points :: "ext \<Rightarrow> team \<Rightarrow> challenge list \<Rightarrow> submission list \<Rightarrow> (string \<rightharpoonup> string set) \<Rightarrow> int" where
  "solve_points X tm chs subs solvers =
     (\<Sum>ch\<leftarrow>chs. challenge_gain X tm (team_subs_of tm subs)
        (challenge_value ch (solve_count_of solvers ch)) ch)"

lemma team_solve_score:
  "compute_team_solve_score X tm chs subs solvers =
    \<lparr>tss_points = wrap_i64 (solve_points X tm chs subs solvers),
     tss_last_solve_time = max_time (map sub_submitted_at
       (concat (map (counted_subs X tm (team_subs_of tm subs)) chs))),
     tss_solved_ids = map ch_id (filter (challenge_scored X tm (team_subs_of tm subs)) chs)\<rparr>"
proof -
  have "i64_range 0" by (simp add: i64_range_def)
  then show ?thesis
    by (simp add: compute_team_solve_score_def fold_score_challenge solve_points_def
        team_subs_of_def later_solve_None Let_def)
qed

section \<open>Solvers and costs, as sets and sums\<close>

lemma fold_add_solver:
  "fold add_solver subs m c =
     (if \<exists>s \<in> set subs. sub_challenge_id s = c \<and> sub_is_correct s
      then Some (solver_id ` {s \<in> set subs. sub_challenge_id s = c \<and> sub_is_correct s} \<union>
                 (case m c of Some A \<Rightarrow> A | None \<Rightarrow> {}))
      else m c)"
proof (induction subs arbitrary: m)
  case (Cons x xs)
  then show ?case
    by (cases "sub_challenge_id x = c \<and> sub_is_correct x")
       (auto simp: add_solver_def split: option.splits)
qed simp

definition solver_set :: "submission list \<Rightarrow> string \<Rightarrow> string set" where
  "solver_set subs c = solver_id ` {s \<in> set subs. sub_challenge_id s = c \<and> sub_is_correct s}"

lemma solve_count_of_build:
  "solve_count_of (build_challenge_solvers subs) ch = of_nat (card (solver_set subs (ch_id ch)))"
proof (cases "\<exists>s \<in> set subs. sub_challenge_id s = ch_id ch \<and> sub_is_correct s")
  case True
  then show ?thesis
    by (simp add: solve_count_of_def build_challenge_solvers_def fold_add_solver solver_set_def)
next
  case False
  then have "solver_set subs (ch_id ch) = {}" by (auto simp: solver_set_def)
  moreover from False have "build_challenge_solvers subs (ch_id ch) = None"
    by (simp add: build_challenge_solvers_def fold_add_solver)
  ultimately show ?thesis by (simp add: solve_count_of_def)
qed

lemma fold_cost:
  assumes "i64_range n"
  shows "fold (\<lambda>u total. wrap_i64 (total + uint (hu_cost u))) us n =
    wrap_i64 (n + (\<Sum>u\<leftarrow>us. uint (hu_cost u)))"
  using assms by (induction us arbitrary: n) (simp_all add: add.assoc)

lemma total_hint_cost_team:
  "total_hint_cost unlocks (Some t) acct =
     wrap_i64 (\<Sum>u\<leftarrow>filter (\<lambda>u. hu_team_id u = Some t) unlocks. uint (hu_cost u))"
proof -
  have "i64_range 0" by (simp add: i64_range_def)
  then show ?thesis by (simp add: total_hint_cost_def fold_cost)
qed

section \<open>The order of rows does not matter\<close>

text \<open>
  A score is a function of the submissions as a multiset, so the order in which the
  database returns them is not observable in it.
\<close>

lemma filter_mset_cong_list:
  "mset xs = mset ys \<Longrightarrow> set (filter P xs) = set (filter P ys)"
  by (metis mset_eq_setD mset_filter)

lemma scored_by_cong: "set xs = set ys \<Longrightarrow> scored_by ch tm xs = scored_by ch tm ys"
  by (auto simp: scored_by_def list_all_iff list_ex_iff)

lemma part_subs_set: "set xs = set ys \<Longrightarrow> set (part_subs X ch xs p) = set (part_subs X ch ys p)"
  by (simp add: part_subs_def)

lemma challenge_subs_set: "set xs = set ys \<Longrightarrow> set (challenge_subs ch xs) = set (challenge_subs ch ys)"
  by (simp add: challenge_subs_def)

lemma scored_parts_cong: "set xs = set ys \<Longrightarrow> scored_parts X tm ch xs ps = scored_parts X tm ch ys ps"
  unfolding scored_parts_def by (intro filter_cong refl scored_by_cong part_subs_set)

lemma challenge_gain_cong: "set xs = set ys \<Longrightarrow> challenge_gain X tm xs v ch = challenge_gain X tm ys v ch"
  using scored_by_cong [OF challenge_subs_set, where ch = ch and tm = tm, of xs ys ch] scored_parts_cong [of xs ys X tm ch]
  by (simp add: challenge_gain_def split: flag_validator.split)

lemma challenge_scored_cong: "set xs = set ys \<Longrightarrow> challenge_scored X tm xs ch = challenge_scored X tm ys ch"
  using scored_by_cong [OF challenge_subs_set, where ch = ch and tm = tm, of xs ys ch] scored_parts_cong [of xs ys X tm ch]
  by (simp add: challenge_scored_def split: flag_validator.split)

lemma counted_subs_set:
  assumes "set xs = set ys"
  shows "set (counted_subs X tm xs ch) = set (counted_subs X tm ys ch)"
  using scored_by_cong [OF challenge_subs_set [OF assms], of ch tm ch] scored_parts_cong [OF assms, of X tm ch]
    part_subs_set [OF assms] challenge_subs_set [OF assms, of ch]
  by (auto simp: counted_subs_def split: flag_validator.split)

lemma solver_set_cong: "set xs = set ys \<Longrightarrow> solver_set xs c = solver_set ys c"
  by (simp add: solver_set_def)

lemma max_time_cong: "set xs = set ys \<Longrightarrow> max_time xs = max_time ys"
  by (simp add: max_time_set)

text \<open>What is compared between two boards: whose entry, how many points, since when.\<close>

definition standing :: "scoreboard_entry \<Rightarrow> team_id \<times> i64 \<times> i64 option" where
  "standing e = (en_team_id e, en_points e, en_last_solve_time e)"

lemma sum_list_mset_cong: "mset xs = mset ys \<Longrightarrow> (\<Sum>x\<leftarrow>xs. f x) = (\<Sum>y\<leftarrow>ys. (f y :: int))"
  by (metis mset_map sum_mset_sum_list)

lemma solve_points_cong:
  assumes "mset cs = mset ds" "set xs = set ys"
  shows "solve_points X tm cs xs (build_challenge_solvers xs) = solve_points X tm ds ys (build_challenge_solvers ys)"
proof -
  have t: "set (team_subs_of tm xs) = set (team_subs_of tm ys)"
    using assms(2) by (simp add: team_subs_of_def)
  have c: "solve_count_of (build_challenge_solvers xs) = solve_count_of (build_challenge_solvers ys)"
    by (rule ext) (simp add: solve_count_of_build solver_set_cong [OF assms(2)])
  show ?thesis
    unfolding solve_points_def c challenge_gain_cong [OF t] by (rule sum_list_mset_cong [OF assms(1)])
qed

lemma total_hint_cost_cong:
  "mset us = mset vs \<Longrightarrow> total_hint_cost us (Some t) a = total_hint_cost vs (Some t) a"
  unfolding total_hint_cost_team by (intro arg_cong [where f = wrap_i64] sum_list_mset_cong) simp

lemma standing_cong:
  assumes "mset cs = mset ds" "set xs = set ys" "mset us = mset vs"
  shows "standing (board_entry X mode cs xs us tm) = standing (board_entry X mode ds ys vs tm)"
proof -
  have t: "set (team_subs_of tm xs) = set (team_subs_of tm ys)"
    using assms(2) by (simp add: team_subs_of_def)
  have "set cs = set ds" using assms(1) by (rule mset_eq_setD)
  then have times: "max_time (map sub_submitted_at (concat (map (counted_subs X tm (team_subs_of tm xs)) cs)))
      = max_time (map sub_submitted_at (concat (map (counted_subs X tm (team_subs_of tm ys)) ds)))"
    by (intro max_time_cong) (simp add: counted_subs_set [OF t])
  show ?thesis
    by (simp add: standing_def board_entry_def Let_def team_solve_score times
        solve_points_cong [OF assms(1,2)] total_hint_cost_cong [OF assms(3)])
qed

section \<open>Ranks and orders\<close>

lemma length_assign_ranks [simp]: "length (assign_ranks k es) = length es"
  by (induction es arbitrary: k) auto

lemma assign_ranks_nth:
  "i < length es \<Longrightarrow> assign_ranks k es ! i = (es ! i)\<lparr>en_rank := of_nat (k + i + 1)\<rparr>"
proof (induction es arbitrary: k i)
  case (Cons e es)
  then show ?case by (cases i) (simp_all del: of_nat_Suc of_nat_add)
qed simp

lemma map_assign_ranks:
  "(\<And>e r. f (e\<lparr>en_rank := r\<rparr>) = f e) \<Longrightarrow> map f (assign_ranks k es) = map f es"
  by (induction es arbitrary: k) auto

text \<open>
  What the board's order promises of an entry and a later one: at least as many points, and,
  when the board is not sorted by accuracy, on equal points no later last solve, an entry
  with no solve coming last.
\<close>

definition ranks_before :: "bool \<Rightarrow> scoreboard_entry \<Rightarrow> scoreboard_entry \<Rightarrow> bool" where
  "ranks_before accuracy x y \<longleftrightarrow>
     en_points y \<le> en_points x \<and>
     (\<not> accuracy \<and> en_points x = en_points y \<longrightarrow>
       (case en_last_solve_time y of
          None \<Rightarrow> True
        | Some u \<Rightarrow> (case en_last_solve_time x of None \<Rightarrow> False | Some t \<Rightarrow> t \<le> u)))"

lemma ranks_before_rank [simp]:
  "ranks_before acc (x\<lparr>en_rank := r\<rparr>) y = ranks_before acc x y"
  "ranks_before acc x (y\<lparr>en_rank := r\<rparr>) = ranks_before acc x y"
  by (simp_all add: ranks_before_def split: option.split)

lemma by_last_solve_ranks: "by_last_solve x y \<noteq> Greater \<Longrightarrow> ranks_before False x y"
  by (auto simp: ranks_before_def by_last_solve_def then_with_Greater not_less split: option.splits)

lemma by_accuracy_ranks: "by_accuracy subs x y \<noteq> Greater \<Longrightarrow> ranks_before True x y"
  by (auto simp: ranks_before_def by_accuracy_def then_with_Greater not_less)

lemma by_last_solve_preorder: "total_preorder_on UNIV by_last_solve"
  unfolding total_preorder_on_def by_last_solve_def then_with_Greater
  by (safe; simp split: option.splits)

definition not_nan :: "f64 \<Rightarrow> bool" where
  "not_nan x \<longleftrightarrow> x \<noteq> NaN"

definition f64_order :: "f64 \<Rightarrow> f64 \<Rightarrow> ordering" where
  "f64_order x y = (case f64_partial_cmp x y of Some c \<Rightarrow> c | None \<Rightarrow> Equal)"

lemma f64_order_total:
  assumes "not_nan x" "not_nan y"
  shows "f64_order x y = Greater \<longleftrightarrow> f64_order y x = Less"
    "f64_order x y = Equal \<longleftrightarrow> x = y"
  using assms by (cases x; cases y; auto simp: f64_order_def not_nan_def)+

lemma f64_order_trans:
  assumes "not_nan x" "not_nan y" "not_nan z" "f64_order x y \<noteq> Greater" "f64_order y z \<noteq> Greater"
  shows "f64_order x z \<noteq> Greater"
  using assms by (cases x; cases y; cases z) (auto simp: f64_order_def not_nan_def)

lemma f64_of_rat_not_nan [simp]: "not_nan (f64_of_rat q)"
  by (simp add: not_nan_def f64_of_rat_def Let_def)

lemma accuracy_not_nan:
  assumes "length subs < 2 ^ 53"
  shows "not_nan (get_accuracy subs t)"
proof -
  define ts where "ts = filter (\<lambda>s. sub_team_id s = Some t) subs"
  have len: "length (filter sub_is_correct ts) < 2 ^ 53" "length ts < 2 ^ 53"
    unfolding ts_def
    using assms length_filter_le [of "\<lambda>s. sub_team_id s = Some t" subs]
      length_filter_le [of sub_is_correct "filter (\<lambda>s. sub_team_id s = Some t) subs"]
    by linarith+
  have fin: "f64_of_nat n = Fin (of_nat n)" if "n < 2 ^ 53" for n
    using f64_of_int_Fin [of "int n"] that by (simp add: f64_of_nat_def)
  show ?thesis
  proof (cases "ts = []")
    case True
    then show ?thesis unfolding get_accuracy_def Let_def ts_def [symmetric] by (simp add: not_nan_def)
  next
    case False
    then show ?thesis
      unfolding get_accuracy_def Let_def ts_def [symmetric]
      by (simp add: fin [OF len(1)] fin [OF len(2)])
  qed
qed

lemma by_accuracy_preorder:
  assumes "length subs < 2 ^ 53"
  shows "total_preorder_on UNIV (by_accuracy subs)"
proof -
  note nn = accuracy_not_nan [OF assms]
  have eq: "by_accuracy subs a b = then_with (cmp (en_points b) (en_points a))
      (f64_order (get_accuracy subs (en_team_id b)) (get_accuracy subs (en_team_id a)))" for a b
    by (simp add: by_accuracy_def f64_order_def)
  show ?thesis
    unfolding total_preorder_on_def eq then_with_Greater cmp_simps
  proof (intro conjI ballI impI notI, goal_cases)
    case (1 x y)
    then show ?case using f64_order_total(1) [OF nn nn, of "en_team_id x" "en_team_id y"] by auto
  next
    case (2 x y z)
    then show ?case
      using f64_order_trans [OF nn nn nn, of "en_team_id z" "en_team_id y" "en_team_id x"] by auto
  qed
qed

section \<open>What a score cannot do\<close>

text \<open>
  A solve by someone else: the team's own rows are the same, the solver sets grow, so a
  challenge that decays towards a smaller minimum is worth no more than before.
\<close>

definition whole_flag :: "challenge \<Rightarrow> bool" where
  "whole_flag ch \<longleftrightarrow> (case ch_flag ch of Multi _ \<Rightarrow> False | _ \<Rightarrow> True)"

definition decays_down :: "challenge \<Rightarrow> bool" where
  "decays_down ch \<longleftrightarrow>
     (case pts_mode (ch_points ch) of DynamicDecay i m d \<Rightarrow> m \<le> i | _ \<Rightarrow> True)"

lemma challenge_value_antimono:
  "decays_down ch \<Longrightarrow> a \<le> b \<Longrightarrow> challenge_value ch b \<le> challenge_value ch a"
  by (auto simp: challenge_value_def decays_down_def calculate_dynamic_points_antimono
      split: scoring_mode.splits)

lemma gain_whole: "whole_flag ch \<Longrightarrow> challenge_gain X tm xs v ch =
    (if scored_by ch tm (challenge_subs ch xs) then uint v else 0)"
  by (auto simp: whole_flag_def challenge_gain_def split: flag_validator.splits)

lemma solves_wrap: "card A < 2 ^ 32 \<Longrightarrow> card B < 2 ^ 32 \<Longrightarrow> card A \<le> card B \<Longrightarrow>
    (of_nat (card A) :: u32) \<le> of_nat (card B)"
  by (simp add: word_le_nat_alt unat_of_nat)

lemma solver_set_card: "card (solver_set xs c) \<le> length xs"
proof -
  have "card (solver_set xs c) \<le> card {s \<in> set xs. sub_challenge_id s = c \<and> sub_is_correct s}"
    unfolding solver_set_def by (rule card_image_le) simp
  also have "\<dots> \<le> card (set xs)" by (rule card_mono) auto
  also have "\<dots> \<le> length xs" by (rule card_length)
  finally show ?thesis .
qed

lemma solve_points_other:
  assumes "\<And>ch. ch \<in> set chs \<Longrightarrow> whole_flag ch \<and> decays_down ch"
    and "sub_team_id x \<noteq> Some (team_id tm)" "length xs < 2 ^ 32 - 1"
  shows "solve_points X tm chs (x # xs) (build_challenge_solvers (x # xs))
    \<le> solve_points X tm chs xs (build_challenge_solvers xs)"
  unfolding solve_points_def
proof (rule sum_list_mono)
  fix ch assume ch: "ch \<in> set chs"
  have own: "team_subs_of tm (x # xs) = team_subs_of tm xs" using assms(2) by (simp add: team_subs_of_def)
  have "solver_set xs (ch_id ch) \<subseteq> solver_set (x # xs) (ch_id ch)" by (auto simp: solver_set_def)
  then have "card (solver_set xs (ch_id ch)) \<le> card (solver_set (x # xs) (ch_id ch))"
    by (rule card_mono [rotated]) (simp add: solver_set_def)
  then have "solve_count_of (build_challenge_solvers xs) ch \<le> solve_count_of (build_challenge_solvers (x # xs)) ch"
    unfolding solve_count_of_build using solver_set_card [of xs "ch_id ch"] solver_set_card [of "x # xs" "ch_id ch"] assms(3)
    by (intro solves_wrap) simp_all
  with assms(1) [OF ch] have "challenge_value ch (solve_count_of (build_challenge_solvers (x # xs)) ch)
      \<le> challenge_value ch (solve_count_of (build_challenge_solvers xs) ch)"
    by (simp add: challenge_value_antimono)
  then show "challenge_gain X tm (team_subs_of tm (x # xs)) (challenge_value ch (solve_count_of (build_challenge_solvers (x # xs)) ch)) ch
      \<le> challenge_gain X tm (team_subs_of tm xs) (challenge_value ch (solve_count_of (build_challenge_solvers xs) ch)) ch"
    using assms(1) [OF ch] by (simp add: gain_whole own word_le_def)
qed

lemma solve_points_bounds:
  assumes "\<And>ch. ch \<in> set chs \<Longrightarrow> whole_flag ch"
  shows "0 \<le> solve_points X tm chs xs solvers" "solve_points X tm chs xs solvers \<le> int (length chs) * (2 ^ 32 - 1)"
proof -
  have g: "0 \<le> challenge_gain X tm xs v ch \<and> challenge_gain X tm xs v ch \<le> 2 ^ 32 - 1"
    if "ch \<in> set chs" for ch v and xs :: "submission list"
    using assms [OF that] uint_u32_bounds [of v] by (simp add: gain_whole)
  show "0 \<le> solve_points X tm chs xs solvers"
    unfolding solve_points_def by (rule sum_list_nonneg) (use g in auto)
  have "solve_points X tm chs xs solvers \<le> (\<Sum>ch\<leftarrow>chs. 2 ^ 32 - 1)"
    unfolding solve_points_def by (rule sum_list_mono) (use g in auto)
  then show "solve_points X tm chs xs solvers \<le> int (length chs) * (2 ^ 32 - 1)"
    by (simp add: sum_list_triv)
qed

text \<open>No wrap-around below \<open>2^31\<close> challenges: the score is the sum.\<close>

lemma solve_score_exact:
  assumes "\<And>ch. ch \<in> set chs \<Longrightarrow> whole_flag ch" "length chs < 2 ^ 31"
  shows "tss_points (compute_team_solve_score X tm chs xs solvers) = solve_points X tm chs xs solvers"
proof -
  have b: "0 \<le> solve_points X tm chs xs solvers" "solve_points X tm chs xs solvers \<le> int (length chs) * (2 ^ 32 - 1)"
    by (rule solve_points_bounds, erule assms(1))+
  have "int (length chs) * (2 ^ 32 - 1) \<le> 2 ^ 31 * (2 ^ 32 - 1)"
    using assms(2) by (intro mult_right_mono) simp_all
  with b have "i64_range (solve_points X tm chs xs solvers)"
    by (simp add: i64_range_def)
  then show ?thesis by (simp add: team_solve_score)
qed

text \<open>
  A part with an \<open>Instanced\<close> validator: the scoreboard passes each submission as its own
  active flag, so every correct submission to the challenge matches it.
\<close>

lemma instanced_part_subs:
  assumes "lawful_ext X" "pf_validator p = Instanced"
  shows "part_subs X ch xs p = challenge_subs ch xs"
  using assms by (simp add: part_subs_def challenge_subs_def ct_eq_def)

section \<open>What the board of a lawful store is\<close>

locale scoreboard_client =
  submission_store SR subs + hint_store HR unlocks + team_store TR teams + challenge_store CR chals
  for SR :: "'s submission_repo" and subs and HR :: "'s hint_unlock_repo" and unlocks
    and TR :: "'s team_repo" and teams and CR :: "'s challenge_repo" and chals +
  assumes tables_keep:
    "keeps (\<lambda>s. (teams s, subs s, chals s, unlocks s)) (tr_find_all TR)"
    "keeps (\<lambda>s. (teams s, subs s, chals s, unlocks s)) (sr_find_all SR)"
    "keeps (\<lambda>s. (teams s, subs s, chals s, unlocks s)) (cr_find_all CR)"
    "keeps (\<lambda>s. (teams s, subs s, chals s, unlocks s)) (hr_find_all HR)"
begin

lemma tables_read:
  assumes "tr_find_all TR s = (Inr ts, s1)" "sr_find_all SR s1 = (Inr xs, s2)"
    "cr_find_all CR s2 = (Inr cs, s3)" "hr_find_all HR s3 = (Inr us, s4)"
  shows "mset ts = teams s" "mset xs = subs s" "mset cs = chals s" "mset us = unlocks s"
    "teams s4 = teams s" "subs s4 = subs s" "chals s4 = chals s" "unlocks s4 = unlocks s"
proof -
  note keep = keepsD [OF tables_keep(1) assms(1)] keepsD [OF tables_keep(2) assms(2)]
    keepsD [OF tables_keep(3) assms(3)] keepsD [OF tables_keep(4) assms(4)]
  show "teams s4 = teams s" "subs s4 = subs s" "chals s4 = chals s" "unlocks s4 = unlocks s"
    using keep by simp_all
  show "mset ts = teams s" using team_all_ok [OF assms(1)] .
  show "mset xs = subs s" using find_all_ok [OF assms(2)] keep by simp
  show "mset cs = chals s" using challenge_all_ok [OF assms(3)] keep by simp
  show "mset us = unlocks s" using hints_all_ok [OF assms(4)] keep by simp
qed

lemma get_scoreboard_ok:
  assumes "get_scoreboard X \<lparr>sb_team_repo = TR, sb_challenge_repo = CR, sb_submission_repo = SR,
      sb_sort_by_accuracy = acc, sb_freeze_time = freeze, sb_hint_unlock_repo = HR,
      sb_hint_deduction_mode = mode\<rparr> b s = (Inr es, s')"
  obtains ts xs cs us where
    "mset ts = teams s" "mset xs = subs s" "mset cs = chals s" "mset us = unlocks s"
    "es = assign_ranks 0 (sort_by
        (if acc then by_accuracy (before_freeze freeze sub_submitted_at xs) else by_last_solve)
        (map (board_entry X mode cs (before_freeze freeze sub_submitted_at xs)
                (before_freeze freeze hu_unlocked_at us)) (in_bracket b ts)))"
proof -
  obtain ts s1 where 1: "tr_find_all TR s = (Inr ts, s1)"
    and r1: "try_await (repo_call (sr_find_all SR)) (\<lambda>all_subs.
     let submissions = before_freeze freeze sub_submitted_at all_subs in
     try_await (repo_call (cr_find_all CR)) (\<lambda>challenges.
     try_await (repo_call (hr_find_all HR)) (\<lambda>all_unlocks.
     let hint_unlocks = before_freeze freeze hu_unlocked_at all_unlocks;
         entries = map (board_entry X mode challenges submissions hint_unlocks) (in_bracket b ts);
         ranked = (if acc then sort_by (by_accuracy submissions) entries
                   else sort_by by_last_solve entries)
     in ret (assign_ranks 0 ranked)))) s1 = (Inr es, s')"
    using assms unfolding get_scoreboard_def
    by (elim try_await_ok_cases) (simp add: repo_call_Inr Let_def)
  obtain xs s2 where 2: "sr_find_all SR s1 = (Inr xs, s2)"
    and r2: "try_await (repo_call (cr_find_all CR)) (\<lambda>challenges.
     try_await (repo_call (hr_find_all HR)) (\<lambda>all_unlocks.
     let hint_unlocks = before_freeze freeze hu_unlocked_at all_unlocks;
         entries = map (board_entry X mode challenges (before_freeze freeze sub_submitted_at xs) hint_unlocks) (in_bracket b ts);
         ranked = (if acc then sort_by (by_accuracy (before_freeze freeze sub_submitted_at xs)) entries
                   else sort_by by_last_solve entries)
     in ret (assign_ranks 0 ranked))) s2 = (Inr es, s')"
    using r1 by (elim try_await_ok_cases) (simp add: repo_call_Inr Let_def)
  from r2 obtain cs s3 us s4 where 3: "cr_find_all CR s2 = (Inr cs, s3)" and 4: "hr_find_all HR s3 = (Inr us, s4)"
    and es: "es = assign_ranks 0 (if acc then sort_by (by_accuracy (before_freeze freeze sub_submitted_at xs))
         (map (board_entry X mode cs (before_freeze freeze sub_submitted_at xs)
                (before_freeze freeze hu_unlocked_at us)) (in_bracket b ts))
       else sort_by by_last_solve
         (map (board_entry X mode cs (before_freeze freeze sub_submitted_at xs)
                (before_freeze freeze hu_unlocked_at us)) (in_bracket b ts)))"
    by (elim try_await_ok_cases) (simp add: repo_call_Inr Let_def)
  show thesis
    by (rule that [OF tables_read(1-4) [OF 1 2 3 4]]) (use es in simp)
qed

text \<open>The facts the properties of the board share: its teams, its ranks, its order.\<close>

lemma board_teams:
  assumes "get_scoreboard X \<lparr>sb_team_repo = TR, sb_challenge_repo = CR, sb_submission_repo = SR,
      sb_sort_by_accuracy = acc, sb_freeze_time = freeze, sb_hint_unlock_repo = HR,
      sb_hint_deduction_mode = mode\<rparr> b s = (Inr es, s')"
  shows "mset (map en_team_id es) =
    image_mset team_id (case b of None \<Rightarrow> teams s | Some n \<Rightarrow> filter_mset (\<lambda>tm. team_bracket tm = n) (teams s))"
  using assms
proof (rule get_scoreboard_ok)
  fix ts xs cs us
  assume ts: "mset ts = teams s" and es: "es = assign_ranks 0 (sort_by
        (if acc then by_accuracy (before_freeze freeze sub_submitted_at xs) else by_last_solve)
        (map (board_entry X mode cs (before_freeze freeze sub_submitted_at xs)
                (before_freeze freeze hu_unlocked_at us)) (in_bracket b ts)))"
  have id: "en_team_id (board_entry X mode cs ys vs tm) = team_id tm" for ys vs tm
    by (simp add: board_entry_def Let_def)
  have "mset (map en_team_id es) = image_mset team_id (mset (in_bracket b ts))"
    unfolding es by (simp add: map_assign_ranks id image_mset.compositionality comp_def)
  then show ?thesis
    by (simp add: in_bracket_def ts [symmetric] split: option.split)
qed

lemma board_ranks:
  assumes "get_scoreboard X \<lparr>sb_team_repo = TR, sb_challenge_repo = CR, sb_submission_repo = SR,
      sb_sort_by_accuracy = acc, sb_freeze_time = freeze, sb_hint_unlock_repo = HR,
      sb_hint_deduction_mode = mode\<rparr> b s = (Inr es, s')" "i < length es"
  shows "en_rank (es ! i) = of_nat (i + 1)"
  using assms(1)
proof (rule get_scoreboard_ok)
  fix ts xs cs us
  assume "es = assign_ranks 0 (sort_by
        (if acc then by_accuracy (before_freeze freeze sub_submitted_at xs) else by_last_solve)
        (map (board_entry X mode cs (before_freeze freeze sub_submitted_at xs)
                (before_freeze freeze hu_unlocked_at us)) (in_bracket b ts)))"
  with assms(2) show ?thesis by (simp add: assign_ranks_nth)
qed

lemma board_sorted:
  assumes "get_scoreboard X \<lparr>sb_team_repo = TR, sb_challenge_repo = CR, sb_submission_repo = SR,
      sb_sort_by_accuracy = acc, sb_freeze_time = freeze, sb_hint_unlock_repo = HR,
      sb_hint_deduction_mode = mode\<rparr> b s = (Inr es, s')"
    and "size (subs s) < 2 ^ 53"
  shows "sorted_wrt (ranks_before acc) es"
  using assms(1)
proof (rule get_scoreboard_ok)
  fix ts xs cs us
  assume xs: "mset xs = subs s" and es: "es = assign_ranks 0 (sort_by
        (if acc then by_accuracy (before_freeze freeze sub_submitted_at xs) else by_last_solve)
        (map (board_entry X mode cs (before_freeze freeze sub_submitted_at xs)
                (before_freeze freeze hu_unlocked_at us)) (in_bracket b ts)))" (is "es = assign_ranks 0 (sort_by ?c ?l)")
  have "length (before_freeze freeze sub_submitted_at xs) \<le> length xs"
    by (simp add: before_freeze_def split: option.split)
  also have "\<dots> < 2 ^ 53" using assms(2) xs by (metis size_mset)
  finally have "total_preorder_on UNIV ?c"
    by (simp add: by_last_solve_preorder by_accuracy_preorder)
  then have "sorted_wrt (\<lambda>x y. ?c x y \<noteq> Greater) (sort_by ?c ?l)" by (rule sorted_sort_by) simp
  then have "sorted_wrt (ranks_before acc) (sort_by ?c ?l)"
    by (rule sorted_wrt_mono_rel [rotated])
       (cases acc; simp add: by_last_solve_ranks by_accuracy_ranks)
  then show ?thesis
    unfolding es sorted_wrt_iff_nth_less by (simp add: assign_ranks_nth del: of_nat_Suc of_nat_add)
qed

text \<open>
  The freeze: two stores that agree on teams, challenges and everything before the freeze
  have the same standings, whatever happened after it.
\<close>

lemma board_standings:
  assumes "get_scoreboard X \<lparr>sb_team_repo = TR, sb_challenge_repo = CR, sb_submission_repo = SR,
      sb_sort_by_accuracy = acc, sb_freeze_time = freeze, sb_hint_unlock_repo = HR,
      sb_hint_deduction_mode = mode\<rparr> b s = (Inr es, s')"
  obtains ts xs cs us where
    "mset ts = teams s" "mset xs = subs s" "mset cs = chals s" "mset us = unlocks s"
    "mset (map standing es) = image_mset standing (mset (map (board_entry X mode cs
        (before_freeze freeze sub_submitted_at xs) (before_freeze freeze hu_unlocked_at us)) (in_bracket b ts)))"
  using assms
proof (rule get_scoreboard_ok)
  fix ts xs cs us
  assume m: "mset ts = teams s" "mset xs = subs s" "mset cs = chals s" "mset us = unlocks s"
    and es: "es = assign_ranks 0 (sort_by
        (if acc then by_accuracy (before_freeze freeze sub_submitted_at xs) else by_last_solve)
        (map (board_entry X mode cs (before_freeze freeze sub_submitted_at xs)
                (before_freeze freeze hu_unlocked_at us)) (in_bracket b ts)))"
  have "standing (e\<lparr>en_rank := r\<rparr>) = standing e" for e r by (simp add: standing_def)
  then show thesis
    by (intro that [OF m]) (simp add: es map_assign_ranks)
qed

lemma board_frozen:
  assumes "get_scoreboard X \<lparr>sb_team_repo = TR, sb_challenge_repo = CR, sb_submission_repo = SR,
      sb_sort_by_accuracy = acc, sb_freeze_time = Some f, sb_hint_unlock_repo = HR,
      sb_hint_deduction_mode = mode\<rparr> b s = (Inr es, s')"
    and "get_scoreboard X \<lparr>sb_team_repo = TR, sb_challenge_repo = CR, sb_submission_repo = SR,
      sb_sort_by_accuracy = acc, sb_freeze_time = Some f, sb_hint_unlock_repo = HR,
      sb_hint_deduction_mode = mode\<rparr> b t = (Inr es2, t')"
    and same: "teams s = teams t" "chals s = chals t"
      "filter_mset (\<lambda>x. sub_submitted_at x < f) (subs s) = filter_mset (\<lambda>x. sub_submitted_at x < f) (subs t)"
      "filter_mset (\<lambda>u. hu_unlocked_at u < f) (unlocks s) = filter_mset (\<lambda>u. hu_unlocked_at u < f) (unlocks t)"
  shows "mset (map standing es) = mset (map standing es2)"
  using assms(1)
proof (rule board_standings)
  fix ts xs cs us
  assume A: "mset ts = teams s" "mset xs = subs s" "mset cs = chals s" "mset us = unlocks s"
    "mset (map standing es) = image_mset standing (mset (map (board_entry X mode cs
        (before_freeze (Some f) sub_submitted_at xs) (before_freeze (Some f) hu_unlocked_at us)) (in_bracket b ts)))"
  show ?thesis
    using assms(2)
  proof (rule board_standings)
    fix ts2 xs2 cs2 us2
    assume B: "mset ts2 = teams t" "mset xs2 = subs t" "mset cs2 = chals t" "mset us2 = unlocks t"
      "mset (map standing es2) = image_mset standing (mset (map (board_entry X mode cs2
          (before_freeze (Some f) sub_submitted_at xs2) (before_freeze (Some f) hu_unlocked_at us2)) (in_bracket b ts2)))"
    have "mset (before_freeze (Some f) sub_submitted_at xs) = mset (before_freeze (Some f) sub_submitted_at xs2)"
      "mset (before_freeze (Some f) hu_unlocked_at us) = mset (before_freeze (Some f) hu_unlocked_at us2)"
      using A(2,4) B(2,4) same(3,4) by (simp_all add: before_freeze_def)
    then have "standing (board_entry X mode cs (before_freeze (Some f) sub_submitted_at xs)
          (before_freeze (Some f) hu_unlocked_at us) tm)
        = standing (board_entry X mode cs2 (before_freeze (Some f) sub_submitted_at xs2)
          (before_freeze (Some f) hu_unlocked_at us2) tm)" for tm
      using A(3) B(3) same(2) by (intro standing_cong) (auto dest: mset_eq_setD)
    moreover have "mset (in_bracket b ts) = mset (in_bracket b ts2)"
      using A(1) B(1) same(1) by (simp add: in_bracket_def split: option.split)
    ultimately show ?thesis
      unfolding A(5) B(5) by (simp add: image_mset.compositionality comp_def)
  qed
qed

end

end
