(* ===== verification/Hint.thy ===== *)
theory Hint
  imports Scoreboard
begin

text \<open>
  Hint unlocks, \<open>src/src/libs/services/hint.rs\<close>: \<open>HintService::viewer_unlocks\<close> and
  \<open>HintService::unlock_hint\<close>, cut into the authorization, the cost and the affordability gate
  of the code. The clock and the generated id are arguments. The second half proves, for any
  lawful store, that a viewer pays once for a hint and never more than the gate allows.
\<close>

section \<open>The service\<close>

record hint_unlock_result =
  hres_content :: html_string
  hres_cost :: u32
  hres_already_unlocked :: bool

record 's hint_service =
  hs_challenge_repo :: "'s challenge_repo"
  hs_submission_repo :: "'s submission_repo"
  hs_team_repo :: "'s team_repo"
  hs_hint_unlock_repo :: "'s hint_unlock_repo"
  hs_hint_deduction_mode :: hint_deduction_mode

definition viewer_unlocks ::
    "'s hint_service \<Rightarrow> team_id option \<Rightarrow> account_id \<Rightarrow> ('s, service_error, hint_unlock list) act" where
  "viewer_unlocks svc tm acct =
     try_await (repo_call (hr_find_all (hs_hint_unlock_repo svc))) (\<lambda>all.
       ret (filter (unlock_owned_by tm acct) all))"

text \<open>
  The submissions that meet a prerequisite for a hint: the team's, or the account's own rows
  without a team. (\<open>own_sub\<close>, of \<open>submit_flag\<close>, also counts a solo account's rows with one.)
\<close>

definition hint_own_sub :: "team_id option \<Rightarrow> account_id \<Rightarrow> submission \<Rightarrow> bool" where
  "hint_own_sub tm acct s \<longleftrightarrow>
     (case tm of
        Some t \<Rightarrow> sub_team_id s = Some t
      | None \<Rightarrow> sub_team_id s = None \<and> sub_account_id s = acct)"

definition authorize_hint ::
    "challenge \<Rightarrow> submission list \<Rightarrow> team_id option \<Rightarrow> account_id \<Rightarrow> bool \<Rightarrow>
     ('s, service_error, unit) act" where
  "authorize_hint ch all_subs tm acct is_admin =
     (if is_admin then ret ()
      else if ch_visibility ch \<noteq> Visible then fail (InvalidRequest ''ctf-challenge-locked'')
      else if ch_requirements ch = [] then ret ()
      else
        let solved = set (map sub_challenge_id
                       (filter (\<lambda>s. sub_is_correct s \<and> hint_own_sub tm acct s) all_subs))
        in if list_all (requirement_in solved) (ch_requirements ch) then ret ()
           else fail (InvalidRequest ''ctf-requirements-not-met''))"

definition hint_solves :: "string \<Rightarrow> submission list \<Rightarrow> u32" where
  "hint_solves cid all_subs =
     of_nat (card (set (map solver_id
       (filter (\<lambda>s. sub_challenge_id s = cid \<and> sub_is_correct s) all_subs))))"

definition afford_hint ::
    "ext \<Rightarrow> 's hint_service \<Rightarrow> submission list \<Rightarrow> team_id option \<Rightarrow> u32 \<Rightarrow>
     ('s, service_error, unit) act" where
  "afford_hint X svc all_subs tm cost =
     (case tm of
        Some t \<Rightarrow>
          if hs_hint_deduction_mode svc = Gate then
            try_await (repo_call (tr_find_by_id (hs_team_repo svc) t)) (\<lambda>found.
            case found of
              None \<Rightarrow> fail (InvalidRequest ''ctf-team-not-found'')
            | Some team \<Rightarrow>
                try_await (repo_call (cr_find_all (hs_challenge_repo svc))) (\<lambda>challenges.
                let solve_points =
                      tss_points (compute_team_solve_score X team challenges all_subs
                        (build_challenge_solvers all_subs))
                in
                try_await (repo_call (hr_find_all (hs_hint_unlock_repo svc))) (\<lambda>all_unlocks.
                let prior_spent = total_hint_cost all_unlocks (Some t) None
                in if wrap_i64 (solve_points - prior_spent) < uint cost
                   then fail (InvalidRequest ''ctf-insufficient-points'')
                   else ret ())))
          else ret ()
      | None \<Rightarrow> ret ())"

text \<open>Charging for a hint that has not been unlocked: evaluate, gate, snapshot.\<close>

definition charge_hint ::
    "ext \<Rightarrow> 's hint_service \<Rightarrow> string \<Rightarrow> submission list \<Rightarrow> challenge_hint \<Rightarrow> string \<Rightarrow> u32 \<Rightarrow>
     team_id option \<Rightarrow> account_id \<Rightarrow> i64 \<Rightarrow> ('s, service_error, hint_unlock_result) act" where
  "charge_hint X svc new_id all_subs hint cid hint_index tm acct now =
     (let cost = hint_cost_evaluate X (hint_price hint) (hint_solves cid all_subs) now in
      try_await (afford_hint X svc all_subs tm cost) (\<lambda>_.
      let unlock =
            \<lparr>hu_id = HintUnlockId new_id, hu_challenge_id = cid, hu_hint_index = hint_index,
             hu_team_id = tm, hu_account_id = acct, hu_cost = cost, hu_unlocked_at = now\<rparr>
      in
      try_await (repo_call (hr_save (hs_hint_unlock_repo svc) unlock)) (\<lambda>_.
      ret \<lparr>hres_content = hint_content hint, hres_cost = cost, hres_already_unlocked = False\<rparr>)))"

text \<open>Serving an authorized viewer: the earlier unlock again, or a charge.\<close>

definition serve_hint ::
    "ext \<Rightarrow> 's hint_service \<Rightarrow> string \<Rightarrow> submission list \<Rightarrow> challenge \<Rightarrow> string \<Rightarrow> u32 \<Rightarrow>
     team_id option \<Rightarrow> account_id \<Rightarrow> i64 \<Rightarrow> ('s, service_error, hint_unlock_result) act" where
  "serve_hint X svc new_id all_subs ch cid hint_index tm acct now =
     (if \<not> unat hint_index < length (ch_hints ch)
      then fail (InvalidRequest ''ctf-hint-not-found'')
      else
        let hint = ch_hints ch ! unat hint_index in
        try_await (repo_call (hr_find_for (hs_hint_unlock_repo svc) cid tm acct)) (\<lambda>existing.
        case find (\<lambda>u. hu_hint_index u = hint_index) existing of
          Some prior \<Rightarrow>
            ret \<lparr>hres_content = hint_content hint, hres_cost = hu_cost prior,
                 hres_already_unlocked = True\<rparr>
        | None \<Rightarrow> charge_hint X svc new_id all_subs hint cid hint_index tm acct now))"

definition unlock_hint ::
    "ext \<Rightarrow> 's hint_service \<Rightarrow> string \<Rightarrow> string \<Rightarrow> u32 \<Rightarrow> team_id option \<Rightarrow> account_id \<Rightarrow> i64 \<Rightarrow>
     bool \<Rightarrow> ('s, service_error, hint_unlock_result) act" where
  "unlock_hint X svc new_id cid hint_index tm acct now is_admin =
     try_await (repo_call (cr_find_by_id (hs_challenge_repo svc) cid)) (\<lambda>found.
     case found of
       None \<Rightarrow> fail (InvalidRequest ''ctf-challenge-not-found'')
     | Some ch \<Rightarrow>
         try_await (repo_call (sr_find_all (hs_submission_repo svc))) (\<lambda>all_subs.
         try_await (authorize_hint ch all_subs tm acct is_admin) (\<lambda>_.
         serve_hint X svc new_id all_subs ch cid hint_index tm acct now)))"

section \<open>What an unlock does to a lawful store\<close>

text \<open>
  The unlocks of one hint by one viewer, and the invariant: at most one. A viewer is a team,
  or a solo account.
\<close>

definition unlocks_of ::
    "string \<Rightarrow> u32 \<Rightarrow> team_id option \<Rightarrow> account_id \<Rightarrow> hint_unlock multiset \<Rightarrow> hint_unlock multiset" where
  "unlocks_of cid i tm acct M =
     filter_mset (\<lambda>u. hu_challenge_id u = cid \<and> hu_hint_index u = i \<and> unlock_owned_by tm acct u) M"

definition charged_once :: "hint_unlock multiset \<Rightarrow> bool" where
  "charged_once M \<longleftrightarrow> (\<forall>cid i tm acct. size (unlocks_of cid i tm acct M) \<le> 1)"

definition visible_to :: "challenge \<Rightarrow> team_id option \<Rightarrow> account_id \<Rightarrow> submission list \<Rightarrow> bool" where
  "visible_to ch tm acct subs \<longleftrightarrow>
     ch_visibility ch = Visible \<and>
     (\<forall>i. Solve i \<in> set (ch_requirements ch) \<longrightarrow>
        (\<exists>s \<in> set subs. (sub_is_correct s \<and> hint_own_sub tm acct s) \<and> sub_challenge_id s = i))"

lemma all_requirements: "(\<forall>r \<in> A. P r) \<longleftrightarrow> (\<forall>i. Solve i \<in> A \<longrightarrow> P (Solve i))"
  by (metis challenge_requirement.exhaust)

lemma requirements_met_iff:
  "list_all (requirement_in (set (map f (filter P xs)))) reqs \<longleftrightarrow>
     (\<forall>i. Solve i \<in> set reqs \<longrightarrow> (\<exists>x \<in> set xs. P x \<and> f x = i))"
proof -
  have "requirement_in (set (map f (filter P xs))) (Solve i) \<longleftrightarrow> (\<exists>x \<in> set xs. P x \<and> f x = i)" for i
    by (auto simp: requirement_in_def)
  then show ?thesis unfolding list_all_iff all_requirements by simp
qed

lemma authorize_hint_iff:
  "authorize_hint ch subs tm acct admin s =
     (if admin \<or> visible_to ch tm acct subs then ret () s
      else fail (InvalidRequest (if ch_visibility ch = Visible then ''ctf-requirements-not-met''
                                 else ''ctf-challenge-locked'')) s)"
  unfolding authorize_hint_def Let_def requirements_met_iff visible_to_def by auto

lemma authorize_ok:
  "authorize_hint ch subs tm acct admin s = (Inr u, s') \<Longrightarrow> (admin \<or> visible_to ch tm acct subs) \<and> s' = s"
  by (simp add: authorize_hint_iff split: if_splits)

lemma authorize_err: "authorize_hint ch subs tm acct admin s = (Inl e, s') \<Longrightarrow> s' = s"
  by (simp add: authorize_hint_iff split: if_splits)

lemma charged_once_add:
  assumes "charged_once M" "unlocks_of (hu_challenge_id u) (hu_hint_index u) (hu_team_id u) (hu_account_id u) M = {#}"
  shows "charged_once (add_mset u M)"
  unfolding charged_once_def
proof (intro allI)
  fix cid i tm acct
  show "size (unlocks_of cid i tm acct (add_mset u M)) \<le> 1"
  proof (cases "hu_challenge_id u = cid \<and> hu_hint_index u = i \<and> unlock_owned_by tm acct u")
    case True
    then have "unlocks_of cid i tm acct M = unlocks_of cid i (hu_team_id u) (hu_account_id u) M"
      unfolding unlocks_of_def
      by (intro filter_mset_cong refl) (auto simp: unlock_owned_by_def split: option.splits)
    with True assms(2) show ?thesis by (simp add: unlocks_of_def)
  next
    case False
    with assms(1) show ?thesis by (auto simp: unlocks_of_def charged_once_def)
  qed
qed

locale hint_client =
  submission_store "hs_submission_repo svc" subs +
  hint_store "hs_hint_unlock_repo svc" unlocks +
  team_store "hs_team_repo svc" teams +
  challenge_store "hs_challenge_repo svc" chals
  for svc :: "'s hint_service" and subs and unlocks and teams and chals +
  assumes reads_keep:
    "keeps (\<lambda>s. (teams s, subs s, chals s, unlocks s)) (cr_find_by_id (hs_challenge_repo svc) c)"
    "keeps (\<lambda>s. (teams s, subs s, chals s, unlocks s)) (cr_find_all (hs_challenge_repo svc))"
    "keeps (\<lambda>s. (teams s, subs s, chals s, unlocks s)) (sr_find_all (hs_submission_repo svc))"
    "keeps (\<lambda>s. (teams s, subs s, chals s, unlocks s)) (tr_find_by_id (hs_team_repo svc) t)"
    "keeps (\<lambda>s. (teams s, subs s, chals s, unlocks s)) (hr_find_all (hs_hint_unlock_repo svc))"
    "keeps (\<lambda>s. (teams s, subs s, chals s, unlocks s)) (hr_find_for (hs_hint_unlock_repo svc) c tm acct)"
begin

abbreviation tables :: "'s \<Rightarrow> team multiset \<times> submission multiset \<times> challenge multiset \<times> hint_unlock multiset" where
  "tables s \<equiv> (teams s, subs s, chals s, unlocks s)"

lemma afford_keeps: "keeps tables (afford_hint X svc all_subs tm cost)"
  unfolding afford_hint_def Let_def
  by (intro keeps_case_option keeps_if keeps_ret keeps_try_await keeps_repo_call keeps_fail reads_keep)

text \<open>Within the gate a team has at least the cost left of its solve points.\<close>

lemma afford_ok:
  assumes "afford_hint X svc all_subs (Some t) cost s = (Inr u, s')" "hs_hint_deduction_mode svc = Gate"
  obtains team cs us where "team \<in># teams s" "team_id team = t" "mset cs = chals s" "mset us = unlocks s"
    "uint cost \<le> wrap_i64 (tss_points (compute_team_solve_score X team cs all_subs
        (build_challenge_solvers all_subs)) - total_hint_cost us (Some t) None)"
proof -
  from assms obtain found s1 where 1: "tr_find_by_id (hs_team_repo svc) t s = (Inr found, s1)"
    and r1: "(case found of
              None \<Rightarrow> fail (InvalidRequest ''ctf-team-not-found'')
            | Some team \<Rightarrow>
                try_await (repo_call (cr_find_all (hs_challenge_repo svc))) (\<lambda>challenges.
                try_await (repo_call (hr_find_all (hs_hint_unlock_repo svc))) (\<lambda>all_unlocks.
                if wrap_i64 (tss_points (compute_team_solve_score X team challenges all_subs
                        (build_challenge_solvers all_subs)) - total_hint_cost all_unlocks (Some t) None) < uint cost
                   then fail (InvalidRequest ''ctf-insufficient-points'')
                   else ret ()))) s1 = (Inr u, s')"
    by (auto simp: afford_hint_def Let_def repo_call_Inr elim!: try_await_ok_cases)
  from r1 obtain team where team: "found = Some team" by (cases found) auto
  from r1 team obtain cs s2 us where 2: "cr_find_all (hs_challenge_repo svc) s1 = (Inr cs, s2)"
    and 3: "hr_find_all (hs_hint_unlock_repo svc) s2 = (Inr us, s')"
    and cost: "\<not> wrap_i64 (tss_points (compute_team_solve_score X team cs all_subs
        (build_challenge_solvers all_subs)) - total_hint_cost us (Some t) None) < uint cost"
    by (auto simp: repo_call_Inr elim!: try_await_ok_cases split: if_splits)
  have v1: "tables s1 = tables s" by (rule keepsD [OF reads_keep(4) 1])
  have v2: "tables s2 = tables s1" by (rule keepsD [OF reads_keep(2) 2])
  show thesis
    using team_find_ok [OF 1 [unfolded team]] challenge_all_ok [OF 2] hints_all_ok [OF 3] v1 v2 cost
    by (intro that [of team cs us]) simp_all
qed

text \<open>
  What \<open>unlock_hint\<close> does: an error without a trace, the earlier unlock again, or one new
  row for a hint this viewer had not unlocked.
\<close>

lemma charge_cases:
  assumes "charge_hint X svc nid xs hint cid i tm acct now s = (r, s')"
  obtains (rejected) e where "r = Inl e" "unlocks s' = unlocks s"
  | (charged) s1 cost where "cost = hint_cost_evaluate X (hint_price hint) (hint_solves cid xs) now"
      "afford_hint X svc xs tm cost s = (Inr (), s1)"
      "unlocks s' = add_mset \<lparr>hu_id = HintUnlockId nid, hu_challenge_id = cid, hu_hint_index = i,
         hu_team_id = tm, hu_account_id = acct, hu_cost = cost, hu_unlocked_at = now\<rparr> (unlocks s)"
      "r = Inr \<lparr>hres_content = hint_content hint, hres_cost = cost, hres_already_unlocked = False\<rparr>"
  using assms unfolding charge_hint_def Let_def
proof (cases rule: try_await_cases)
  case (err e)
  with keepsD [OF afford_keeps err(1)] rejected show ?thesis by simp
next
  case (ok u s1)
  have v: "unlocks s1 = unlocks s" using keepsD [OF afford_keeps ok(1)] by simp
  from ok(2) show ?thesis
  proof (cases rule: try_await_cases)
    case (err e)
    with v rejected show ?thesis by (auto simp: repo_call_Inl dest: hint_save_err)
  next
    case (ok u' s2)
    with \<open>afford_hint X svc xs tm (hint_cost_evaluate X (hint_price hint) (hint_solves cid xs) now) s = (Inr u, s1)\<close> v
    show ?thesis by (intro charged [OF refl]) (auto simp: repo_call_Inr dest: hint_save_ok)
  qed
qed

lemma serve_cases:
  assumes "serve_hint X svc nid xs ch cid i tm acct now s = (r, s')"
  obtains (rejected) e where "r = Inl e" "unlocks s' = unlocks s"
  | (again) u where "unat i < length (ch_hints ch)"
      "u \<in># unlocks_of cid i tm acct (unlocks s)" "unlocks s' = unlocks s"
      "r = Inr \<lparr>hres_content = hint_content (ch_hints ch ! unat i), hres_cost = hu_cost u,
                hres_already_unlocked = True\<rparr>"
  | (fresh) s1 where "unat i < length (ch_hints ch)"
      "unlocks_of cid i tm acct (unlocks s) = {#}" "tables s1 = tables s"
      "charge_hint X svc nid xs (ch_hints ch ! unat i) cid i tm acct now s1 = (r, s')"
proof (cases "unat i < length (ch_hints ch)")
  case False
  with assms rejected show ?thesis by (auto simp: serve_hint_def)
next
  case True
  note index = this
  from assms True have "try_await (repo_call (hr_find_for (hs_hint_unlock_repo svc) cid tm acct)) (\<lambda>existing.
     case find (\<lambda>u. hu_hint_index u = i) existing of
       Some prior \<Rightarrow> ret \<lparr>hres_content = hint_content (ch_hints ch ! unat i), hres_cost = hu_cost prior,
            hres_already_unlocked = True\<rparr>
     | None \<Rightarrow> charge_hint X svc nid xs (ch_hints ch ! unat i) cid i tm acct now) s = (r, s')"
    by (simp add: serve_hint_def Let_def)
  then show ?thesis
  proof (cases rule: try_await_cases)
    case (err e)
    with keepsD [OF keeps_repo_call [OF reads_keep(6)] err(1)] rejected show ?thesis by simp
  next
    case (ok ex s1)
    have v: "tables s1 = tables s" by (rule keepsD [OF keeps_repo_call [OF reads_keep(6)] ok(1)])
    have ex: "mset (filter (\<lambda>u. hu_hint_index u = i) ex) = unlocks_of cid i tm acct (unlocks s)"
      using hints_for_ok [of cid tm acct s ex s1] ok(1)
      by (simp add: repo_call_Inr unlocks_of_def filter_filter_mset conj_ac)
    show ?thesis
    proof (cases "find (\<lambda>u. hu_hint_index u = i) ex")
      case (Some u)
      then have "u \<in> set (filter (\<lambda>u. hu_hint_index u = i) ex)" by (auto simp: find_Some_iff)
      then have "u \<in># unlocks_of cid i tm acct (unlocks s)" unfolding ex [symmetric] by simp
      with again [OF index] Some ok(2) v show ?thesis by auto
    next
      case None
      then have "filter (\<lambda>u. hu_hint_index u = i) ex = []" by (auto simp: find_None_iff filter_empty_conv)
      with ex have "unlocks_of cid i tm acct (unlocks s) = {#}" by simp
      with fresh [OF index _ v] None ok(2) show ?thesis by simp
    qed
  qed
qed

text \<open>Up to serving, the tables are as they were and the viewer is authorized.\<close>

lemma unlock_hint_split:
  assumes "unlock_hint X svc nid cid i tm acct now admin s = (r, s')"
  obtains (rejected) e where "r = Inl e" "unlocks s' = unlocks s"
  | (served) ch xs s1 where "ch \<in># chals s" "ch_id ch = cid" "mset xs = subs s"
      "admin \<or> visible_to ch tm acct xs" "tables s1 = tables s"
      "serve_hint X svc nid xs ch cid i tm acct now s1 = (r, s')"
  using assms unfolding unlock_hint_def
proof (cases rule: try_await_cases)
  case (err e)
  with keepsD [OF keeps_repo_call [OF reads_keep(1)] err(1)] rejected show ?thesis by simp
next
  case (ok found s1)
  have v1: "tables s1 = tables s" by (rule keepsD [OF keeps_repo_call [OF reads_keep(1)] ok(1)])
  show ?thesis
  proof (cases found)
    case None
    with ok v1 rejected show ?thesis by auto
  next
    case (Some ch)
    have ch: "ch \<in># chals s" "ch_id ch = cid"
      using challenge_find_ok [of cid s ch s1] ok(1) Some by (simp_all add: repo_call_Inr)
    from ok(2) [unfolded Some option.case] show ?thesis
    proof (cases rule: try_await_cases)
      case (err e)
      with keepsD [OF keeps_repo_call [OF reads_keep(3)] err(1)] v1 rejected show ?thesis by simp
    next
      case (ok xs s2)
      have v2: "tables s2 = tables s" using keepsD [OF keeps_repo_call [OF reads_keep(3)] ok(1)] v1 by simp
      have xs: "mset xs = subs s" using find_all_ok [of s1 xs s2] ok(1) v1 by (simp add: repo_call_Inr)
      from ok(2) show ?thesis
      proof (cases rule: try_await_cases)
        case (err e)
        with v2 rejected show ?thesis by (auto dest: authorize_err)
      next
        case (ok u s3)
        then show ?thesis using served [OF ch xs] authorize_ok [OF ok(1)] v2 by blast
      qed
    qed
  qed
qed

lemma unlock_hint_cases:
  assumes "unlock_hint X svc nid cid i tm acct now admin s = (r, s')"
  obtains (rejected) e where "r = Inl e" "unlocks s' = unlocks s"
  | (again) ch xs u where "ch \<in># chals s" "ch_id ch = cid" "mset xs = subs s"
      "admin \<or> visible_to ch tm acct xs" "unat i < length (ch_hints ch)"
      "u \<in># unlocks_of cid i tm acct (unlocks s)" "unlocks s' = unlocks s"
      "r = Inr \<lparr>hres_content = hint_content (ch_hints ch ! unat i), hres_cost = hu_cost u,
                hres_already_unlocked = True\<rparr>"
  | (fresh) ch xs s1 s2 cost where "ch \<in># chals s" "ch_id ch = cid" "mset xs = subs s"
      "admin \<or> visible_to ch tm acct xs" "unat i < length (ch_hints ch)"
      "unlocks_of cid i tm acct (unlocks s) = {#}" "tables s1 = tables s"
      "cost = hint_cost_evaluate X (hint_price (ch_hints ch ! unat i)) (hint_solves cid xs) now"
      "afford_hint X svc xs tm cost s1 = (Inr (), s2)"
      "unlocks s' = add_mset \<lparr>hu_id = HintUnlockId nid, hu_challenge_id = cid, hu_hint_index = i,
         hu_team_id = tm, hu_account_id = acct, hu_cost = cost, hu_unlocked_at = now\<rparr> (unlocks s)"
      "r = Inr \<lparr>hres_content = hint_content (ch_hints ch ! unat i), hres_cost = cost,
                hres_already_unlocked = False\<rparr>"
  using assms
proof (cases rule: unlock_hint_split)
  case (served ch xs s0)
  note pre = served(1-4)
  have v: "unlocks s0 = unlocks s" using served(5) by simp
  from served(6) show ?thesis
  proof (cases rule: serve_cases)
    case (rejected e)
    with that(1) v show ?thesis by simp
  next
    case (again u)
    with that(2) [OF pre] v show ?thesis by simp
  next
    case (fresh s1)
    have v1: "tables s1 = tables s" using fresh(3) served(5) by simp
    note none = fresh(2) [unfolded v]
    from fresh(4) show ?thesis
    proof (cases rule: charge_cases)
      case (rejected e)
      with that(1) v1 show ?thesis by simp
    next
      case (charged s2 cost)
      with that(3) [OF pre fresh(1) none v1 charged(1,2)] v1 show ?thesis by simp
    qed
  qed
qed (rule that(1))

text \<open>A viewer is charged at most once for a hint, in every sequence of unlocks.\<close>

lemma unlock_charged_once:
  assumes "unlock_hint X svc nid cid i tm acct now admin s = (r, s')" "charged_once (unlocks s)"
  shows "charged_once (unlocks s')"
  using assms(1)
proof (cases rule: unlock_hint_cases)
  case (fresh ch xs s1 s2 cost)
  with assms(2) show ?thesis by (simp add: charged_once_add)
qed (use assms(2) in simp_all)

end

text \<open>An unlock leaves \<open>v\<close> alone when every repository call it makes does.\<close>

locale unlock_frame =
  fixes svc :: "'s hint_service" and v :: "'s \<Rightarrow> 'v"
  assumes calls_keep:
    "keeps v (cr_find_by_id (hs_challenge_repo svc) c)" "keeps v (cr_find_all (hs_challenge_repo svc))"
    "keeps v (sr_find_all (hs_submission_repo svc))" "keeps v (tr_find_by_id (hs_team_repo svc) t)"
    "keeps v (hr_find_all (hs_hint_unlock_repo svc))"
    "keeps v (hr_find_for (hs_hint_unlock_repo svc) c tm acct)"
    "keeps v (hr_save (hs_hint_unlock_repo svc) u)"
begin

lemma unlock_hint_keeps: "keeps v (unlock_hint X svc nid cid i tm acct now admin)"
  unfolding unlock_hint_def serve_hint_def charge_hint_def afford_hint_def authorize_hint_def Let_def
  by (intro keeps_try_await keeps_repo_call calls_keep keeps_case_option keeps_if keeps_fail keeps_ret)

end

end
