(* ===== verification/PgRepos.thy ===== *)
theory PgRepos
  imports Pg Hint
begin

text \<open>
  The repositories on the database, \<open>src/src/libs/repos/pg\<close>: one definition per method, one
  statement per query, in the order of the code. The last part shows that they keep the
  contracts of the locales of Repos, Solve, Scoreboard and Hint.
\<close>

section \<open>Submissions\<close>

definition pg_submissions_all :: "('j db, repo_error, submission list) act" where
  "pg_submissions_all =
     try_await (fetch_all db_submissions (\<lambda>_. True)) (\<lambda>rows. ret (map map_submission rows))"

definition pg_submissions_by_team :: "team_id \<Rightarrow> ('j db, repo_error, submission list) act" where
  "pg_submissions_by_team t =
     try_await (fetch_all db_submissions (\<lambda>r. srow_team_id r = Some (team_str t))) (\<lambda>rows.
       ret (map map_submission rows))"

definition submission_row_of :: "submission \<Rightarrow> submission_row" where
  "submission_row_of x =
     \<lparr>srow_id = (case sub_id x of SubmissionId i \<Rightarrow> i), srow_challenge_id = sub_challenge_id x,
      srow_team_id = map_option team_str (sub_team_id x),
      srow_account_id = acc_str (sub_account_id x), srow_points = sub_points x,
      srow_provided_flag = sub_provided_flag x, srow_is_correct = sub_is_correct x,
      srow_submitted_at = sub_submitted_at x, srow_submitted_ip = sub_submitted_ip x\<rparr>"

definition submission_row_ok :: "submission_row \<Rightarrow> bool" where
  "submission_row_ok r \<longleftrightarrow>
     varchar 64 (srow_id r) \<and> varchar 64 (srow_challenge_id r) \<and>
     varchar_opt 64 (srow_team_id r) \<and> varchar 64 (srow_account_id r) \<and>
     text_col (srow_provided_flag r) \<and> varchar 64 (srow_submitted_ip r)"

definition pg_submission_save :: "submission \<Rightarrow> ('j db, repo_error, unit) act" where
  "pg_submission_save x =
     (let r = submission_row_of x in
      change (\<lambda>db.
        checked (submission_row_ok r) (list_ex (\<lambda>q. srow_id q = srow_id r) (db_submissions db))
          (team_exists db (srow_team_id r) \<and> account_exists db (srow_account_id r))
          (db\<lparr>db_submissions := db_submissions db @ [r]\<rparr>)))"

definition pg_submission_repo :: "'j db submission_repo" where
  "pg_submission_repo =
     \<lparr>sr_find_all = pg_submissions_all, sr_find_by_team = pg_submissions_by_team,
      sr_save = pg_submission_save\<rparr>"

section \<open>Hint unlocks\<close>

definition pg_hints_all :: "('j db, repo_error, hint_unlock list) act" where
  "pg_hints_all =
     try_await (fetch_all db_hint_unlocks (\<lambda>_. True)) (\<lambda>rows. ret (map map_hint_unlock rows))"

definition pg_hints_for ::
    "string \<Rightarrow> team_id option \<Rightarrow> account_id \<Rightarrow> ('j db, repo_error, hint_unlock list) act" where
  "pg_hints_for cid tm acct =
     try_await
       (case tm of
          Some t \<Rightarrow>
            fetch_all db_hint_unlocks
              (\<lambda>r. hrow_challenge_id r = cid \<and> hrow_team_id r = Some (team_str t))
        | None \<Rightarrow>
            fetch_all db_hint_unlocks
              (\<lambda>r. hrow_challenge_id r = cid \<and> hrow_account_id r = acc_str acct \<and>
                   hrow_team_id r = None))
       (\<lambda>rows. ret (map map_hint_unlock rows))"

definition hint_row_of :: "hint_unlock \<Rightarrow> hint_row" where
  "hint_row_of u =
     \<lparr>hrow_id = (case hu_id u of HintUnlockId i \<Rightarrow> i), hrow_challenge_id = hu_challenge_id u,
      hrow_hint_index = hu_hint_index u, hrow_team_id = map_option team_str (hu_team_id u),
      hrow_account_id = acc_str (hu_account_id u), hrow_cost = hu_cost u,
      hrow_unlocked_at = hu_unlocked_at u\<rparr>"

definition hint_row_ok :: "hint_row \<Rightarrow> bool" where
  "hint_row_ok r \<longleftrightarrow>
     varchar 64 (hrow_id r) \<and> varchar 64 (hrow_challenge_id r) \<and>
     varchar_opt 64 (hrow_team_id r) \<and> varchar 64 (hrow_account_id r)"

definition pg_hint_save :: "hint_unlock \<Rightarrow> ('j db, repo_error, unit) act" where
  "pg_hint_save u =
     (let r = hint_row_of u in
      change (\<lambda>db.
        checked (hint_row_ok r) (list_ex (\<lambda>q. hrow_id q = hrow_id r) (db_hint_unlocks db))
          (team_exists db (hrow_team_id r) \<and> account_exists db (hrow_account_id r))
          (db\<lparr>db_hint_unlocks := db_hint_unlocks db @ [r]\<rparr>)))"

definition pg_hint_repo :: "'j db hint_unlock_repo" where
  "pg_hint_repo =
     \<lparr>hr_find_all = pg_hints_all, hr_find_for = pg_hints_for, hr_save = pg_hint_save\<rparr>"

section \<open>Accounts\<close>

definition decoded :: "string + 'a \<Rightarrow> ('s, repo_error, 'a) act" where
  "decoded r = (case r of Inl msg \<Rightarrow> fail (decode_error msg) | Inr x \<Rightarrow> ret x)"

definition decoded_opt :: "('r \<Rightarrow> string + 'a) \<Rightarrow> 'r option \<Rightarrow> ('s, repo_error, 'a option) act" where
  "decoded_opt f row =
     (case row of
        None \<Rightarrow> ret None
      | Some r \<Rightarrow> try_await (decoded (f r)) (\<lambda>x. ret (Some x)))"

definition pg_account_by_id :: "'j serde \<Rightarrow> account_id \<Rightarrow> ('j db, repo_error, account option) act" where
  "pg_account_by_id J i =
     try_await (fetch_optional db_accounts (\<lambda>r. arow_id r = acc_str i)) (decoded_opt (map_account J))"

definition pg_account_by_username ::
    "'j serde \<Rightarrow> account_name \<Rightarrow> ('j db, repo_error, account option) act" where
  "pg_account_by_username J n =
     try_await (fetch_optional db_accounts (\<lambda>r. arow_username r = acc_name_str n))
       (decoded_opt (map_account J))"

definition pg_account_by_ctftime ::
    "'j serde \<Rightarrow> u32 \<Rightarrow> ('j db, repo_error, account option) act" where
  "pg_account_by_ctftime J i =
     try_await (fetch_optional db_accounts (\<lambda>r. arow_ctftime_id r = Some i))
       (decoded_opt (map_account J))"

definition pg_accounts_all :: "'j serde \<Rightarrow> ('j db, repo_error, account list) act" where
  "pg_accounts_all J =
     try_await (fetch_all db_accounts (\<lambda>_. True)) (each (\<lambda>r. decoded (map_account J r)))"

definition account_row_of :: "'j serde \<Rightarrow> account \<Rightarrow> 'j account_row" where
  "account_row_of J a =
     \<lparr>arow_id = acc_str (acc_id a), arow_username = acc_name_str (acc_username a),
      arow_email = map_option email_str (acc_email a),
      arow_password_hash = acc_password_hash a, arow_role = role_str (acc_role a),
      arow_team_id = map_option team_str (acc_team_id a), arow_ctftime_id = acc_ctftime_id a,
      arow_fields = fields_to J (acc_fields a), arow_created_at = acc_created_at a\<rparr>"

definition account_row_ok :: "'j account_row \<Rightarrow> bool" where
  "account_row_ok r \<longleftrightarrow>
     varchar 64 (arow_id r) \<and> varchar 255 (arow_username r) \<and> varchar_opt 255 (arow_email r) \<and>
     varchar_opt 255 (arow_password_hash r) \<and> varchar 50 (arow_role r) \<and>
     varchar_opt 64 (arow_team_id r)"

definition account_clash :: "'j account_row \<Rightarrow> 'j account_row \<Rightarrow> bool" where
  "account_clash r q \<longleftrightarrow>
     arow_username q = arow_username r \<or>
     (arow_ctftime_id r \<noteq> None \<and> arow_ctftime_id q = arow_ctftime_id r)"

definition pg_account_save :: "'j serde \<Rightarrow> account \<Rightarrow> ('j db, repo_error, unit) act" where
  "pg_account_save J a =
     (let r = account_row_of J a in
      change (\<lambda>db.
        checked (account_row_ok r)
          (list_ex (\<lambda>q. arow_id q = arow_id r \<or> account_clash r q) (db_accounts db))
          (team_exists db (arow_team_id r))
          (db\<lparr>db_accounts := db_accounts db @ [r]\<rparr>)))"

definition pg_account_update :: "'j serde \<Rightarrow> account \<Rightarrow> ('j db, repo_error, unit) act" where
  "pg_account_update J a =
     (let r = account_row_of J a in
      change (\<lambda>db.
        if list_ex (\<lambda>q. arow_id q = arow_id r) (db_accounts db) then
          checked (account_row_ok r)
            (list_ex (\<lambda>q. arow_id q \<noteq> arow_id r \<and> account_clash r q) (db_accounts db))
            (team_exists db (arow_team_id r))
            (db\<lparr>db_accounts := map (\<lambda>q. if arow_id q = arow_id r then r else q) (db_accounts db)\<rparr>)
        else Inr db))"

definition pg_account_repo :: "'j serde \<Rightarrow> 'j db account_repo" where
  "pg_account_repo J =
     \<lparr>ar_find_by_id = pg_account_by_id J, ar_find_by_username = pg_account_by_username J,
      ar_find_by_ctftime_id = pg_account_by_ctftime J, ar_save = pg_account_save J,
      ar_update = pg_account_update J, ar_find_all = pg_accounts_all J\<rparr>"

section \<open>Teams\<close>

text \<open>A team's members are the accounts that name it, read by a statement of their own.\<close>

definition team_of_row :: "'j serde \<Rightarrow> 'j team_row \<Rightarrow> string list \<Rightarrow> string + team" where
  "team_of_row J row members =
     and_then (fields_from J (trow_fields row)) (\<lambda>fields.
       Inr \<lparr>team_id = TeamId (trow_id row), team_name = TeamName (trow_name row),
            team_ctftime_id = trow_ctftime_id row, team_invite_code = trow_invite_code row,
            team_captain_id = AccountId (trow_captain_id row),
            team_member_ids = map AccountId members, team_bracket = trow_bracket row,
            team_fields = fields, team_create_at = trow_created_at row\<rparr>)"

definition map_team :: "'j serde \<Rightarrow> 'j team_row \<Rightarrow> ('j db, repo_error, team) act" where
  "map_team J row =
     try_await (fetch_all db_accounts (\<lambda>a. arow_team_id a = Some (trow_id row))) (\<lambda>members.
       decoded (team_of_row J row (map arow_id members)))"

definition map_team_opt :: "'j serde \<Rightarrow> 'j team_row option \<Rightarrow> ('j db, repo_error, team option) act" where
  "map_team_opt J row =
     (case row of None \<Rightarrow> ret None | Some r \<Rightarrow> try_await (map_team J r) (\<lambda>tm. ret (Some tm)))"

definition pg_team_by_id :: "'j serde \<Rightarrow> team_id \<Rightarrow> ('j db, repo_error, team option) act" where
  "pg_team_by_id J t =
     try_await (fetch_optional db_teams (\<lambda>r. trow_id r = team_str t)) (map_team_opt J)"

definition pg_team_by_name :: "'j serde \<Rightarrow> team_name \<Rightarrow> ('j db, repo_error, team option) act" where
  "pg_team_by_name J n =
     try_await (fetch_optional db_teams (\<lambda>r. trow_name r = team_name_str n)) (map_team_opt J)"

definition pg_team_by_ctftime :: "'j serde \<Rightarrow> u32 \<Rightarrow> ('j db, repo_error, team option) act" where
  "pg_team_by_ctftime J i =
     try_await (fetch_optional db_teams (\<lambda>r. trow_ctftime_id r = Some i)) (map_team_opt J)"

definition pg_teams_all :: "'j serde \<Rightarrow> ('j db, repo_error, team list) act" where
  "pg_teams_all J = try_await (fetch_all db_teams (\<lambda>_. True)) (each (map_team J))"

definition team_row_of :: "'j serde \<Rightarrow> team \<Rightarrow> 'j team_row" where
  "team_row_of J tm =
     \<lparr>trow_id = team_str (team_id tm), trow_name = team_name_str (team_name tm),
      trow_ctftime_id = team_ctftime_id tm, trow_invite_code = team_invite_code tm,
      trow_captain_id = acc_str (team_captain_id tm), trow_bracket = team_bracket tm,
      trow_fields = fields_to J (team_fields tm), trow_created_at = team_create_at tm\<rparr>"

definition team_row_ok :: "'j team_row \<Rightarrow> bool" where
  "team_row_ok r \<longleftrightarrow>
     varchar 64 (trow_id r) \<and> varchar 255 (trow_name r) \<and> varchar_opt 255 (trow_invite_code r) \<and>
     varchar 64 (trow_captain_id r) \<and> varchar 100 (trow_bracket r)"

definition team_clash :: "'j team_row \<Rightarrow> 'j team_row \<Rightarrow> bool" where
  "team_clash r q \<longleftrightarrow>
     trow_name q = trow_name r \<or>
     (trow_ctftime_id r \<noteq> None \<and> trow_ctftime_id q = trow_ctftime_id r)"

text \<open>\<open>UPDATE accounts SET team_id = $1 WHERE id = $2\<close>, once per member.\<close>

definition set_account_team :: "team_id \<Rightarrow> account_id \<Rightarrow> ('j db, repo_error, unit) act" where
  "set_account_team t a =
     change (\<lambda>db.
       if account_exists db (acc_str a) \<and> \<not> team_exists db (Some (team_str t)) then Inl constraint_error
       else Inr (db\<lparr>db_accounts :=
              map (\<lambda>q. if arow_id q = acc_str a then q\<lparr>arow_team_id := Some (team_str t)\<rparr> else q)
                (db_accounts db)\<rparr>))"

definition clear_team_members :: "team_id \<Rightarrow> ('j db, repo_error, unit) act" where
  "clear_team_members t =
     change (\<lambda>db. Inr (db\<lparr>db_accounts :=
       map (\<lambda>q. if arow_team_id q = Some (team_str t) then q\<lparr>arow_team_id := None\<rparr> else q)
         (db_accounts db)\<rparr>))"

definition set_members :: "team \<Rightarrow> ('j db, repo_error, unit) act" where
  "set_members tm =
     try_await (each (set_account_team (team_id tm)) (team_member_ids tm)) (\<lambda>_. ret ())"

definition insert_team :: "'j serde \<Rightarrow> team \<Rightarrow> ('j db, repo_error, unit) act" where
  "insert_team J tm =
     (let r = team_row_of J tm in
      change (\<lambda>db.
        checked (team_row_ok r)
          (list_ex (\<lambda>q. trow_id q = trow_id r \<or> team_clash r q) (db_teams db)) True
          (db\<lparr>db_teams := db_teams db @ [r]\<rparr>)))"

definition update_team_row :: "'j serde \<Rightarrow> team \<Rightarrow> ('j db, repo_error, unit) act" where
  "update_team_row J tm =
     (let r = team_row_of J tm in
      change (\<lambda>db.
        if list_ex (\<lambda>q. trow_id q = trow_id r) (db_teams db) then
          checked (team_row_ok r)
            (list_ex (\<lambda>q. trow_id q \<noteq> trow_id r \<and> team_clash r q) (db_teams db)) True
            (db\<lparr>db_teams := map (\<lambda>q. if trow_id q = trow_id r then r else q) (db_teams db)\<rparr>)
        else Inr db))"

definition pg_team_save :: "'j serde \<Rightarrow> team \<Rightarrow> ('j db, repo_error, unit) act" where
  "pg_team_save J tm = try_await (insert_team J tm) (\<lambda>_. set_members tm)"

definition pg_team_update :: "'j serde \<Rightarrow> team \<Rightarrow> ('j db, repo_error, unit) act" where
  "pg_team_update J tm =
     try_await (update_team_row J tm) (\<lambda>_.
     try_await (clear_team_members (team_id tm)) (\<lambda>_. set_members tm))"

definition pg_team_repo :: "'j serde \<Rightarrow> 'j db team_repo" where
  "pg_team_repo J =
     \<lparr>tr_find_by_id = pg_team_by_id J, tr_find_by_name = pg_team_by_name J,
      tr_find_by_ctftime_id = pg_team_by_ctftime J, tr_save = pg_team_save J,
      tr_update = pg_team_update J, tr_find_all = pg_teams_all J\<rparr>"

section \<open>Challenges and instances\<close>

definition pg_active_flag ::
    "string \<Rightarrow> team_id option \<Rightarrow> account_id \<Rightarrow> ('j db, repo_error, string option) act" where
  "pg_active_flag cid tm acct = (\<lambda>db.
     let now = db_clock db in
     try_await
       (case tm of
          Some t \<Rightarrow>
            fetch_optional db_instances (\<lambda>r. irow_challenge_id r = cid \<and>
              irow_team_id r = Some (team_str t) \<and> irow_expires_at r > now)
        | None \<Rightarrow>
            fetch_optional db_instances (\<lambda>r. irow_challenge_id r = cid \<and>
              irow_account_id r = acc_str acct \<and> irow_expires_at r > now))
       (\<lambda>row. ret (map_option irow_flag row)) db)"

definition pg_instance_ip :: "string \<Rightarrow> ('j db, repo_error, string option) act" where
  "pg_instance_ip i = (\<lambda>db.
     let now = db_clock db in
     try_await (fetch_optional db_instances (\<lambda>r. irow_id r = i \<and> irow_expires_at r > now))
       (\<lambda>row. ret (map_option irow_cluster_ip row)) db)"

definition pg_challenge_by_id :: "'j serde \<Rightarrow> string \<Rightarrow> ('j db, repo_error, challenge option) act" where
  "pg_challenge_by_id J i =
     try_await (fetch_optional db_challenges (\<lambda>r. crow_id r = i)) (decoded_opt (map_challenge J))"

definition pg_challenges_all :: "'j serde \<Rightarrow> ('j db, repo_error, challenge list) act" where
  "pg_challenges_all J =
     try_await (fetch_all db_challenges (\<lambda>_. True)) (each (\<lambda>r. decoded (map_challenge J r)))"

definition challenge_row_of :: "'j serde \<Rightarrow> challenge \<Rightarrow> 'j challenge_row" where
  "challenge_row_of J ch =
     \<lparr>crow_id = ch_id ch, crow_title = ch_title ch, crow_description = html_str (ch_description ch),
      crow_category = ch_category ch, crow_points_mode = mode_str (pts_mode (ch_points ch)),
      crow_points_equation = equation_str (ch_points ch), crow_flag = flag_to J (ch_flag ch),
      crow_author_id = author_id (ch_author ch),
      crow_author_username = author_username (ch_author ch),
      crow_hints = hints_to J (ch_hints ch), crow_files = files_to J (ch_files ch),
      crow_tags = tags_to J (ch_tags ch), crow_requirements = requirements_to J (ch_requirements ch),
      crow_team_consensus = ch_team_consensus ch,
      crow_deployment = deployment_to J (ch_deployment ch),
      crow_visibility = visibility_to J (ch_visibility ch),
      crow_max_attempts = Some (max_attempts_to J (ch_max_attempts ch))\<rparr>"

definition challenge_row_ok :: "'j challenge_row \<Rightarrow> bool" where
  "challenge_row_ok r \<longleftrightarrow>
     varchar 64 (crow_id r) \<and> varchar 255 (crow_title r) \<and> text_col (crow_description r) \<and>
     varchar 100 (crow_category r) \<and> varchar 50 (crow_points_mode r) \<and>
     varchar 255 (crow_points_equation r) \<and> varchar 64 (crow_author_id r) \<and>
     varchar 255 (crow_author_username r)"

definition pg_challenge_save :: "'j serde \<Rightarrow> challenge \<Rightarrow> ('j db, repo_error, unit) act" where
  "pg_challenge_save J ch =
     (let r = challenge_row_of J ch in
      change (\<lambda>db.
        checked (challenge_row_ok r) (list_ex (\<lambda>q. crow_id q = crow_id r) (db_challenges db)) True
          (db\<lparr>db_challenges := db_challenges db @ [r]\<rparr>)))"

text \<open>
  A statement whose text names \<open>placeholders\<close> parameters, executed with \<open>binds\<close> values: the
  driver refuses it unless the numbers agree. \<open>update\<close> names 15 and binds 17.
\<close>

definition with_binds ::
    "nat \<Rightarrow> nat \<Rightarrow> ('j db \<Rightarrow> sqlx_error + 'j db) \<Rightarrow> ('j db, repo_error, unit) act" where
  "with_binds placeholders binds f =
     (if placeholders = binds then change f
      else change (\<lambda>_. Inl (SqlxOther ''wrong number of parameters'')))"

definition pg_challenge_update :: "'j serde \<Rightarrow> challenge \<Rightarrow> ('j db, repo_error, unit) act" where
  "pg_challenge_update J ch =
     (let r = challenge_row_of J ch in
      with_binds 15 17 (\<lambda>db.
        if list_ex (\<lambda>q. crow_id q = crow_id r) (db_challenges db) then
          checked (challenge_row_ok r) False True
            (db\<lparr>db_challenges :=
               map (\<lambda>q. if crow_id q = crow_id r
                        then r\<lparr>crow_visibility := crow_visibility q,
                               crow_max_attempts := crow_max_attempts q\<rparr>
                        else q)
                 (db_challenges db)\<rparr>)
        else Inr db))"

definition pg_challenge_delete :: "string \<Rightarrow> bool \<Rightarrow> ('j db, repo_error, unit) act" where
  "pg_challenge_delete i delete_solves =
     try_await
       (if delete_solves then
          change (\<lambda>db. Inr (db\<lparr>db_submissions :=
            filter (\<lambda>r. srow_challenge_id r \<noteq> i) (db_submissions db)\<rparr>))
        else ret ())
       (\<lambda>_.
        change (\<lambda>db. Inr (db\<lparr>
          db_challenges := filter (\<lambda>r. crow_id r \<noteq> i) (db_challenges db),
          db_instances :=
            (if list_ex (\<lambda>r. crow_id r = i) (db_challenges db)
             then filter (\<lambda>r. irow_challenge_id r \<noteq> i) (db_instances db)
             else db_instances db)\<rparr>)))"

definition pg_challenge_repo :: "'j serde \<Rightarrow> 'j db challenge_repo" where
  "pg_challenge_repo J =
     \<lparr>ir_find_active_flag = pg_active_flag, ir_get_instance_ip = pg_instance_ip,
      cr_find_by_id = pg_challenge_by_id J, cr_find_all = pg_challenges_all J,
      cr_save = pg_challenge_save J, cr_update = pg_challenge_update J,
      cr_delete = pg_challenge_delete\<rparr>"

section \<open>Configuration, files, notifications\<close>

definition pg_config_get :: "'j serde \<Rightarrow> ('j db, repo_error, ctf_config) act" where
  "pg_config_get J =
     try_await (select db_config) (\<lambda>row.
       case row of
         Some data \<Rightarrow> (case config_from J data of Inl e \<Rightarrow> fail (Internal e) | Inr c \<Rightarrow> ret c)
       | None \<Rightarrow> ret default_config)"

definition pg_config_set :: "'j serde \<Rightarrow> ctf_config \<Rightarrow> ('j db, repo_error, unit) act" where
  "pg_config_set J cfg = change (\<lambda>db. Inr (db\<lparr>db_config := Some (config_to J cfg)\<rparr>))"

definition pg_config_repo :: "'j serde \<Rightarrow> 'j db config_repo" where
  "pg_config_repo J = \<lparr>gr_get = pg_config_get J, gr_set = pg_config_set J\<rparr>"

definition file_row_of :: "stored_file \<Rightarrow> file_row" where
  "file_row_of f =
     \<lparr>frow_id = sf_id f, frow_name = sf_name f, frow_checksum_sha256 = sf_checksum_sha256 f,
      frow_size = sint (sf_size f), frow_content_type = sf_content_type f,
      frow_uploaded_at = sf_uploaded_at f\<rparr>"

definition file_of_row :: "file_row \<Rightarrow> stored_file" where
  "file_of_row r =
     \<lparr>sf_id = frow_id r, sf_name = frow_name r, sf_checksum_sha256 = frow_checksum_sha256 r,
      sf_size = of_int (frow_size r), sf_content_type = frow_content_type r,
      sf_uploaded_at = frow_uploaded_at r\<rparr>"

definition file_row_ok :: "file_row \<Rightarrow> bool" where
  "file_row_ok r \<longleftrightarrow>
     varchar 64 (frow_id r) \<and> text_col (frow_name r) \<and> varchar 64 (frow_checksum_sha256 r) \<and>
     varchar 255 (frow_content_type r)"

definition pg_file_save :: "stored_file \<Rightarrow> ('j db, repo_error, unit) act" where
  "pg_file_save f =
     (let r = file_row_of f in
      change (\<lambda>db.
        checked (file_row_ok r) (list_ex (\<lambda>q. frow_id q = frow_id r) (db_files db)) True
          (db\<lparr>db_files := db_files db @ [r]\<rparr>)))"

definition pg_file_by_id :: "string \<Rightarrow> ('j db, repo_error, stored_file option) act" where
  "pg_file_by_id i =
     try_await (fetch_optional db_files (\<lambda>r. frow_id r = i)) (\<lambda>row. ret (map_option file_of_row row))"

definition pg_file_delete :: "string \<Rightarrow> ('j db, repo_error, unit) act" where
  "pg_file_delete i =
     change (\<lambda>db. Inr (db\<lparr>db_files := filter (\<lambda>r. frow_id r \<noteq> i) (db_files db)\<rparr>))"

definition pg_file_repo :: "'j db file_repo" where
  "pg_file_repo =
     \<lparr>fr_save = pg_file_save, fr_find_by_id = pg_file_by_id, fr_delete = pg_file_delete\<rparr>"

definition notification_row_of :: "'j serde \<Rightarrow> notification \<Rightarrow> 'j notification_row" where
  "notification_row_of J n =
     \<lparr>nrow_id = (case nt_id n of NotificationId i \<Rightarrow> i), nrow_kind = kind_to J (nt_kind n),
      nrow_title = nt_title n, nrow_message = html_str (nt_message n),
      nrow_target = target_to J (nt_target n), nrow_created_at = nt_created_at n\<rparr>"

definition notification_of_row :: "'j serde \<Rightarrow> 'j notification_row \<Rightarrow> string + notification" where
  "notification_of_row J r =
     and_then (kind_from J (nrow_kind r)) (\<lambda>kind.
     and_then (target_from J (nrow_target r)) (\<lambda>target.
       Inr \<lparr>nt_id = NotificationId (nrow_id r), nt_kind = kind, nt_title = nrow_title r,
            nt_message = HtmlString (nrow_message r), nt_target = target,
            nt_created_at = nrow_created_at r\<rparr>))"

definition pg_notification_save :: "'j serde \<Rightarrow> notification \<Rightarrow> ('j db, repo_error, unit) act" where
  "pg_notification_save J n =
     (let r = notification_row_of J n in
      change (\<lambda>db.
        checked (varchar 64 (nrow_id r) \<and> text_col (nrow_title r) \<and> text_col (nrow_message r))
          (list_ex (\<lambda>q. nrow_id q = nrow_id r) (db_notifications db)) True
          (db\<lparr>db_notifications := db_notifications db @ [r]\<rparr>)))"

text \<open>\<open>ORDER BY created_at DESC LIMIT $1\<close>; the database refuses a negative limit.\<close>

definition newest :: "'j notification_row \<Rightarrow> 'j notification_row \<Rightarrow> ordering" where
  "newest a b = cmp (nrow_created_at b) (nrow_created_at a)"

definition pg_notifications_recent ::
    "'j serde \<Rightarrow> i64 \<Rightarrow> ('j db, repo_error, notification list) act" where
  "pg_notifications_recent J limit =
     try_await
       (statement (\<lambda>db.
          if limit < 0 then (Inl (Database False ''LIMIT must not be negative''), db)
          else (Inr (take (nat limit)
                  (sort_by newest (db_notifications db))), db)))
       (each (\<lambda>r. case notification_of_row J r of Inl e \<Rightarrow> fail (Internal e) | Inr n \<Rightarrow> ret n))"

definition pg_notification_repo :: "'j serde \<Rightarrow> 'j db notification_repo" where
  "pg_notification_repo J =
     \<lparr>nr_save = pg_notification_save J, nr_list_recent = pg_notifications_recent J\<rparr>"

end
