(* ===== verification/PgStore.thy ===== *)
theory PgStore
  imports PgRepos
begin

text \<open>
  The database keeps the contracts: what each table holds, as a multiset of the program's
  values, what a read returns of it and what a write does to it, for every schedule of
  faults. The interpretations at the end give the services' lemmas for the database.
\<close>

section \<open>Reads\<close>

text \<open>Everything but the pending faults.\<close>

definition tables_of :: "'j db \<Rightarrow> 'j db" where
  "tables_of db = db\<lparr>db_faults := []\<rparr>"

lemma keeps_through: "keeps f m \<Longrightarrow> (\<And>s. v s = w (f s)) \<Longrightarrow> keeps v m"
  by (simp add: keeps_def)

lemma tables_of_faults [simp]: "tables_of (db\<lparr>db_faults := fs\<rparr>) = tables_of db"
  by (simp add: tables_of_def)

lemma fault_cases:
  obtains e fs where "db_faults db = Some e # fs"
  | "db_faults db = []"
  | fs where "db_faults db = None # fs"
  by (metis list.exhaust option.exhaust)

lemma select_cases:
  assumes "select f db = (r, db')"
  obtains (read) fs where "db' = db\<lparr>db_faults := fs\<rparr>" "r = Inr (f (db\<lparr>db_faults := fs\<rparr>))"
  | (failed) fs e where "db' = db\<lparr>db_faults := fs\<rparr>" "r = Inl e"
  by (cases db rule: fault_cases) (use assms that in \<open>auto simp: select_def statement_def Let_def\<close>)

lemma select_keeps [frame]: "keeps tables_of (select f)"
  by (rule keepsI) (auto elim: select_cases)

lemma fetch_all_keeps [frame]: "keeps tables_of (fetch_all t c)"
  unfolding fetch_all_def by (rule select_keeps)

lemma fetch_optional_keeps [frame]: "keeps tables_of (fetch_optional t c)"
  unfolding fetch_optional_def by (rule select_keeps)

lemma fetch_all_ok:
  "fetch_all t c db = (Inr rows, db') \<Longrightarrow>
     \<exists>fs. db' = db\<lparr>db_faults := fs\<rparr> \<and> rows = filter c (t (db\<lparr>db_faults := fs\<rparr>))"
  unfolding fetch_all_def by (erule select_cases) auto

lemma fetch_optional_ok:
  "fetch_optional t c db = (Inr row, db') \<Longrightarrow>
     \<exists>fs. db' = db\<lparr>db_faults := fs\<rparr> \<and> find c (t (db\<lparr>db_faults := fs\<rparr>)) = row"
  unfolding fetch_optional_def by (erule select_cases) auto

section \<open>Writes\<close>

text \<open>A change that errs leaves every table; one that succeeds applied its function.\<close>

lemma fetch_no_fault: "db_faults s = [] \<Longrightarrow> fetch_all t P s = (Inr (filter P (t s)), s)"
  by (cases s) (simp add: fetch_all_def select_def statement_def Let_def)

lemma change_cases:
  assumes "change f db = (r, db')"
  obtains (failed) fs e where "db' = db\<lparr>db_faults := fs\<rparr>" "r = Inl e"
  | (applied) fs where "r = Inr ()" "f (db\<lparr>db_faults := fs\<rparr>) = Inr db'"
proof -
  have "\<exists>fs. (\<exists>e. db' = db\<lparr>db_faults := fs\<rparr> \<and> r = Inl e) \<or> (r = Inr () \<and> f (db\<lparr>db_faults := fs\<rparr>) = Inr db')"
    by (cases db rule: fault_cases; cases "f (db\<lparr>db_faults := tl (db_faults db)\<rparr>)")
       (use assms in \<open>auto simp: change_def statement_def Let_def\<close>)
  with that show thesis by auto
qed

lemma checked_Inr: "checked a b c db = Inr db' \<longleftrightarrow> a \<and> \<not> b \<and> c \<and> db' = db"
  by (auto simp: checked_def)

lemma change_keeps:
  assumes "\<And>db db'. f db = Inr db' \<Longrightarrow> v db' = v db" "\<And>db. v db = w (tables_of db)"
  shows "keeps v (change f)"
proof (rule keepsI)
  fix s r s' assume "change f s = (r, s')"
  then show "v s' = v s"
  proof (cases rule: change_cases)
    case (failed e)
    then show ?thesis using assms(2) by (metis tables_of_faults)
  next
    case (applied fs)
    from assms(1) [OF applied(2)] have "v s' = v (s\<lparr>db_faults := fs\<rparr>)" .
    also have "\<dots> = v s" using assms(2) [of s] assms(2) [of "s\<lparr>db_faults := fs\<rparr>"] by (simp add: tables_of_def)
    finally show ?thesis .
  qed
qed

section \<open>What the tables hold\<close>

definition right :: "string + 'a \<Rightarrow> 'a option" where
  "right r = (case r of Inl _ \<Rightarrow> None | Inr x \<Rightarrow> Some x)"

lemma right_eq: "right r = Some x \<longleftrightarrow> r = Inr x"
  by (cases r) (simp_all add: right_def)

lemma map_filter_all: "map g xs = map Some ys \<Longrightarrow> List.map_filter g xs = ys"
  by (induction xs arbitrary: ys) (auto simp: map_filter_simps Cons_eq_map_conv split: option.split)

lemma set_map_filter_iff: "x \<in> set (List.map_filter g xs) \<longleftrightarrow> (\<exists>y \<in> set xs. g y = Some x)"
  by (force simp: map_filter_def)

definition subs_in :: "'j db \<Rightarrow> submission multiset" where
  "subs_in db = mset (map map_submission (db_submissions db))"

definition unlocks_in :: "'j db \<Rightarrow> hint_unlock multiset" where
  "unlocks_in db = mset (map map_hint_unlock (db_hint_unlocks db))"

definition member_rows :: "'j db \<Rightarrow> 'j team_row \<Rightarrow> string list" where
  "member_rows db row =
     map arow_id (filter (\<lambda>a. arow_team_id a = Some (trow_id row)) (db_accounts db))"

definition team_at :: "'j serde \<Rightarrow> 'j db \<Rightarrow> 'j team_row \<Rightarrow> team option" where
  "team_at J db row = right (team_of_row J row (member_rows db row))"

definition teams_in :: "'j serde \<Rightarrow> 'j db \<Rightarrow> team multiset" where
  "teams_in J db = mset (List.map_filter (team_at J db) (db_teams db))"

definition chals_in :: "'j serde \<Rightarrow> 'j db \<Rightarrow> challenge multiset" where
  "chals_in J db = mset (List.map_filter (\<lambda>r. right (map_challenge J r)) (db_challenges db))"

lemma views_through:
  "subs_in db = subs_in (tables_of db)" "unlocks_in db = unlocks_in (tables_of db)"
  "teams_in J db = teams_in J (tables_of db)" "chals_in J db = chals_in J (tables_of db)"
  by (simp_all add: subs_in_def unlocks_in_def teams_in_def chals_in_def tables_of_def
      team_at_def [abs_def] member_rows_def)

lemma views_eq:
  assumes "tables_of db' = tables_of db"
  shows "subs_in db' = subs_in db" "unlocks_in db' = unlocks_in db"
    "teams_in J db' = teams_in J db" "chals_in J db' = chals_in J db"
  using assms views_through by metis+

lemma keeps_views: "keeps tables_of m \<Longrightarrow>
    keeps (\<lambda>db. (teams_in J db, subs_in db, chals_in J db, unlocks_in db)) m"
  by (erule keeps_through [where w = "\<lambda>db. (teams_in J db, subs_in db, chals_in J db, unlocks_in db)"])
     (simp flip: views_through)

lemma keeps_subs: "keeps tables_of m \<Longrightarrow> keeps subs_in m"
  by (erule keeps_through) (rule views_through)

lemma keeps_unlocks: "keeps tables_of m \<Longrightarrow> keeps unlocks_in m"
  by (erule keeps_through) (rule views_through)

section \<open>The read methods keep the tables\<close>

lemma decoded_keeps [frame]: "keeps v (decoded r)"
  unfolding decoded_def by (intro keeps_case_sum keeps_fail keeps_ret)

lemma decoded_opt_keeps [frame]: "keeps v (decoded_opt f r)"
  unfolding decoded_opt_def by (intro keeps_case_option keeps_ret keeps_try_await decoded_keeps)

lemma decoded_Inr: "decoded r s = (Inr x, s') \<longleftrightarrow> r = Inr x \<and> s' = s"
  by (cases r) (auto simp: decoded_def)

lemma map_team_keeps [frame]: "keeps tables_of (map_team J row)"
  unfolding map_team_def by (intro keeps_try_await fetch_all_keeps decoded_keeps)

lemma pg_reads_keep [frame]:
  "keeps tables_of pg_submissions_all" "keeps tables_of (pg_submissions_by_team t)"
  "keeps tables_of pg_hints_all" "keeps tables_of (pg_hints_for c tm acct)"
  "keeps tables_of (pg_team_by_id J t)" "keeps tables_of (pg_teams_all J)"
  "keeps tables_of (pg_challenge_by_id J c)" "keeps tables_of (pg_challenges_all J)"
  unfolding pg_submissions_all_def pg_submissions_by_team_def pg_hints_all_def pg_hints_for_def
    pg_team_by_id_def map_team_opt_def pg_teams_all_def pg_challenge_by_id_def pg_challenges_all_def
  by (intro keeps_try_await keeps_ret keeps_case_option fetch_all_keeps fetch_optional_keeps
      map_team_keeps keeps_each decoded_keeps decoded_opt_keeps)+

lemma pg_active_flag_keeps [frame]: "keeps tables_of (pg_active_flag c tm acct)"
proof (rule keepsI)
  fix s r s' assume run: "pg_active_flag c tm acct s = (r, s')"
  have "keeps tables_of (try_await
       (case tm of
          Some t \<Rightarrow> fetch_optional db_instances (\<lambda>r. irow_challenge_id r = c \<and>
              irow_team_id r = Some (team_str t) \<and> irow_expires_at r > now)
        | None \<Rightarrow> fetch_optional db_instances (\<lambda>r. irow_challenge_id r = c \<and>
              irow_account_id r = acc_str acct \<and> irow_expires_at r > now))
       (\<lambda>row. ret (map_option irow_flag row)))" for now
    by (intro keeps_try_await keeps_case_option fetch_optional_keeps keeps_ret)
  from keepsD [OF this run [unfolded pg_active_flag_def Let_def]]
  show "tables_of s' = tables_of s" .
qed

section \<open>What the methods return\<close>

lemma pg_submissions_all_ok: "pg_submissions_all s = (Inr xs, s') \<Longrightarrow> mset xs = subs_in s"
  by (auto simp: pg_submissions_all_def subs_in_def 
      elim!: try_await_ok_cases dest!: fetch_all_ok)

lemma team_id_row: "sub_team_id (map_submission r) = Some t \<longleftrightarrow> srow_team_id r = Some (team_str t)"
  by (cases t) (auto simp: map_submission_def)

lemma pg_submissions_by_team_ok:
  "pg_submissions_by_team t s = (Inr xs, s') \<Longrightarrow> mset xs = filter_mset (\<lambda>x. sub_team_id x = Some t) (subs_in s)"
  by (auto simp: pg_submissions_by_team_def subs_in_def  filter_mset_image_mset
      team_id_row comp_def elim!: try_await_ok_cases dest!: fetch_all_ok)

lemma submission_row_roundtrip [simp]: "map_submission (submission_row_of x) = x"
proof -
  have "map_option TeamId (map_option team_str t) = t" for t by (cases t) simp_all
  moreover have "SubmissionId (case i of SubmissionId j \<Rightarrow> j) = i" for i by (cases i) simp
  ultimately show ?thesis by (simp add: map_submission_def submission_row_of_def)
qed

lemma pg_submission_save_ok: "pg_submission_save x s = (Inr u, s') \<Longrightarrow> subs_in s' = add_mset x (subs_in s)"
  unfolding pg_submission_save_def Let_def
  by (erule change_cases) (auto simp: checked_Inr subs_in_def)

lemma pg_submission_save_err: "pg_submission_save x s = (Inl e, s') \<Longrightarrow> subs_in s' = subs_in s"
  unfolding pg_submission_save_def Let_def
  by (erule change_cases) (auto intro: views_eq)

lemma pg_hints_all_ok: "pg_hints_all s = (Inr xs, s') \<Longrightarrow> mset xs = unlocks_in s"
  by (auto simp: pg_hints_all_def unlocks_in_def  elim!: try_await_ok_cases dest!: fetch_all_ok)

lemma unlock_owned_row:
  "hu_challenge_id (map_hint_unlock r) = c \<and> unlock_owned_by (Some t) acct (map_hint_unlock r) \<longleftrightarrow>
     hrow_challenge_id r = c \<and> hrow_team_id r = Some (team_str t)"
  "hu_challenge_id (map_hint_unlock r) = c \<and> unlock_owned_by None acct (map_hint_unlock r) \<longleftrightarrow>
     hrow_challenge_id r = c \<and> hrow_account_id r = acc_str acct \<and> hrow_team_id r = None"
  by (cases t; auto simp: map_hint_unlock_def unlock_owned_by_def)
     (cases acct; auto simp: map_hint_unlock_def unlock_owned_by_def)

lemma pg_hints_for_ok:
  "pg_hints_for c tm acct s = (Inr xs, s') \<Longrightarrow>
     mset xs = filter_mset (\<lambda>u. hu_challenge_id u = c \<and> unlock_owned_by tm acct u) (unlocks_in s)"
  unfolding pg_hints_for_def
  by (cases tm)
     (auto simp: unlocks_in_def  filter_mset_image_mset unlock_owned_row comp_def
       elim!: try_await_ok_cases dest!: fetch_all_ok)

lemma hint_row_roundtrip [simp]: "map_hint_unlock (hint_row_of u) = u"
proof -
  have "map_option TeamId (map_option team_str t) = t" for t by (cases t) simp_all
  moreover have "HintUnlockId (case i of HintUnlockId j \<Rightarrow> j) = i" for i by (cases i) simp
  ultimately show ?thesis by (simp add: map_hint_unlock_def hint_row_of_def)
qed

lemma pg_hint_save_ok: "pg_hint_save u s = (Inr x, s') \<Longrightarrow> unlocks_in s' = add_mset u (unlocks_in s)"
  unfolding pg_hint_save_def Let_def
  by (erule change_cases) (auto simp: checked_Inr unlocks_in_def)

lemma pg_hint_save_err: "pg_hint_save u s = (Inl e, s') \<Longrightarrow> unlocks_in s' = unlocks_in s"
  unfolding pg_hint_save_def Let_def
  by (erule change_cases) (auto intro: views_eq)

text \<open>Teams and challenges: rows decode one by one.\<close>

lemma map_team_ok:
  assumes "map_team J row s = (Inr tm, s')"
  shows "team_at J (tables_of s) row = Some tm \<and> tables_of s' = tables_of s"
  using assms
  by (auto simp: map_team_def decoded_Inr team_at_def right_eq member_rows_def 
      elim!: try_await_ok_cases dest!: fetch_all_ok)
     (simp_all add: tables_of_def)

lemma team_at_tables: "team_at J (tables_of s) = team_at J s"
  by (rule ext) (simp add: team_at_def member_rows_def tables_of_def)

lemma pg_teams_all_ok: "pg_teams_all J s = (Inr ts, s') \<Longrightarrow> mset ts = teams_in J s"
  unfolding pg_teams_all_def
proof (erule try_await_ok_cases)
  fix rows s1
  assume f: "fetch_all db_teams (\<lambda>_. True) s = (Inr rows, s1)" and e: "each (map_team J) rows s1 = (Inr ts, s')"
  have rows: "rows = db_teams s" and s1: "tables_of s1 = tables_of s"
    using fetch_all_ok [OF f] by auto
  have "map (team_at J (tables_of s1)) rows = map Some ts"
    using each_reads [of "map_team J" "team_at J" tables_of, OF map_team_ok e] by simp
  then show "mset ts = teams_in J s"
    unfolding s1 team_at_tables rows by (simp add: map_filter_all teams_in_def)
qed

lemma team_at_id: "team_at J s row = Some tm \<Longrightarrow> team_id tm = TeamId (trow_id row)"
  by (auto simp: team_at_def right_eq team_of_row_def and_then_Inr)

lemma teams_in_iff: "tm \<in># teams_in J s \<longleftrightarrow> (\<exists>row \<in> set (db_teams s). team_at J s row = Some tm)"
  by (simp add: teams_in_def set_map_filter_iff)

lemma pg_team_by_id_some:
  assumes "pg_team_by_id J t s = (Inr (Some tm), s')"
  shows "tm \<in># teams_in J s \<and> team_id tm = t"
proof -
  obtain row s1 where f: "fetch_optional db_teams (\<lambda>r. trow_id r = team_str t) s = (Inr (Some row), s1)"
    and m: "map_team J row s1 = (Inr tm, s')"
    using assms by (auto simp: pg_team_by_id_def map_team_opt_def elim!: try_await_ok_cases split: option.splits)
  have s1: "tables_of s1 = tables_of s" and row: "row \<in> set (db_teams s)" "trow_id row = team_str t"
    using fetch_optional_ok [OF f] by (auto simp: find_Some_iff)
  have at: "team_at J s row = Some tm" using map_team_ok [OF m] by (simp add: s1 team_at_tables)
  with row team_at_id [OF at] show ?thesis by (auto simp: teams_in_iff)
qed

lemma pg_team_by_id_none:
  assumes "pg_team_by_id J t s = (Inr None, s')" "tm \<in># teams_in J s"
  shows "team_id tm \<noteq> t"
proof -
  obtain s1 where f: "fetch_optional db_teams (\<lambda>r. trow_id r = team_str t) s = (Inr None, s1)"
    using assms(1) by (auto simp: pg_team_by_id_def map_team_opt_def elim!: try_await_ok_cases split: option.splits)
  then have "\<forall>row \<in> set (db_teams s). trow_id row \<noteq> team_str t"
    using fetch_optional_ok [OF f] by (auto simp: find_None_iff)
  with assms(2) show ?thesis by (fastforce simp: teams_in_iff dest: team_at_id)
qed

lemma decoded_map_ok:
  "decoded (f row) s = (Inr x, s') \<Longrightarrow> right (f row) = Some x \<and> tables_of s' = tables_of s"
  by (auto simp: decoded_Inr right_eq)

lemma pg_challenges_all_ok: "pg_challenges_all J s = (Inr cs, s') \<Longrightarrow> mset cs = chals_in J s"
  unfolding pg_challenges_all_def
proof (erule try_await_ok_cases)
  fix rows s1
  assume f: "fetch_all db_challenges (\<lambda>_. True) s = (Inr rows, s1)"
    and e: "each (\<lambda>r. decoded (map_challenge J r)) rows s1 = (Inr cs, s')"
  have rows: "rows = db_challenges s" using fetch_all_ok [OF f] by (simp add: )
  have "map (\<lambda>r. right (map_challenge J r)) rows = map Some cs"
    using each_reads [of "\<lambda>r. decoded (map_challenge J r)" "\<lambda>_ r. right (map_challenge J r)" tables_of,
        OF decoded_map_ok [where f = "map_challenge J"] e] by simp
  then show "mset cs = chals_in J s" by (simp add: rows map_filter_all chals_in_def)
qed

lemma map_challenge_id: "map_challenge J row = Inr ch \<Longrightarrow> ch_id ch = crow_id row"
  by (auto simp: map_challenge_def and_then_Inr)

lemma chals_in_iff: "ch \<in># chals_in J s \<longleftrightarrow> (\<exists>row \<in> set (db_challenges s). map_challenge J row = Inr ch)"
  by (simp add: chals_in_def set_map_filter_iff right_eq)

lemma pg_challenge_by_id_some:
  assumes "pg_challenge_by_id J c s = (Inr (Some ch), s')"
  shows "ch \<in># chals_in J s \<and> ch_id ch = c"
proof -
  obtain row s1 where f: "fetch_optional db_challenges (\<lambda>r. crow_id r = c) s = (Inr (Some row), s1)"
    and m: "map_challenge J row = Inr ch"
    using assms by (auto simp: pg_challenge_by_id_def decoded_opt_def decoded_Inr
        elim!: try_await_ok_cases split: option.splits)
  have "row \<in> set (db_challenges s)" "crow_id row = c"
    using fetch_optional_ok [OF f] by (auto simp: find_Some_iff)
  with m show ?thesis by (auto simp: chals_in_iff map_challenge_id)
qed

lemma pg_challenge_by_id_none:
  assumes "pg_challenge_by_id J c s = (Inr None, s')" "ch \<in># chals_in J s"
  shows "ch_id ch \<noteq> c"
proof -
  obtain s1 where f: "fetch_optional db_challenges (\<lambda>r. crow_id r = c) s = (Inr None, s1)"
    using assms(1) by (auto simp: pg_challenge_by_id_def decoded_opt_def decoded_Inr
        elim!: try_await_ok_cases split: option.splits)
  then have "\<forall>row \<in> set (db_challenges s). crow_id row \<noteq> c"
    using fetch_optional_ok [OF f] by (auto simp: find_None_iff)
  with assms(2) show ?thesis by (fastforce simp: chals_in_iff dest: map_challenge_id)
qed

section \<open>Interpretations\<close>

interpretation pg_subs: submission_store pg_submission_repo subs_in
  by unfold_locales
     (auto simp: pg_submission_repo_def intro: pg_submissions_all_ok pg_submissions_by_team_ok
       pg_submission_save_ok pg_submission_save_err keeps_subs pg_reads_keep)

interpretation pg_hints: hint_store pg_hint_repo unlocks_in
  by unfold_locales
     (auto simp: pg_hint_repo_def intro: pg_hints_all_ok pg_hints_for_ok
       pg_hint_save_ok pg_hint_save_err keeps_unlocks pg_reads_keep)

interpretation pg_teams: team_store "pg_team_repo J" "teams_in J" for J
  by unfold_locales
     (auto simp: pg_team_repo_def intro: pg_teams_all_ok dest: pg_team_by_id_some pg_team_by_id_none)

interpretation pg_challenges: challenge_store "pg_challenge_repo J" "chals_in J" for J
  by unfold_locales
     (auto simp: pg_challenge_repo_def intro: pg_challenges_all_ok
       dest: pg_challenge_by_id_some pg_challenge_by_id_none)

text \<open>The services on the database, wired as \<open>src/src/main.rs\<close> wires them.\<close>

definition pg_solve_service :: "'j serde \<Rightarrow> 'j db solve_service" where
  "pg_solve_service J =
     \<lparr>sv_challenge_repo = pg_challenge_repo J, sv_submission_repo = pg_submission_repo,
      sv_team_repo = pg_team_repo J\<rparr>"

definition pg_scoreboard_service ::
    "'j serde \<Rightarrow> bool \<Rightarrow> i64 option \<Rightarrow> hint_deduction_mode \<Rightarrow> 'j db scoreboard_service" where
  "pg_scoreboard_service J accuracy freeze mode =
     \<lparr>sb_team_repo = pg_team_repo J, sb_challenge_repo = pg_challenge_repo J,
      sb_submission_repo = pg_submission_repo, sb_sort_by_accuracy = accuracy,
      sb_freeze_time = freeze, sb_hint_unlock_repo = pg_hint_repo,
      sb_hint_deduction_mode = mode\<rparr>"

definition pg_hint_service :: "'j serde \<Rightarrow> hint_deduction_mode \<Rightarrow> 'j db hint_service" where
  "pg_hint_service J mode =
     \<lparr>hs_challenge_repo = pg_challenge_repo J, hs_submission_repo = pg_submission_repo,
      hs_team_repo = pg_team_repo J, hs_hint_unlock_repo = pg_hint_repo,
      hs_hint_deduction_mode = mode\<rparr>"

lemmas pg_services = pg_solve_service_def pg_scoreboard_service_def pg_hint_service_def
lemmas pg_repos = pg_submission_repo_def pg_hint_repo_def pg_team_repo_def pg_challenge_repo_def

interpretation pg_reads: read_only_lookups "pg_challenge_repo J" "pg_team_repo J" subs_in for J
  by unfold_locales (auto simp: pg_repos intro: keeps_subs pg_reads_keep pg_active_flag_keeps)

interpretation pg_solve: solve_client "pg_solve_service J" subs_in for J
  unfolding pg_solve_service_def solve_client_def
  by (simp add: pg_subs.submission_store_axioms pg_reads.read_only_lookups_axioms)

interpretation pg_board: scoreboard_client pg_submission_repo subs_in pg_hint_repo unlocks_in
    "pg_team_repo J" "teams_in J" "pg_challenge_repo J" "chals_in J" for J
  by unfold_locales (auto simp: pg_repos intro!: keeps_views intro: pg_reads_keep)

interpretation pg_hint: hint_client "pg_hint_service J mode" subs_in unlocks_in "teams_in J" "chals_in J"
    for J mode
  unfolding pg_hint_service_def hint_client_def hint_client_axioms_def
  by (simp add: pg_subs.submission_store_axioms pg_hints.hint_store_axioms pg_teams.team_store_axioms
      pg_challenges.challenge_store_axioms)
     (auto simp: pg_repos intro!: keeps_views intro: pg_reads_keep)

text \<open>A submission leaves the other tables, an unlock the other tables but its own.\<close>

lemma pg_submission_save_keeps:
  "keeps (\<lambda>db. (teams_in J db, chals_in J db, unlocks_in db)) (pg_submission_save x)"
  unfolding pg_submission_save_def Let_def
  by (rule change_keeps [where w = "\<lambda>db. (teams_in J db, chals_in J db, unlocks_in db)"])
     (auto simp: checked_Inr teams_in_def chals_in_def unlocks_in_def team_at_def [abs_def]
       member_rows_def tables_of_def)

lemma pg_hint_save_keeps:
  "keeps (\<lambda>db. (teams_in J db, chals_in J db, subs_in db)) (pg_hint_save u)"
  unfolding pg_hint_save_def Let_def
  by (rule change_keeps [where w = "\<lambda>db. (teams_in J db, chals_in J db, subs_in db)"])
     (auto simp: checked_Inr teams_in_def chals_in_def subs_in_def team_at_def [abs_def]
       member_rows_def tables_of_def)

lemma keeps_others:
  "keeps tables_of m \<Longrightarrow> keeps (\<lambda>db. (teams_in J db, chals_in J db, unlocks_in db)) m"
  "keeps tables_of m \<Longrightarrow> keeps (\<lambda>db. (teams_in J db, chals_in J db, subs_in db)) m"
  by (erule keeps_through [where w = "\<lambda>db. (teams_in J db, chals_in J db, unlocks_in db)"],
      simp flip: views_through)
     (erule keeps_through [where w = "\<lambda>db. (teams_in J db, chals_in J db, subs_in db)"],
      simp flip: views_through)

interpretation pg_submit: submit_frame "pg_solve_service J"
    "\<lambda>db. (teams_in J db, chals_in J db, unlocks_in db)" for J
  by unfold_locales
     (simp_all add: pg_repos pg_solve_service_def pg_submission_save_keeps keeps_others pg_reads_keep
       pg_active_flag_keeps)

interpretation pg_unlock: unlock_frame "pg_hint_service J mode"
    "\<lambda>db. (teams_in J db, chals_in J db, subs_in db)" for J mode
  by unfold_locales
     (simp_all add: pg_repos pg_hint_service_def pg_hint_save_keeps keeps_others pg_reads_keep)

end
