(* ===== verification/Platform.thy ===== *)
theory Platform
  imports PgStore
begin

text \<open>
  The platform as a state machine over the database: players submit flags and unlock hints,
  accounts and teams are created and changed, time passes and the driver fails at any
  statement. A request runs to its end before the next one starts; requests
  that overlap are in Races. The invariants are proved by rule
  induction over runs.
\<close>

section \<open>Steps and runs\<close>

inductive step :: "ext \<Rightarrow> 'j serde \<Rightarrow> hint_deduction_mode \<Rightarrow> 'j db \<Rightarrow> 'j db \<Rightarrow> bool"
  for X J mode where
  submit: "submit_flag X (pg_solve_service J) nid now cid tm acct flag ip s = (r, s') \<Longrightarrow>
     step X J mode s s'"
| unlock: "unlock_hint X (pg_hint_service J mode) nid cid i tm acct now admin s = (r', s') \<Longrightarrow>
     step X J mode s s'"
| account_save: "pg_account_save J a s = (u, s') \<Longrightarrow> step X J mode s s'"
| account_update: "pg_account_update J a s = (u, s') \<Longrightarrow> step X J mode s s'"
| team_save: "pg_team_save J team s = (u, s') \<Longrightarrow> step X J mode s s'"
| team_update: "pg_team_update J team s = (u, s') \<Longrightarrow> step X J mode s s'"
| clock: "db_clock s \<le> t \<Longrightarrow> step X J mode s (s\<lparr>db_clock := t\<rparr>)"
| faults: "step X J mode s (s\<lparr>db_faults := fs\<rparr>)"

inductive run :: "ext \<Rightarrow> 'j serde \<Rightarrow> hint_deduction_mode \<Rightarrow> 'j db \<Rightarrow> 'j db \<Rightarrow> bool"
  for X J mode where
  start: "run X J mode s s"
| more: "run X J mode s s1 \<Longrightarrow> step X J mode s1 s2 \<Longrightarrow> run X J mode s s2"

inductive_cases step_cases [consumes 1, case_names submit unlock account_save account_update
    team_save team_update clock faults]: "step X J mode s s'"

lemma run_trans: "run X J mode s1 s2 \<Longrightarrow> run X J mode s s1 \<Longrightarrow> run X J mode s s2"
  by (induction rule: run.induct) (auto intro: more)

text \<open>Account and team changes leave submissions, challenges and unlocks.\<close>

abbreviation event_tables :: "'j serde \<Rightarrow> 'j db \<Rightarrow> submission multiset \<times> challenge multiset \<times> hint_unlock multiset" where
  "event_tables J db \<equiv> (subs_in db, chals_in J db, unlocks_in db)"

lemma change_event_keeps:
  assumes "\<And>db db'. f db = Inr db' \<Longrightarrow> db_submissions db' = db_submissions db \<and>
      db_challenges db' = db_challenges db \<and> db_hint_unlocks db' = db_hint_unlocks db"
  shows "keeps (event_tables J) (change f)"
  by (rule change_keeps [where w = "event_tables J"])
     (use assms in \<open>auto simp: subs_in_def chals_in_def unlocks_in_def tables_of_def\<close>)

lemma account_team_keep:
  "keeps (event_tables J) (pg_account_save J a)" "keeps (event_tables J) (pg_account_update J a)"
  "keeps (event_tables J) (pg_team_save J tm)" "keeps (event_tables J) (pg_team_update J tm)"
  unfolding pg_account_save_def pg_account_update_def pg_team_save_def pg_team_update_def
    insert_team_def update_team_row_def clear_team_members_def set_members_def set_account_team_def Let_def
  by (intro keeps_try_await keeps_each keeps_ret change_event_keeps;
      auto simp: checked_Inr split: if_splits)+

text \<open>What a step does to the event's tables.\<close>

lemma step_event:
  assumes "step X J mode s s'"
  obtains (submitted) nid now cid tm acct f ip r where
      "submit_flag X (pg_solve_service J) nid now cid tm acct f ip s = (r, s')"
      "chals_in J s' = chals_in J s" "unlocks_in s' = unlocks_in s"
  | (unlocked) nid cid i tm acct now admin r where
      "unlock_hint X (pg_hint_service J mode) nid cid i tm acct now admin s = (r, s')"
      "chals_in J s' = chals_in J s" "subs_in s' = subs_in s"
  | (other) "event_tables J s' = event_tables J s"
  using assms
proof (cases rule: step_cases)
  case (submit nid now cid tm acct flag ip r)
  with keepsD [OF pg_submit.submit_flag_keeps submit] show ?thesis by (intro submitted) auto
next
  case (unlock nid cid i tm acct now admin r')
  with keepsD [OF pg_unlock.unlock_hint_keeps unlock] show ?thesis by (intro unlocked) auto
next
  case (account_save a u)
  then show ?thesis using keepsD [OF account_team_keep(1)] by (intro other) blast
next
  case (account_update a u)
  then show ?thesis using keepsD [OF account_team_keep(2)] by (intro other) blast
next
  case (team_save tm u)
  then show ?thesis using keepsD [OF account_team_keep(3)] by (intro other) blast
next
  case (team_update tm u)
  then show ?thesis using keepsD [OF account_team_keep(4)] by (intro other) blast
next
  case (clock t)
  then show ?thesis by (intro other) (simp add: subs_in_def chals_in_def unlocks_in_def)
next
  case (faults fs)
  then show ?thesis by (intro other) (simp add: subs_in_def chals_in_def unlocks_in_def)
qed

lemma step_challenges: "step X J mode s s' \<Longrightarrow> chals_in J s' = chals_in J s"
  by (erule step_event) auto

lemma run_challenges: "run X J mode s s' \<Longrightarrow> chals_in J s' = chals_in J s"
  by (induction rule: run.induct) (auto dest: step_challenges)

text \<open>One submission, as the database sees it.\<close>

lemma submit_outcome:
  assumes "submit_flag X (pg_solve_service J) nid now cid tm acct f ip s = (r, s')"
  obtains (rejected) e where "r = Inl e" "subs_in s' = subs_in s"
  | (recorded) ch active n where "ch \<in># chals_in J s" "ch_id ch = cid"
      "admits X ch cid tm acct f active (subs_in s)"
      "subs_in s' = add_mset (graded X ch nid now cid tm acct f ip active n) (subs_in s)"
      "r = answer (graded X ch nid now cid tm acct f ip active n)"
  using assms
proof (cases rule: pg_solve.submit_flag_cases)
  case (rejected e)
  with that(1) show ?thesis by simp
next
  case (recorded s1 ch active n)
  have "ch \<in># chals_in J s \<and> ch_id ch = cid"
    using pg_challenges.challenge_find_ok [of J cid s ch s1] recorded(1) by (simp add: pg_solve_service_def)
  with recorded that(2) show ?thesis by blast
qed

section \<open>Rows of one viewer\<close>

text \<open>
  The rows a viewer made as this viewer: a team's rows, or an account's rows without a team.
  The checks look at no fewer rows, so what they bound bounds these.
\<close>

definition viewer_rows ::
    "string \<Rightarrow> team_id option \<Rightarrow> account_id \<Rightarrow> submission multiset \<Rightarrow> submission multiset" where
  "viewer_rows cid tm acct M =
     filter_mset (\<lambda>x. sub_challenge_id x = cid \<and> hint_own_sub tm acct x) M"

definition viewer_solves ::
    "string \<Rightarrow> team_id option \<Rightarrow> account_id \<Rightarrow> submission multiset \<Rightarrow> submission multiset" where
  "viewer_solves cid tm acct M = filter_mset sub_is_correct (viewer_rows cid tm acct M)"

lemma own_sub_belongs: "hint_own_sub tm acct x \<Longrightarrow> belongs tm acct x"
  by (auto simp: hint_own_sub_def belongs_def split: option.splits)

lemma viewer_rows_le: "viewer_rows cid tm acct M \<subseteq># attempts_of cid tm acct M"
  unfolding viewer_rows_def attempts_of_def
  by (auto simp: subseteq_mset_def dest: own_sub_belongs)

lemma own_sub_graded:
  "hint_own_sub tm acct (graded X ch nid now cid tm' acct' f ip active n) \<longleftrightarrow>
     tm = tm' \<and> (tm = None \<longrightarrow> acct = acct')"
  by (auto simp: hint_own_sub_def split: option.splits)

lemma viewer_rows_same: "tm = tm' \<Longrightarrow> (tm = None \<longrightarrow> acct = acct') \<Longrightarrow>
    viewer_rows cid tm acct M = viewer_rows cid tm' acct' M"
  by (auto simp: viewer_rows_def hint_own_sub_def split: option.splits intro!: filter_mset_cong)

lemma attempt_count_mono:
  assumes "A \<subseteq># B"
  shows "attempt_count m A \<le> attempt_count m B"
proof -
  have "set_mset A \<subseteq> set_mset B" using assms by (rule set_mset_mono)
  then show ?thesis
    using size_mset_mono [OF assms] size_mset_mono [OF multiset_filter_mono [OF assms]]
    by (cases m) (auto simp: attempt_count_def intro!: card_mono)
qed

lemma attempt_count_size: "attempt_count m M \<le> size M"
proof -
  have c: "card (f ` set_mset N) \<le> size M" if "N \<subseteq># M" for N and f :: "submission \<Rightarrow> string"
  proof -
    have "card (f ` set_mset N) \<le> card (set_mset N)" by (rule card_image_le) simp
    also have "\<dots> \<le> size N" by (simp add: size_multiset_overloaded_eq)
        (metis card_eq_sum count_greater_eq_one_iff sum_mono)
    also have "\<dots> \<le> size M" by (rule size_mset_mono [OF that])
    finally show ?thesis .
  qed
  show ?thesis
    using c [of M "\<lambda>s. trim (sub_provided_flag s)"]
      c [of "filter_mset (\<lambda>s. \<not> sub_is_correct s) M" "\<lambda>s. trim (sub_provided_flag s)"]
    by (cases m) (simp_all add: attempt_count_def size_filter_mset_lesseq)
qed

section \<open>Invariants of runs\<close>

text \<open>
  A property of the submissions that every admitted submission preserves holds after a run;
  the rows at that time are fewer than at the end.
\<close>

lemma step_subs_size: "step X J mode s s' \<Longrightarrow> size (subs_in s) \<le> size (subs_in s')"
  by (erule step_event) (auto elim: submit_outcome)

lemma run_subs_induct [consumes 1, case_names start admitted]:
  assumes "run X J mode s s'" "P (subs_in s)"
    and "\<And>ch nid now tm acct f ip active n M.
      ch \<in># chals_in J s \<Longrightarrow> admits X ch (ch_id ch) tm acct f active M \<Longrightarrow>
      size M < size (subs_in s') \<Longrightarrow> P M \<Longrightarrow>
      P (add_mset (graded X ch nid now (ch_id ch) tm acct f ip active n) M)"
  shows "P (subs_in s')"
  using assms
proof (induction rule: run.induct)
  case (more s s1 s2)
  have le: "size (subs_in s1) \<le> size (subs_in s2)" using more.hyps(2) by (rule step_subs_size)
  have P1: "P (subs_in s1)"
    by (rule more.IH [OF more.prems(1)]) (use more.prems(2) le in \<open>auto intro: less_le_trans\<close>)
  from more.hyps(2) show ?case
  proof (cases rule: step_event)
    case (submitted nid now cid tm acct f ip r)
    from submitted(1) show ?thesis
    proof (cases rule: submit_outcome)
      case (rejected e)
      with P1 show ?thesis by simp
    next
      case (recorded ch active n)
      with more.prems(2) [of ch tm acct f active "subs_in s1" nid now ip n] P1 run_challenges [OF more.hyps(1)]
      show ?thesis by simp
    qed
  qed (use P1 in simp_all)
qed

definition within_limit :: "string \<Rightarrow> max_attempts \<Rightarrow> submission multiset \<Rightarrow> bool" where
  "within_limit cid cfg M \<longleftrightarrow>
     (\<forall>tm acct. attempt_count (ma_mode cfg) (viewer_rows cid tm acct M) \<le> unat (ma_limit cfg))"

lemma within_limit_add:
  assumes "under_limit ch cid tm acct M" "ch_max_attempts ch = Some cfg" "size M < 2 ^ 32"
    "within_limit cid cfg M"
  shows "within_limit cid cfg (add_mset (graded X ch' nid now cid tm acct f ip active n) M)"
  unfolding within_limit_def
proof (intro allI)
  fix tm' acct'
  let ?x = "graded X ch' nid now cid tm acct f ip active n"
  show "attempt_count (ma_mode cfg) (viewer_rows cid tm' acct' (add_mset ?x M)) \<le> unat (ma_limit cfg)"
  proof (cases "tm' = tm \<and> (tm = None \<longrightarrow> acct' = acct)")
    case True
    have "attempt_count (ma_mode cfg) (attempts_of cid tm acct M) \<le> size M"
      using attempt_count_size [of "ma_mode cfg" "attempts_of cid tm acct M"]
      by (rule order_trans) (simp add: attempts_of_def size_filter_mset_lesseq)
    then have lt: "attempt_count (ma_mode cfg) (attempts_of cid tm acct M) < unat (ma_limit cfg)"
      using assms(1,2,3) by (simp add: under_limit_def word_less_nat_alt unat_of_nat)
    have "attempt_count (ma_mode cfg) (viewer_rows cid tm' acct' (add_mset ?x M))
        \<le> Suc (attempt_count (ma_mode cfg) (viewer_rows cid tm acct M))"
      using True attempt_count_add [of "ma_mode cfg" ?x "viewer_rows cid tm acct M"] viewer_rows_same [of tm' tm acct' acct cid M]
      by (simp add: viewer_rows_def own_sub_graded)
    also have "\<dots> \<le> Suc (attempt_count (ma_mode cfg) (attempts_of cid tm acct M))"
      using attempt_count_mono [OF viewer_rows_le] by simp
    finally show ?thesis using lt by simp
  next
    case False
    then have "viewer_rows cid tm' acct' (add_mset ?x M) = viewer_rows cid tm' acct' M"
      by (auto simp: viewer_rows_def own_sub_graded)
    with assms(4) show ?thesis by (simp add: within_limit_def)
  qed
qed

lemma viewer_rows_other: "cid \<noteq> cid' \<Longrightarrow>
    viewer_rows cid tm' acct' (add_mset (graded X ch nid now cid' tm acct f ip active n) M) = viewer_rows cid tm' acct' M"
  by (simp add: viewer_rows_def)

text \<open>
  Solved once: a viewer has one correct row for a challenge; on a consensus challenge, each
  member has one.
\<close>

definition solved_once :: "bool \<Rightarrow> string \<Rightarrow> submission multiset \<Rightarrow> bool" where
  "solved_once consensus cid M \<longleftrightarrow>
     (\<forall>tm acct member.
        size (filter_mset (\<lambda>x. consensus \<longrightarrow> sub_account_id x = member)
               (viewer_solves cid tm acct M)) \<le> 1)"

lemma no_partial: "whole_flag ch \<Longrightarrow> find_matching_partial X (ch_flag ch) f active = None"
  by (auto simp: whole_flag_def find_matching_partial_def split: flag_validator.splits)

lemma not_duplicate_whole:
  assumes "not_duplicate X ch cid tm acct f active M" "whole_flag ch" "grade X ch f active"
  shows "filter_mset (\<lambda>x. ch_team_consensus ch \<longrightarrow> sub_account_id x = acct) (viewer_solves cid tm acct M) = {#}"
proof -
  obtain ex where ex: "mset ex = solves_of cid tm acct M" and new: "\<not> already_solved X ch acct active None ex"
    using assms no_partial [OF assms(2)] by (auto simp: not_duplicate_def)
  from new have "filter (\<lambda>x. ch_team_consensus ch \<longrightarrow> sub_account_id x = acct) ex = []"
    by (auto simp: already_solved_def list_ex_iff filter_empty_conv split: if_splits)
  then have "filter_mset (\<lambda>x. ch_team_consensus ch \<longrightarrow> sub_account_id x = acct) (solves_of cid tm acct M) = {#}"
    by (metis ex mset_filter mset_zero_iff)
  moreover have "viewer_solves cid tm acct M \<subseteq># solves_of cid tm acct M"
    unfolding viewer_solves_def solves_of_def by (rule multiset_filter_mono [OF viewer_rows_le])
  ultimately show ?thesis by (metis multiset_filter_mono subset_mset.le_zero_eq)
qed

lemma solved_once_add:
  assumes "not_duplicate X ch cid tm acct f active M" "whole_flag ch"
    "solved_once (ch_team_consensus ch) cid M"
  shows "solved_once (ch_team_consensus ch) cid (add_mset (graded X ch nid now cid tm acct f ip active n) M)"
  unfolding solved_once_def
proof (intro allI)
  fix tm' acct' member
  let ?x = "graded X ch nid now cid tm acct f ip active n"
  let ?F = "filter_mset (\<lambda>x. ch_team_consensus ch \<longrightarrow> sub_account_id x = member)"
  show "size (?F (viewer_solves cid tm' acct' (add_mset ?x M))) \<le> 1"
  proof (cases "tm' = tm \<and> (tm = None \<longrightarrow> acct' = acct) \<and> grade X ch f active \<and>
      (ch_team_consensus ch \<longrightarrow> acct = member)")
    case True
    then have "?F (viewer_solves cid tm' acct' M) = {#}"
      using not_duplicate_whole [OF assms(1,2)] viewer_rows_same [of tm' tm acct' acct cid M]
      by (auto simp: viewer_solves_def)
    with True show ?thesis by (simp add: viewer_solves_def viewer_rows_def own_sub_graded)
  next
    case False
    then have "?F (viewer_solves cid tm' acct' (add_mset ?x M)) = ?F (viewer_solves cid tm' acct' M)"
      by (auto simp: viewer_solves_def viewer_rows_def own_sub_graded)
    with assms(3) show ?thesis by (simp add: solved_once_def)
  qed
qed

section \<open>What runs keep\<close>

text \<open>C3: One submission either errs and stores nothing, or stores exactly one row for the
  submitter, graded against a stored challenge whose attempt limit, prerequisites and
  duplicate check it passed; the answer is the row when it is correct and the
  incorrect-flag error when it is not.\<close>

theorem submit_flag_effect:
  "case submit_flag X (pg_solve_service J) nid now cid tm acct f ip s of (r, s') \<Rightarrow>
     (\<exists>e. r = Inl e \<and> subs_in s' = subs_in s) \<or>
     (\<exists>ch active n.
        ch \<in># chals_in J s \<and> ch_id ch = cid \<and> admits X ch cid tm acct f active (subs_in s) \<and>
        subs_in s' = add_mset (graded X ch nid now cid tm acct f ip active n) (subs_in s) \<and>
        r = answer (graded X ch nid now cid tm acct f ip active n))"
proof (cases "submit_flag X (pg_solve_service J) nid now cid tm acct f ip s")
  case (Pair r s')
  then show ?thesis by (cases rule: submit_outcome [OF Pair]) auto
qed

text \<open>C2: No viewer ever holds two correct submissions for one challenge with a whole flag, in
  any sequence of requests with any driver faults; on a consensus challenge no member of a
  team does.\<close>

theorem no_double_solve:
  assumes "run X J mode s s'"
    and "\<forall>ch \<in># chals_in J s. ch_id ch = cid \<longrightarrow> whole_flag ch \<and> ch_team_consensus ch = consensus"
    and "solved_once consensus cid (subs_in s)"
  shows "solved_once consensus cid (subs_in s')"
  using assms(1)
proof (induction rule: run_subs_induct)
  case start
  show ?case by (rule assms(3))
next
  case (admitted ch nid now tm acct f ip active n M)
  show ?case
  proof (cases "ch_id ch = cid")
    case True
    with admitted assms(2) show ?thesis
      using solved_once_add [of X ch cid tm acct f active M] by (simp add: admits_def)
  next
    case False
    with admitted(4) show ?thesis
      by (auto simp: solved_once_def viewer_solves_def viewer_rows_other)
  qed
qed

text \<open>C4: Under an attempt limit, no viewer ever has more counted attempts stored than the
  limit, in any sequence of requests, for each of the four ways of counting and as long as
  there are fewer than \<open>2^32\<close> submissions.\<close>

theorem attempts_within_limit:
  assumes "run X J mode s s'"
    and "\<forall>ch \<in># chals_in J s. ch_id ch = cid \<longrightarrow> ch_max_attempts ch = Some cfg"
    and "within_limit cid cfg (subs_in s)" "size (subs_in s') \<le> 2 ^ 32"
  shows "within_limit cid cfg (subs_in s')"
  using assms(1)
proof (induction rule: run_subs_induct)
  case start
  show ?case by (rule assms(3))
next
  case (admitted ch nid now tm acct f ip active n M)
  show ?case
  proof (cases "ch_id ch = cid")
    case True
    with admitted assms(2,4) show ?thesis
      using within_limit_add [of ch cid tm acct M cfg] by (simp add: admits_def)
  next
    case False
    with admitted(4) show ?thesis by (auto simp: within_limit_def viewer_rows_other)
  qed
qed

text \<open>Prerequisites: whoever has a row for a challenge has a solve of each prerequisite.\<close>

definition prerequisites_met :: "challenge multiset \<Rightarrow> submission multiset \<Rightarrow> bool" where
  "prerequisites_met chs M \<longleftrightarrow>
     (\<forall>ch \<in># chs. \<forall>x \<in># M. sub_challenge_id x = ch_id ch \<longrightarrow>
        requirements_solved ch (sub_team_id x) (sub_account_id x) M)"

lemma solves_of_add: "solves_of i tm acct M \<noteq> {#} \<Longrightarrow> solves_of i tm acct (add_mset x M) \<noteq> {#}"
  by (auto simp: solves_of_def attempts_of_def)

lemma requirements_solved_add: "requirements_solved ch tm acct M \<Longrightarrow> requirements_solved ch tm acct (add_mset x M)"
  unfolding requirements_solved_def by (intro allI impI solves_of_add) simp

lemma challenge_key:
  assumes "distinct (map crow_id (db_challenges s))" "ch \<in># chals_in J s" "ch' \<in># chals_in J s" "ch_id ch = ch_id ch'"
  shows "ch = ch'"
proof -
  obtain r r' where r: "r \<in> set (db_challenges s)" "map_challenge J r = Inr ch"
    "r' \<in> set (db_challenges s)" "map_challenge J r' = Inr ch'"
    using assms(2,3) by (auto simp: chals_in_iff)
  with assms(4) have "crow_id r = crow_id r'" by (simp flip: map_challenge_id)
  with assms(1) r have "r = r'" by (metis distinct_map inj_onD)
  with r show ?thesis by simp
qed


section \<open>Hints\<close>

text \<open>C10: In any sequence of requests with any driver faults, a viewer is charged at most once
  for each hint.\<close>

theorem hint_charged_once:
  assumes "run X J mode s s'" "charged_once (unlocks_in s)"
  shows "charged_once (unlocks_in s')"
  using assms
proof (induction rule: run.induct)
  case (more s s1 s2)
  from more.hyps(2) show ?case
  proof (cases rule: step_event)
    case (unlocked nid cid i tm acct now admin r)
    with pg_hint.unlock_charged_once [OF unlocked(1)] more show ?thesis by simp
  qed (use more in simp_all)
qed

text \<open>C11: A hint is served only to an administrator or to a viewer to whom the challenge is
  visible with its prerequisites solved; a hint unlocked before is served again at its old
  price without a new row; otherwise one row is stored at the price evaluated now.\<close>

theorem unlock_hint_effect:
  "case unlock_hint X (pg_hint_service J mode) nid cid i tm acct now admin s of (r, s') \<Rightarrow>
     (\<exists>e. r = Inl e \<and> unlocks_in s' = unlocks_in s) \<or>
     (\<exists>ch xs res.
        ch \<in># chals_in J s \<and> ch_id ch = cid \<and> mset xs = subs_in s \<and>
        (admin \<or> visible_to ch tm acct xs) \<and> unat i < length (ch_hints ch) \<and>
        r = Inr res \<and> hres_content res = hint_content (ch_hints ch ! unat i) \<and>
        (if unlocks_of cid i tm acct (unlocks_in s) \<noteq> {#}
         then hres_already_unlocked res \<and> unlocks_in s' = unlocks_in s \<and>
              (\<exists>u \<in># unlocks_of cid i tm acct (unlocks_in s). hres_cost res = hu_cost u)
         else \<not> hres_already_unlocked res \<and>
              hres_cost res = hint_cost_evaluate X (hint_price (ch_hints ch ! unat i)) (hint_solves cid xs) now \<and>
              unlocks_in s' = add_mset
                \<lparr>hu_id = HintUnlockId nid, hu_challenge_id = cid, hu_hint_index = i, hu_team_id = tm,
                 hu_account_id = acct, hu_cost = hres_cost res, hu_unlocked_at = now\<rparr> (unlocks_in s)))"
proof (cases "unlock_hint X (pg_hint_service J mode) nid cid i tm acct now admin s")
  case (Pair r s')
  show ?thesis
  proof (cases rule: pg_hint.unlock_hint_cases [OF Pair])
    case (2 ch xs u)
    then have "unlocks_of cid i tm acct (unlocks_in s) \<noteq> {#}" by auto
    with 2 Pair show ?thesis by (intro case_prodI2 disjI2 exI [of _ ch] exI [of _ xs]) auto
  qed (auto simp: Pair)
qed

text \<open>C12: With the gate on, a team that is charged for a hint had, of the points of its solves,
  at least the price left after all its earlier unlocks.\<close>

theorem gate_affordable:
  "case unlock_hint X (pg_hint_service J Gate) nid cid i (Some t) acct now admin s of (r, s') \<Rightarrow>
     (\<forall>res. r = Inr res \<and> \<not> hres_already_unlocked res \<longrightarrow>
        (\<exists>team cs xs us. team \<in># teams_in J s \<and> team_id team = t \<and>
           mset cs = chals_in J s \<and> mset xs = subs_in s \<and> mset us = unlocks_in s \<and>
           uint (hres_cost res) \<le>
             wrap_i64 (tss_points (compute_team_solve_score X team cs xs (build_challenge_solvers xs))
                       - total_hint_cost us (Some t) None)))"
proof (cases "unlock_hint X (pg_hint_service J Gate) nid cid i (Some t) acct now admin s")
  case (Pair r s')
  show ?thesis
  proof (cases rule: pg_hint.unlock_hint_cases [OF Pair])
    case (3 ch xs s1 s2 cost)
    have "hs_hint_deduction_mode (pg_hint_service J Gate) = Gate" by (simp add: pg_hint_service_def)
    from pg_hint.afford_ok [OF 3(9) this] obtain team cs us where
      "team \<in># teams_in J s1" "team_id team = t" "mset cs = chals_in J s1" "mset us = unlocks_in s1"
      "uint cost \<le> wrap_i64 (tss_points (compute_team_solve_score X team cs xs
        (build_challenge_solvers xs)) - total_hint_cost us (Some t) None)" .
    with 3 Pair show ?thesis by auto
  qed (auto simp: Pair)
qed

end
