(* ===== verification/Access.thy ===== *)
theory Access
  imports Repos
begin

text \<open>
  Who may call: the rate limiter and the request extractors of
  \<open>src/src/libs/api/extract.rs\<close>, the JSON web tokens of \<open>src/src/libs/crypto/jwt.rs\<close> and the
  invite tokens of \<open>src/src/libs/api/teams.rs\<close>. HMAC-SHA256, base64 and serde are the
  fields of \<open>crypto\<close>; their documented behaviour is \<open>lawful_crypto\<close>. The clock is an argument.
\<close>

section \<open>The rate limiter\<close>

type_synonym limiter = "string \<Rightarrow> i64 list"

text \<open>\<open>or_insert_with(Vec::new)\<close>: a key without an entry has the empty list.\<close>

definition new_limiter :: limiter where
  "new_limiter = (\<lambda>_. [])"

definition check_limit :: "string \<Rightarrow> nat \<Rightarrow> i64 \<Rightarrow> i64 \<Rightarrow> limiter \<Rightarrow> bool \<times> limiter" where
  "check_limit key limit window_secs now requests =
     (let entry = filter (\<lambda>ts. wrap_i64 (now - ts) < window_secs) (requests key)
      in if length entry \<ge> limit then (False, requests(key := entry))
         else (True, requests(key := entry @ [now])))"

text \<open>A sequence of calls for one key, with the answers.\<close>

fun limited_calls :: "string \<Rightarrow> nat \<Rightarrow> i64 \<Rightarrow> i64 list \<Rightarrow> limiter \<Rightarrow> (i64 \<times> bool) list" where
  "limited_calls key limit w [] r = []"
| "limited_calls key limit w (t # ts) r =
     (let (ok, r') = check_limit key limit w t r in (t, ok) # limited_calls key limit w ts r')"

definition allowed_in :: "i64 \<Rightarrow> i64 \<Rightarrow> (i64 \<times> bool) list \<Rightarrow> nat" where
  "allowed_in w t calls = length (filter (\<lambda>(ts, ok). ok \<and> t - w < ts \<and> ts \<le> t) calls)"

definition clock_value :: "i64 \<Rightarrow> bool" where
  "clock_value t \<longleftrightarrow> 0 \<le> t \<and> t < 2 ^ 62"

lemma clock_diff [simp]: "clock_value t \<Longrightarrow> clock_value u \<Longrightarrow> wrap_i64 (t - u) = t - u"
  by (intro wrap_i64_id) (simp add: clock_value_def i64_range_def)

lemma clock_less: "clock_value t \<Longrightarrow> clock_value u \<Longrightarrow> t - u < w \<longleftrightarrow> t - w < u"
  by auto

text \<open>
  The limiter's entry holds the allowed calls of the last window, so with the earlier calls
  \<open>h\<close> of a history the calls allowed in any window ending at a call stay below the limit.
\<close>

definition recorded :: "i64 \<Rightarrow> i64 \<Rightarrow> (i64 \<times> bool) list \<Rightarrow> i64 list \<Rightarrow> bool" where
  "recorded w t h entry \<longleftrightarrow>
     filter (\<lambda>ts. t - w < ts) entry = filter (\<lambda>ts. t - w < ts) (map fst (filter snd h))"

lemma recorded_later:
  assumes "recorded w t h entry" "t \<le> u"
  shows "recorded w u h entry"
proof -
  have "filter (\<lambda>ts. u - w < ts) xs = filter (\<lambda>ts. u - w < ts) (filter (\<lambda>ts. t - w < ts) xs)" for xs
    using assms(2) by (induction xs) auto
  with assms(1) show ?thesis by (metis recorded_def)
qed

lemma allowed_in_append:
  "allowed_in w u (h @ [(t, ok)]) = allowed_in w u h + (if ok \<and> u - w < t \<and> t \<le> u then 1 else 0)"
  by (simp add: allowed_in_def)

lemma allowed_in_recent:
  assumes "t \<le> u"
  shows "allowed_in w u h \<le> length (filter (\<lambda>ts. t - w < ts) (map fst (filter snd h)))"
proof -
  have "allowed_in w u h = length (filter (\<lambda>ts. u - w < ts \<and> ts \<le> u) (map fst (filter snd h)))"
    unfolding allowed_in_def by (induction h) auto
  also have "\<dots> \<le> length (filter (\<lambda>ts. t - w < ts) (map fst (filter snd h)))"
    using assms by (induction h) auto
  finally show ?thesis .
qed

lemma limited_calls_bound:
  assumes "recorded w t h (r key)" "sorted (t # ts)" "\<forall>x \<in> set ts. clock_value x"
    "\<forall>x \<in> set (r key). clock_value x" "\<forall>u. allowed_in w u h \<le> limit"
  shows "\<forall>u. allowed_in w u (h @ limited_calls key limit w ts r) \<le> limit"
  using assms
proof (induction ts arbitrary: t h r)
  case Nil
  then show ?case by simp
next
  case (Cons t' ts)
  define entry where "entry = filter (\<lambda>x. wrap_i64 (t' - x) < w) (r key)"
  have "entry = filter (\<lambda>x. t' - w < x) (r key)"
    unfolding entry_def using Cons.prems(3,4) by (intro filter_cong) auto
  moreover from Cons.prems(1,2) have rec: "recorded w t' h (r key)" by (auto intro: recorded_later)
  ultimately have entry: "entry = filter (\<lambda>x. t' - w < x) (map fst (filter snd h))"
    by (simp add: recorded_def)
  define ok where "ok = (length entry < limit)"
  define r' where "r' = r(key := if ok then entry @ [t'] else entry)"
  have calls: "limited_calls key limit w (t' # ts) r = (t', ok) # limited_calls key limit w ts r'"
    by (simp add: check_limit_def Let_def ok_def r'_def flip: entry_def)
  have "recorded w t' (h @ [(t', ok)]) (r' key)"
    by (simp add: recorded_def r'_def entry)
  moreover have "\<forall>x \<in> set (r' key). clock_value x"
    using Cons.prems(3,4) by (auto simp: r'_def entry_def)
  moreover have "\<forall>u. allowed_in w u (h @ [(t', ok)]) \<le> limit"
  proof
    fix u
    show "allowed_in w u (h @ [(t', ok)]) \<le> limit"
      using Cons.prems(5) allowed_in_recent [of t' u w h]
      by (cases "ok \<and> t' \<le> u") (auto simp: allowed_in_append ok_def entry)
  qed
  ultimately show ?case
    unfolding calls using Cons.IH [of t' "h @ [(t', ok)]" r'] Cons.prems(2,3) by simp
qed

text \<open>C39: In every window of \<open>w\<close> seconds, wherever it lies, at most \<open>limit\<close> calls for a key are
  allowed, as long as the clock does not run backwards.\<close>

theorem rate_limit_window:
  assumes "sorted ts" "\<forall>t \<in> set ts. clock_value t"
  shows "allowed_in w u (limited_calls key limit w ts new_limiter) \<le> limit"
proof (cases ts)
  case Nil
  then show ?thesis by (simp add: allowed_in_def)
next
  case (Cons t ts')
  have "\<forall>u. allowed_in w u ([] @ limited_calls key limit w ts new_limiter) \<le> limit"
    by (rule limited_calls_bound [of w t]) (use assms Cons in \<open>auto simp: recorded_def new_limiter_def allowed_in_def\<close>)
  then show ?thesis by simp
qed

section \<open>JSON web tokens\<close>

record jwt_header =
  h_alg :: string
  h_typ :: "string option"

record claims =
  cl_sub :: string
  cl_iat :: i64
  cl_exp :: i64

text \<open>
  \<open>b64\<close> is URL-safe base64 without padding; \<open>header_json\<close> and \<open>claims_json\<close> are
  \<open>serde_json::to_vec\<close>, with \<open>header_of\<close> and \<open>claims_of\<close> for \<open>from_slice\<close>; \<open>json_i64 k\<close> is
  \<open>from_slice::<Value>\<close> with \<open>get(k)\<close> and \<open>as_i64\<close>.
\<close>

record crypto =
  hmac_sha256 :: "string \<Rightarrow> string \<Rightarrow> string"
  b64_encode :: "string \<Rightarrow> string"
  b64_decode :: "string \<Rightarrow> string option"
  header_json :: "jwt_header \<Rightarrow> string"
  header_of :: "string \<Rightarrow> jwt_header option"
  claims_json :: "claims \<Rightarrow> string"
  claims_of :: "string \<Rightarrow> claims option"
  json_i64 :: "string \<Rightarrow> string \<Rightarrow> i64 option"

definition lawful_crypto :: "crypto \<Rightarrow> bool" where
  "lawful_crypto K \<longleftrightarrow>
     (\<forall>x. b64_decode K (b64_encode K x) = Some x) \<and>
     (\<forall>x. CHR ''.'' \<notin> set (b64_encode K x)) \<and>
     (\<forall>s x. b64_decode K s = Some x \<longrightarrow> CHR '':'' \<notin> set s) \<and>
     (\<forall>h. header_of K (header_json K h) = Some h) \<and>
     (\<forall>c. claims_of K (claims_json K c) = Some c) \<and>
     (\<forall>c. json_i64 K ''exp'' (claims_json K c) = Some (cl_exp c)) \<and>
     (\<forall>c. json_i64 K ''nbf'' (claims_json K c) = None)"

datatype jwt_error = InvalidFormat | InvalidSignature | Expired | NotYetValid | InvalidJson | Base64DecodeError

definition hs256_header :: jwt_header where
  "hs256_header = \<lparr>h_alg = ''HS256'', h_typ = Some ''JWT''\<rparr>"

definition jwt_encode :: "crypto \<Rightarrow> claims \<Rightarrow> string \<Rightarrow> string" where
  "jwt_encode K payload secret =
     (let signing_input =
            b64_encode K (header_json K hs256_header) @ ''.'' @ b64_encode K (claims_json K payload)
      in signing_input @ ''.'' @ b64_encode K (hmac_sha256 K secret signing_input))"

definition jwt_issue :: "crypto \<Rightarrow> i64 \<Rightarrow> string \<Rightarrow> i64 \<Rightarrow> string \<Rightarrow> string" where
  "jwt_issue K now sub ttl_seconds secret =
     jwt_encode K \<lparr>cl_sub = sub, cl_iat = now, cl_exp = wrap_i64 (now + ttl_seconds)\<rparr> secret"

text \<open>The validity window: claims that are not integers are ignored.\<close>

definition check_times :: "crypto \<Rightarrow> i64 \<Rightarrow> string \<Rightarrow> jwt_error option" where
  "check_times K now payload_json =
     (case json_i64 K ''exp'' payload_json of
        Some expires \<Rightarrow>
          if now \<ge> expires then Some Expired
          else (case json_i64 K ''nbf'' payload_json of
                  Some nbf \<Rightarrow> if now < nbf then Some NotYetValid else None
                | None \<Rightarrow> None)
      | None \<Rightarrow>
          (case json_i64 K ''nbf'' payload_json of
             Some nbf \<Rightarrow> if now < nbf then Some NotYetValid else None
           | None \<Rightarrow> None))"

definition jwt_payload :: "crypto \<Rightarrow> i64 \<Rightarrow> string \<Rightarrow> string \<Rightarrow> jwt_error + jwt_header \<times> claims" where
  "jwt_payload K now header_b64 payload_b64 =
     (case b64_decode K header_b64 of
        None \<Rightarrow> Inl Base64DecodeError
      | Some hj \<Rightarrow>
          (case header_of K hj of
             None \<Rightarrow> Inl InvalidJson
           | Some header \<Rightarrow>
               if h_alg header \<noteq> ''HS256'' then Inl InvalidFormat
               else
                 (case b64_decode K payload_b64 of
                    None \<Rightarrow> Inl Base64DecodeError
                  | Some pj \<Rightarrow>
                      (case check_times K now pj of
                         Some e \<Rightarrow> Inl e
                       | None \<Rightarrow>
                           (case claims_of K pj of
                              None \<Rightarrow> Inl InvalidJson
                            | Some payload \<Rightarrow> Inr (header, payload))))))"

definition jwt_decode :: "crypto \<Rightarrow> i64 \<Rightarrow> string \<Rightarrow> string \<Rightarrow> jwt_error + jwt_header \<times> claims" where
  "jwt_decode K now token secret =
     (case split_on (CHR ''.'') token of
        [header_b64, payload_b64, signature_b64] \<Rightarrow>
          (case b64_decode K signature_b64 of
             None \<Rightarrow> Inl Base64DecodeError
           | Some signature \<Rightarrow>
               if hmac_sha256 K secret (header_b64 @ ''.'' @ payload_b64) = signature
               then jwt_payload K now header_b64 payload_b64
               else Inl InvalidSignature)
      | _ \<Rightarrow> Inl InvalidFormat)"

lemma jwt_issued:
  assumes "lawful_crypto K" "i64_range (issued + ttl)"
  shows "jwt_decode K now (jwt_issue K issued sub ttl secret) secret =
    (if now < issued + ttl
     then Inr (hs256_header, \<lparr>cl_sub = sub, cl_iat = issued, cl_exp = issued + ttl\<rparr>)
     else Inl Expired)"
proof -
  let ?c = "\<lparr>cl_sub = sub, cl_iat = issued, cl_exp = issued + ttl\<rparr>"
  have "split_on (CHR ''.'') (jwt_encode K ?c secret) =
      [b64_encode K (header_json K hs256_header), b64_encode K (claims_json K ?c),
       b64_encode K (hmac_sha256 K secret (b64_encode K (header_json K hs256_header) @ ''.'' @ b64_encode K (claims_json K ?c)))]"
    using assms(1) by (simp add: jwt_encode_def Let_def lawful_crypto_def split_on_append split_on_none)
  then show ?thesis
    using assms
    by (simp add: jwt_issue_def jwt_decode_def jwt_payload_def check_times_def lawful_crypto_def hs256_header_def)
qed

text \<open>A token that was issued authenticates exactly its subject while it is valid, and is
  expired from its last second on.\<close>

theorem issued_token_authenticates:
  assumes "lawful_crypto K" "i64_range (issued + ttl)"
  shows "jwt_decode K now (jwt_issue K issued sub ttl secret) secret =
    (if now < issued + ttl
     then Inr (hs256_header, \<lparr>cl_sub = sub, cl_iat = issued, cl_exp = issued + ttl\<rparr>)
     else Inl Expired)"
  using assms by (rule jwt_issued)

text \<open>Only a token whose third part is the signature of the first two under the secret is
  accepted, and never after its expiry.\<close>

theorem accepted_token_is_signed:
  assumes "jwt_decode K now token secret = Inr (header, payload)"
  shows "\<exists>a b c. split_on (CHR ''.'') token = [a, b, c] \<and>
    b64_decode K c = Some (hmac_sha256 K secret (a @ ''.'' @ b)) \<and> h_alg header = ''HS256'' \<and>
    (\<exists>pj. b64_decode K b = Some pj \<and> claims_of K pj = Some payload \<and>
       (\<forall>e. json_i64 K ''exp'' pj = Some e \<longrightarrow> now < e))"
  using assms
  by (auto simp: jwt_decode_def jwt_payload_def check_times_def
      split: list.splits option.splits if_splits)

section \<open>Errors of handlers\<close>

text \<open>An answer that is an error: the status and the key of the localized message.\<close>

datatype localized_error = LocalizedError (err_status: nat) (err_key: string)

definition service_error_key :: "service_error \<Rightarrow> string" where
  "service_error_key e =
     (case e of
        Repo (Connection _) \<Rightarrow> ''server-db-connection-failed''
      | Repo NotFound \<Rightarrow> ''ctf-challenge-not-found''
      | Repo (Conflict key) \<Rightarrow> key
      | Repo (Internal _) \<Rightarrow> ''admin-db-internal-error''
      | Unauthorized \<Rightarrow> ''auth-not-logged-in''
      | InvalidRequest key \<Rightarrow> key
      | RateLimitExceeded \<Rightarrow> ''ctf-rate-limit-exceeded''
      | OAuth _ \<Rightarrow> ''oauth-invalid-credentials''
      | Kube _ \<Rightarrow> ''kube-api-error'')"

definition service_error_status :: "service_error \<Rightarrow> nat" where
  "service_error_status e =
     (case e of
        Unauthorized \<Rightarrow> 401
      | InvalidRequest _ \<Rightarrow> 400
      | OAuth _ \<Rightarrow> 400
      | Repo _ \<Rightarrow> 500
      | Kube _ \<Rightarrow> 500
      | RateLimitExceeded \<Rightarrow> 429)"

definition map_localized :: "service_error \<Rightarrow> localized_error" where
  "map_localized e = LocalizedError (service_error_status e) (service_error_key e)"

section \<open>Extractors\<close>

text \<open>
  A request's headers in order, names in lower case; \<open>to_str\<close> refuses bytes that are not
  visible ASCII, space or tab.
\<close>

type_synonym headers = "(string \<times> string) list"

definition header_str :: "string \<Rightarrow> string option" where
  "header_str v =
     (if list_all (\<lambda>c. let b = (of_char c :: int) in b = 9 \<or> (32 \<le> b \<and> b < 127)) v then Some v else None)"

definition get_header :: "headers \<Rightarrow> string \<Rightarrow> string option" where
  "get_header hs name = (case map_of hs name of None \<Rightarrow> None | Some v \<Rightarrow> header_str v)"

definition authenticated_user ::
    "crypto \<Rightarrow> i64 \<Rightarrow> string \<Rightarrow> headers \<Rightarrow> localized_error + account_id" where
  "authenticated_user K now secret hs =
     (case get_header hs ''authorization'' of
        None \<Rightarrow> Inl (LocalizedError 401 ''auth-missing-header'')
      | Some auth_header \<Rightarrow>
          if take 7 auth_header \<noteq> ''Bearer '' then Inl (LocalizedError 401 ''auth-invalid-scheme'')
          else
            (case jwt_decode K now (drop 7 auth_header) secret of
               Inl _ \<Rightarrow> Inl (LocalizedError 401 ''auth-invalid-token'')
             | Inr (_, claims) \<Rightarrow> Inr (AccountId (cl_sub claims))))"

definition optional_user :: "crypto \<Rightarrow> i64 \<Rightarrow> string \<Rightarrow> headers \<Rightarrow> account_id option" where
  "optional_user K now secret hs =
     (case authenticated_user K now secret hs of Inl _ \<Rightarrow> None | Inr a \<Rightarrow> Some a)"

definition admin_user ::
    "crypto \<Rightarrow> i64 \<Rightarrow> string \<Rightarrow> 's account_repo \<Rightarrow> headers \<Rightarrow> ('s, localized_error, account_id) act" where
  "admin_user K now secret AR hs =
     (case authenticated_user K now secret hs of
        Inl e \<Rightarrow> fail e
      | Inr a \<Rightarrow>
          try_await (attempt (ar_find_by_id AR a)) (\<lambda>found.
          case found of
            Inr (Some account) \<Rightarrow>
              if acc_role account = Admin then ret a
              else fail (LocalizedError 403 ''auth-admin-required'')
          | _ \<Rightarrow> fail (map_localized Unauthorized)))"

definition nonempty :: "string option \<Rightarrow> string option" where
  "nonempty x = (case x of Some s \<Rightarrow> if s = [] then None else Some s | None \<Rightarrow> None)"

text \<open>The client's address: from the proxy's headers only when they are trusted.\<close>

definition client_ip :: "bool \<Rightarrow> headers \<Rightarrow> string option \<Rightarrow> string" where
  "client_ip trust_proxy hs peer =
     (let forwarded =
            nonempty (map_option (\<lambda>s. trim (last (split_on (CHR '','') s)))
              (get_header hs ''x-forwarded-for''));
          real_ip = nonempty (map_option trim (get_header hs ''x-real-ip''));
          connection = (case peer of Some ip \<Rightarrow> ip | None \<Rightarrow> ''127.0.0.1'')
      in if trust_proxy then
           (case forwarded of
              Some ip \<Rightarrow> ip
            | None \<Rightarrow> (case real_ip of Some ip \<Rightarrow> ip | None \<Rightarrow> connection))
         else connection)"


lemma split_on_last:
  "d \<notin> set b \<Longrightarrow> last (split_on d (a @ d # b)) = b"
proof -
  assume "d \<notin> set b"
  moreover have "split_on d (a @ d # b) = split_on d a @ split_on d b"
    by (induction a) (auto split: list.splits)
  ultimately show ?thesis by (simp add: split_on_none)
qed

text \<open>Behind a trusted proxy the address is the one the proxy appended: whatever a client puts
  before it in the header makes no difference.\<close>

theorem forwarded_address_not_spoofable:
  assumes "CHR '','' \<notin> set ip" "trim ip \<noteq> []" "header_str (spoofed @ '','' @ ip) = Some (spoofed @ '','' @ ip)"
  shows "client_ip True ((''x-forwarded-for'', spoofed @ '','' @ ip) # hs) peer = trim ip"
  using assms by (simp add: client_ip_def get_header_def nonempty_def Let_def split_on_last)

end
