(* ===== verification/App.thy ===== *)
theory App
  imports Platform Access
begin

text \<open>
  The HTTP handlers, \<open>src/src/libs/api\<close>: flag submission with its rate limits, visibility gate
  and broadcast (\<open>solve.rs\<close>), hint unlock (\<open>hints.rs\<close>), invites and joining (\<open>teams.rs\<close>,
  \<open>brackets.rs\<close>), and the public view of challenges (\<open>challenges.rs\<close>). A handler is an
  action over the running process: the database, the rate limiter's memory and the
  notifications sent to the broadcast channel. What a handler answers is its value or the
  status and message key of its error; fresh identifiers are arguments.
\<close>

section \<open>The process\<close>

record 'j world =
  w_db :: "'j db"
  w_limiter :: limiter
  w_sent :: "notification list"

definition on_db :: "('j db, 'e, 'a) act \<Rightarrow> ('j world, 'e, 'a) act" where
  "on_db m = (\<lambda>w. case m (w_db w) of (r, db') \<Rightarrow> (r, w\<lparr>w_db := db'\<rparr>))"

definition broadcast :: "notification \<Rightarrow> ('j world, 'e, unit) act" where
  "broadcast n = (\<lambda>w. (Inr (), w\<lparr>w_sent := w_sent w @ [n]\<rparr>))"

definition now_is :: "('j world, 'e, i64) act" where
  "now_is = (\<lambda>w. (Inr (db_clock (w_db w)), w))"

text \<open>The configuration \<open>main\<close> builds the services from.\<close>

record 'j app =
  ap_serde :: "'j serde"
  ap_ext :: ext
  ap_crypto :: crypto
  ap_jwt_secret :: string
  ap_hint_mode :: hint_deduction_mode
  ap_notifications :: notification_config
  ap_brackets :: "string \<rightharpoonup> string"

definition find_account ::
    "'j app \<Rightarrow> account_id \<Rightarrow> ('j world, 'e, repo_error + account option) act" where
  "find_account A a = attempt (on_db (pg_account_by_id (ap_serde A) a))"

definition localized :: "('s, service_error, 'a) act \<Rightarrow> ('s, localized_error, 'a) act" where
  "localized m = map_err map_localized m"

section \<open>Flag submission\<close>

definition limit_call :: "string \<Rightarrow> nat \<Rightarrow> ('j world, localized_error, unit) act" where
  "limit_call key limit = (\<lambda>w.
     case check_limit key limit 60 (db_clock (w_db w)) (w_limiter w) of
       (ok, requests) \<Rightarrow>
         (if ok then Inr () else Inl (map_localized RateLimitExceeded), w\<lparr>w_limiter := requests\<rparr>))"

definition replace_char :: "char \<Rightarrow> string \<Rightarrow> string \<Rightarrow> string" where
  "replace_char c r s = concat (map (\<lambda>x. if x = c then r else [x]) s)"

definition escape_html :: "string \<Rightarrow> string" where
  "escape_html s =
     replace_char (CHR ''>'') ''&gt;''
       (replace_char (CHR ''<'') ''&lt;'' (replace_char (CHR ''&'') ''&amp;'' s))"

definition first_blood :: "string \<Rightarrow> submission list \<Rightarrow> bool" where
  "first_blood cid subs \<longleftrightarrow>
     card (set (map solver_id (filter (\<lambda>s. sub_is_correct s \<and> sub_challenge_id s = cid) subs))) \<le> 1"

definition challenge_title_or_id ::
    "'j app \<Rightarrow> string \<Rightarrow> ('j world, 'e, string) act" where
  "challenge_title_or_id A cid =
     try_await (attempt (on_db (pg_challenge_by_id (ap_serde A) cid))) (\<lambda>found.
       ret (case found of Inr (Some c) \<Rightarrow> ch_title c | _ \<Rightarrow> cid))"

definition solver_name :: "'j app \<Rightarrow> submission \<Rightarrow> ('j world, 'e, string) act" where
  "solver_name A sub =
     (case sub_team_id sub of
        Some t \<Rightarrow>
          try_await (attempt (on_db (pg_team_by_id (ap_serde A) t))) (\<lambda>found.
            ret (case found of Inr (Some tm) \<Rightarrow> team_name_str (team_name tm) | _ \<Rightarrow> team_str t))
      | None \<Rightarrow>
          try_await (find_account A (sub_account_id sub)) (\<lambda>found.
            ret (case found of Inr (Some a) \<Rightarrow> acc_name_str (acc_username a)
                 | _ \<Rightarrow> acc_str (sub_account_id sub))))"

definition maybe_broadcast_solve ::
    "'j app \<Rightarrow> string \<Rightarrow> submission \<Rightarrow> ('j world, 'e, unit) act" where
  "maybe_broadcast_solve A new_id sub =
     (let cfg = ap_notifications A in
      if \<not> broadcast_solves cfg \<and> \<not> broadcast_first_bloods cfg then ret ()
      else
        try_await (attempt (on_db pg_submissions_all)) (\<lambda>found.
        let subs = (case found of Inr xs \<Rightarrow> xs | Inl _ \<Rightarrow> []);
            blood = first_blood (sub_challenge_id sub) subs
        in
        if \<not> (if blood then broadcast_first_bloods cfg else broadcast_solves cfg) then ret ()
        else
          try_await (challenge_title_or_id A (sub_challenge_id sub)) (\<lambda>title.
          try_await (solver_name A sub) (\<lambda>solver.
          try_await now_is (\<lambda>now.
          broadcast
            \<lparr>nt_id = NotificationId new_id, nt_kind = (if blood then FirstBlood else SolveKind),
             nt_title = (if blood then ''First blood!'' else ''New solve''),
             nt_message = HtmlString (escape_html solver @ '' '' @
               (if blood then ''drew first blood on'' else ''solved'') @ '' '' @ escape_html title),
             nt_target = Everyone, nt_created_at = now\<rparr>)))))"

text \<open>The gate before the service: only administrators submit to a challenge that is not visible.\<close>

definition visibility_gate ::
    "'j app \<Rightarrow> account \<Rightarrow> string \<Rightarrow> ('j world, localized_error, unit) act" where
  "visibility_gate A account cid =
     (if acc_role account = Admin then ret ()
      else
        try_await (attempt (on_db (pg_challenge_by_id (ap_serde A) cid))) (\<lambda>found.
          case found of
            Inr (Some c) \<Rightarrow>
              if ch_visibility c \<noteq> Visible then fail (LocalizedError 403 ''ctf-challenge-locked'')
              else ret ()
          | _ \<Rightarrow> ret ()))"

definition api_submit_flag ::
    "'j app \<Rightarrow> string \<Rightarrow> string \<Rightarrow> account_id \<Rightarrow> string \<Rightarrow> string \<Rightarrow> string \<Rightarrow>
     ('j world, localized_error, submission) act" where
  "api_submit_flag A new_id note_id user ip cid flag =
     try_await (limit_call (''sub-ip:'' @ ip) 10) (\<lambda>_.
     try_await (limit_call (''sub-acc:'' @ acc_str user) 10) (\<lambda>_.
     try_await (find_account A user) (\<lambda>found.
     case found of
       Inr (Some account) \<Rightarrow>
         try_await (visibility_gate A account cid) (\<lambda>_.
         try_await now_is (\<lambda>now.
         try_await
           (localized (on_db (submit_flag (ap_ext A) (pg_solve_service (ap_serde A)) new_id now cid
              (acc_team_id account) user flag ip))) (\<lambda>submission.
         try_await (maybe_broadcast_solve A note_id submission) (\<lambda>_. ret submission))))
     | _ \<Rightarrow> fail (map_localized Unauthorized))))"

section \<open>Hints\<close>

definition api_unlock_hint ::
    "'j app \<Rightarrow> string \<Rightarrow> account_id \<Rightarrow> string \<Rightarrow> u32 \<Rightarrow>
     ('j world, localized_error, hint_unlock_result) act" where
  "api_unlock_hint A new_id user cid hint_index =
     try_await (find_account A user) (\<lambda>found.
     case found of
       Inr (Some account) \<Rightarrow>
         try_await now_is (\<lambda>now.
         localized (on_db (unlock_hint (ap_ext A) (pg_hint_service (ap_serde A) (ap_hint_mode A))
           new_id cid hint_index (acc_team_id account) user now (acc_role account = Admin))))
     | _ \<Rightarrow> fail (map_localized Unauthorized))"

section \<open>Invites\<close>

definition invite_message :: "string \<Rightarrow> i64 \<Rightarrow> string" where
  "invite_message team expires_at = team @ '':'' @ show_i64 expires_at"

definition generate_invite_token :: "crypto \<Rightarrow> string \<Rightarrow> i64 \<Rightarrow> string \<Rightarrow> string" where
  "generate_invite_token K team expires_at secret =
     (let message = invite_message team expires_at;
          signature = b64_encode K (hmac_sha256 K secret message)
      in team @ '':'' @ show_i64 expires_at @ '':'' @ signature)"

definition verify_invite_token ::
    "crypto \<Rightarrow> i64 \<Rightarrow> string \<Rightarrow> string \<Rightarrow> (string \<times> i64) option" where
  "verify_invite_token K now token secret =
     (case split_on (CHR '':'') token of
        [team, expires_at_str, signature_base64] \<Rightarrow>
          (case parse_i64 expires_at_str of
             None \<Rightarrow> None
           | Some expires_at \<Rightarrow>
               if now > expires_at then None
               else
                 (case b64_decode K signature_base64 of
                    None \<Rightarrow> None
                  | Some provided_sig \<Rightarrow>
                      if hmac_sha256 K secret (invite_message team expires_at) = provided_sig
                      then Some (team, expires_at) else None))
      | _ \<Rightarrow> None)"

definition clamp :: "i64 \<Rightarrow> i64 \<Rightarrow> i64 \<Rightarrow> i64" where
  "clamp lo hi x = max lo (min hi x)"

definition api_create_invite ::
    "'j app \<Rightarrow> account_id \<Rightarrow> string \<Rightarrow> i64 option \<Rightarrow> ('j world, localized_error, string \<times> i64) act" where
  "api_create_invite A user team lifespan_hours =
     try_await (attempt (on_db (pg_team_by_id (ap_serde A) (TeamId team)))) (\<lambda>found.
     case found of
       Inr (Some tm) \<Rightarrow>
         if team_captain_id tm \<noteq> user then fail (LocalizedError 403 ''ctf-not-captain'')
         else
           try_await now_is (\<lambda>now.
           let lifespan = clamp 1 168 (case lifespan_hours of Some h \<Rightarrow> h | None \<Rightarrow> 24);
               expires_at = wrap_i64 (now + lifespan * 3600)
           in ret (generate_invite_token (ap_crypto A) (team_str (team_id tm)) expires_at (ap_jwt_secret A),
                   expires_at))
     | _ \<Rightarrow> fail (LocalizedError 404 ''ctf-team-not-found''))"

text \<open>The bracket's script, on an engine without limits for arrays and maps.\<close>

definition bracket_engine :: rhai_engine where
  "bracket_engine =
     \<lparr>max_operations = 100000, max_call_levels = 32, max_expr_depths = (64, 64),
      max_string_size = 16 * 1024, max_array_size = None, max_map_size = None\<rparr>"

definition validate_bracket_join_rhai :: "ext \<Rightarrow> string \<Rightarrow> string \<Rightarrow> string \<Rightarrow> bool" where
  "validate_bracket_join_rhai X email username script =
     (case rhai_bool X bracket_engine [(''email'', RStr email), (''username'', RStr username)] script of
        Some is_allowed \<Rightarrow> is_allowed
      | None \<Rightarrow> False)"

definition bracket_allows :: "'j app \<Rightarrow> team \<Rightarrow> account \<Rightarrow> bool" where
  "bracket_allows A tm account =
     (case ap_brackets A (team_bracket tm) of
        None \<Rightarrow> True
      | Some script \<Rightarrow>
          validate_bracket_join_rhai (ap_ext A)
            (case acc_email account of Some e \<Rightarrow> email_str e | None \<Rightarrow> [])
            (acc_name_str (acc_username account)) script)"

definition add_member :: "'j app \<Rightarrow> account_id \<Rightarrow> team \<Rightarrow> ('j world, 'e, unit) act" where
  "add_member A user tm =
     (if user \<notin> set (team_member_ids tm) then
        try_await (attempt (on_db (pg_team_update (ap_serde A)
            (tm\<lparr>team_member_ids := team_member_ids tm @ [user]\<rparr>)))) (\<lambda>_. ret ())
      else ret ())"

definition join_as ::
    "'j app \<Rightarrow> account_id \<Rightarrow> team \<Rightarrow> account \<Rightarrow> ('j world, localized_error, unit) act" where
  "join_as A user tm account =
     (if \<not> bracket_allows A tm account
      then fail (LocalizedError 403 ''ctf-bracket-domain-restricted'')
      else
        try_await (attempt (on_db (pg_account_update (ap_serde A)
            (account\<lparr>acc_team_id := Some (team_id tm)\<rparr>)))) (\<lambda>updated.
        case updated of
          Inl _ \<Rightarrow> fail (LocalizedError 500 [])
        | Inr _ \<Rightarrow> add_member A user tm))"

definition api_join_team ::
    "'j app \<Rightarrow> account_id \<Rightarrow> string \<Rightarrow> ('j world, localized_error, unit) act" where
  "api_join_team A user token =
     try_await now_is (\<lambda>now.
     case verify_invite_token (ap_crypto A) now token (ap_jwt_secret A) of
       None \<Rightarrow> fail (LocalizedError 400 ''ctf-invalid-invite-token'')
     | Some (t, _) \<Rightarrow>
         try_await (attempt (on_db (pg_team_by_id (ap_serde A) (TeamId t)))) (\<lambda>found_team.
         case found_team of
           Inr (Some tm) \<Rightarrow>
             try_await (find_account A user) (\<lambda>found.
             case found of
               Inr (Some account) \<Rightarrow> join_as A user tm account
             | _ \<Rightarrow> fail (LocalizedError 401 []))
         | _ \<Rightarrow> fail (LocalizedError 404 ''ctf-team-not-found'')))"

section \<open>The public view of challenges\<close>

record public_hint =
  ph_cost :: u32
  ph_unlocked :: bool
  ph_content :: "html_string option"

record public_challenge =
  pc_id :: string
  pc_title :: string
  pc_description :: html_string
  pc_category :: string
  pc_points :: "u32 option"
  pc_tags :: "string list"
  pc_files :: "challenge_file list"
  pc_hints :: "public_hint list"
  pc_requirements :: "challenge_requirement list"
  pc_connection_info :: "string option"
  pc_solved :: bool
  pc_locked :: bool

definition challenge_solve_counts :: "submission list \<Rightarrow> (string \<rightharpoonup> string set)" where
  "challenge_solve_counts submissions =
     fold (\<lambda>sub counts.
       if sub_is_correct sub then
         counts(sub_challenge_id sub \<mapsto>
           insert (case sub_team_id sub of Some t \<Rightarrow> team_str t | None \<Rightarrow> acc_str (sub_account_id sub))
             (case counts (sub_challenge_id sub) of Some B \<Rightarrow> B | None \<Rightarrow> {}))
       else counts) submissions Map.empty"

definition current_points :: "challenge \<Rightarrow> u32 \<Rightarrow> u32" where
  "current_points ch solves =
     (case pts_mode (ch_points ch) of
        PointValue \<Rightarrow> fixed_points ch
      | PointAttribution \<Rightarrow> fixed_points ch
      | DynamicDecay i m d \<Rightarrow> calculate_dynamic_points i m d (max solves 1))"

definition viewer_made :: "team_id option \<Rightarrow> account_id \<Rightarrow> submission \<Rightarrow> bool" where
  "viewer_made tm acct s =
     (case tm of Some t \<Rightarrow> sub_team_id s = Some t | None \<Rightarrow> sub_account_id s = acct)"

definition challenge_solved_by :: "string \<Rightarrow> submission list \<Rightarrow> team_id option \<Rightarrow> account_id \<Rightarrow> bool" where
  "challenge_solved_by cid submissions tm acct =
     list_ex (\<lambda>s. sub_is_correct s \<and> sub_challenge_id s = cid \<and> viewer_made tm acct s) submissions"

definition viewer_solved_ids :: "submission list \<Rightarrow> team_id option \<Rightarrow> account_id \<Rightarrow> string set" where
  "viewer_solved_ids submissions tm acct =
     set (map sub_challenge_id
       (filter (\<lambda>s. sub_is_correct s \<and> viewer_made tm acct s) submissions))"

definition requirements_met :: "challenge \<Rightarrow> string set \<Rightarrow> bool" where
  "requirements_met ch solved = list_all (requirement_in solved) (ch_requirements ch)"

definition shown :: "locked_reveal option \<Rightarrow> (locked_reveal \<Rightarrow> bool) \<Rightarrow> bool" where
  "shown reveal pick = (case reveal of None \<Rightarrow> True | Some r \<Rightarrow> pick r)"

definition public_hint_of :: "ext \<Rightarrow> i64 \<Rightarrow> u32 \<Rightarrow> u32 set \<Rightarrow> nat \<Rightarrow> challenge_hint \<Rightarrow> public_hint" where
  "public_hint_of X now solves unlocked i h =
     (let is_unlocked = (of_nat i \<in> unlocked)
      in \<lparr>ph_cost = hint_cost_evaluate X (hint_price h) solves now, ph_unlocked = is_unlocked,
          ph_content = (if is_unlocked then Some (hint_content h) else None)\<rparr>)"

definition to_public_challenge ::
    "ext \<Rightarrow> i64 \<Rightarrow> challenge \<Rightarrow> u32 \<Rightarrow> bool \<Rightarrow> u32 set \<Rightarrow> locked_reveal option \<Rightarrow> public_challenge" where
  "to_public_challenge X now ch solves solved unlocked reveal =
     \<lparr>pc_id = ch_id ch, pc_title = ch_title ch,
      pc_description = (if shown reveal rv_description then ch_description ch else HtmlString []),
      pc_category = (if shown reveal rv_category then ch_category ch else []),
      pc_points = (if shown reveal rv_points then Some (current_points ch solves) else None),
      pc_tags = (if shown reveal rv_tags then ch_tags ch else []),
      pc_files = (if shown reveal rv_files then ch_files ch else []),
      pc_hints =
        (if shown reveal rv_hints
         then map (\<lambda>(i, h). public_hint_of X now solves unlocked i h) (enumerate 0 (ch_hints ch))
         else []),
      pc_requirements = (if shown reveal rv_requirements then ch_requirements ch else []),
      pc_connection_info =
        (if shown reveal rv_connection_info
         then (case ch_deployment ch of Shared url \<Rightarrow> Some url | _ \<Rightarrow> None) else None),
      pc_solved = solved, pc_locked = (reveal \<noteq> None)\<rparr>"

definition reveal_for :: "bool \<Rightarrow> challenge \<Rightarrow> string set \<Rightarrow> locked_reveal option" where
  "reveal_for is_admin ch solved_ids =
     (if is_admin then None
      else case ch_visibility ch of
             Locked r \<Rightarrow> Some r
           | _ \<Rightarrow> if \<not> requirements_met ch solved_ids then Some default_reveal else None)"

definition unlocked_indexes :: "hint_unlock list \<Rightarrow> string \<Rightarrow> u32 set" where
  "unlocked_indexes unlocks cid =
     set (map hu_hint_index (filter (\<lambda>u. hu_challenge_id u = cid) unlocks))"

definition public_view ::
    "ext \<Rightarrow> i64 \<Rightarrow> submission list \<Rightarrow> hint_unlock list \<Rightarrow> team_id option \<Rightarrow> account_id \<Rightarrow> bool \<Rightarrow>
     challenge \<Rightarrow> public_challenge" where
  "public_view X now subs unlocks tm acct is_admin ch =
     to_public_challenge X now ch (solve_count_of (challenge_solve_counts subs) ch)
       (challenge_solved_by (ch_id ch) subs tm acct) (unlocked_indexes unlocks (ch_id ch))
       (reveal_for is_admin ch (viewer_solved_ids subs tm acct))"

definition or_empty :: "'e + 'a list \<Rightarrow> 'a list" where
  "or_empty r = (case r of Inl _ \<Rightarrow> [] | Inr xs \<Rightarrow> xs)"

definition team_of_found :: "'e + account option \<Rightarrow> team_id option" where
  "team_of_found r = (case r of Inr (Some a) \<Rightarrow> acc_team_id a | _ \<Rightarrow> None)"

definition is_admin_found :: "'e + account option \<Rightarrow> bool" where
  "is_admin_found r = (case r of Inr (Some a) \<Rightarrow> acc_role a = Admin | _ \<Rightarrow> False)"

definition repo_failed :: "repo_error \<Rightarrow> localized_error" where
  "repo_failed e = LocalizedError 500 (service_error_key (Repo e))"

definition api_list_challenges ::
    "'j app \<Rightarrow> account_id \<Rightarrow> ('j world, localized_error, public_challenge list) act" where
  "api_list_challenges A user =
     try_await (find_account A user) (\<lambda>found1.
     try_await (map_err repo_failed (on_db (pg_challenges_all (ap_serde A)))) (\<lambda>challenges.
     try_await (attempt (on_db pg_submissions_all)) (\<lambda>subs.
     try_await (attempt (on_db (viewer_unlocks (pg_hint_service (ap_serde A) (ap_hint_mode A))
         (team_of_found found1) user))) (\<lambda>unlocks.
     try_await (find_account A user) (\<lambda>found.
     try_await now_is (\<lambda>now.
     ret (map (public_view (ap_ext A) now (or_empty subs) (or_empty unlocks) (team_of_found found) user
            (is_admin_found found))
       (filter (\<lambda>ch. is_admin_found found \<or> ch_visibility ch \<noteq> Hidden) challenges))))))))"

definition api_get_challenge ::
    "'j app \<Rightarrow> account_id \<Rightarrow> string \<Rightarrow> ('j world, localized_error, public_challenge) act" where
  "api_get_challenge A user cid =
     try_await (find_account A user) (\<lambda>found1.
     try_await (map_err repo_failed (on_db (pg_challenge_by_id (ap_serde A) cid))) (\<lambda>found_ch.
     case found_ch of
       None \<Rightarrow> fail (LocalizedError 404 ''ctf-challenge-not-found'')
     | Some ch \<Rightarrow>
         try_await (attempt (on_db pg_submissions_all)) (\<lambda>subs.
         try_await (attempt (on_db (viewer_unlocks (pg_hint_service (ap_serde A) (ap_hint_mode A))
             (team_of_found found1) user))) (\<lambda>unlocks.
         try_await (find_account A user) (\<lambda>found.
         if \<not> is_admin_found found \<and> ch_visibility ch = Hidden
         then fail (LocalizedError 404 ''ctf-challenge-not-found'')
         else
           try_await now_is (\<lambda>now.
           ret (to_public_challenge (ap_ext A) now ch
             (of_nat (case challenge_solve_counts (or_empty subs) cid of Some B \<Rightarrow> card B | None \<Rightarrow> 0))
             (challenge_solved_by cid (or_empty subs) (team_of_found found1) user)
             (unlocked_indexes (or_empty unlocks) cid)
             (reveal_for (is_admin_found found) ch
               (viewer_solved_ids (or_empty subs) (team_of_found found1) user)))))))))"

definition api_create_challenge ::
    "'j app \<Rightarrow> challenge \<Rightarrow> ('j world, localized_error, challenge) act" where
  "api_create_challenge A ch =
     try_await (map_err repo_failed (on_db (pg_challenge_save (ap_serde A) ch))) (\<lambda>_. ret ch)"

definition api_update_challenge ::
    "'j app \<Rightarrow> string \<Rightarrow> challenge \<Rightarrow> ('j world, localized_error, challenge) act" where
  "api_update_challenge A cid ch =
     (let ch' = ch\<lparr>ch_id := cid\<rparr> in
      try_await (map_err repo_failed (on_db (pg_challenge_update (ap_serde A) ch'))) (\<lambda>_. ret ch'))"

definition api_delete_challenge ::
    "string \<Rightarrow> bool \<Rightarrow> ('j world, localized_error, unit) act" where
  "api_delete_challenge cid delete_solves =
     map_err repo_failed (on_db (pg_challenge_delete cid delete_solves))"

end
