(* ===== verification/Handlers.thy ===== *)
theory Handlers
  imports App
begin

text \<open>
  What the handlers of App promise: who a submission is stored for, what the visibility gate
  and the rate limits refuse, what an invite is good for, and what the public view of a
  challenge shows to whom.
\<close>

section \<open>The parts of a handler\<close>

lemma on_db_cases:
  assumes "on_db m w = (r, w')"
  obtains db' where "m (w_db w) = (r, db')" "w' = w\<lparr>w_db := db'\<rparr>"
  using assms by (auto simp: on_db_def split: prod.splits)

lemma on_db_eq: "m (w_db w) = (r, db') \<Longrightarrow> on_db m w = (r, w\<lparr>w_db := db'\<rparr>)"
  by (simp add: on_db_def)

lemma now_is_eq [simp]: "now_is w = (Inr (db_clock (w_db w)), w)"
  by (simp add: now_is_def)

lemma keeps_on_db: "keeps v m \<Longrightarrow> keeps (\<lambda>w. (v (w_db w), w_limiter w, w_sent w)) (on_db m)"
  by (auto elim!: on_db_cases intro!: keepsI dest: keepsD)

lemma keeps_now_is [simp, intro]: "keeps v now_is"
  by (simp add: keeps_def)

text \<open>The tables, the limiter and the messages sent.\<close>

abbreviation seen :: "'j world \<Rightarrow> 'j db \<times> limiter \<times> notification list" where
  "seen w \<equiv> (tables_of (w_db w), w_limiter w, w_sent w)"

lemma reads_seen [frame]:
  "keeps tables_of m \<Longrightarrow> keeps seen (on_db m)"
  by (rule keeps_on_db)

lemma account_by_id_keeps [frame]: "keeps tables_of (pg_account_by_id J a)"
  unfolding pg_account_by_id_def by (intro keeps_try_await fetch_optional_keeps decoded_opt_keeps)

lemma find_account_keeps [frame]: "keeps seen (find_account A a)"
  unfolding find_account_def by (intro keeps_attempt reads_seen account_by_id_keeps)

lemma find_account_eq:
  "pg_account_by_id (ap_serde A) a (w_db w) = (r, db') \<Longrightarrow>
     find_account A a w = (Inr r, w\<lparr>w_db := db'\<rparr>)"
  by (simp add: find_account_def attempt_eq on_db_def)

lemma find_account_cases:
  assumes "find_account A a w = (r, w')"
  obtains found db' where "pg_account_by_id (ap_serde A) a (w_db w) = (found, db')"
    "r = Inr found" "w' = w\<lparr>w_db := db'\<rparr>"
  using assms unfolding find_account_def attempt_eq by (auto elim: on_db_cases)

lemma limit_call_cases:
  assumes "limit_call key limit w = (r, w')"
  obtains (allowed) requests where "r = Inr ()" "w' = w\<lparr>w_limiter := requests\<rparr>"
  | (refused) requests where "r = Inl (map_localized RateLimitExceeded)" "w' = w\<lparr>w_limiter := requests\<rparr>"
  using assms by (auto simp: limit_call_def split: prod.splits if_splits)

lemma map_localized_status [simp]:
  "err_status (map_localized RateLimitExceeded) = 429" "err_status (map_localized Unauthorized) = 401"
  by (simp_all add: map_localized_def service_error_status_def)

text \<open>
  The broadcast after a solve: its reads are quiet (they change nothing seen and their errors
  are values), and it sends at most one message.
\<close>

definition quiet :: "('j world, 'e, 'a) act \<Rightarrow> bool" where
  "quiet m \<longleftrightarrow> keeps seen m \<and> (\<forall>w. \<not> isl (fst (m w)))"

definition posts_once :: "('j world, 'e, unit) act \<Rightarrow> bool" where
  "posts_once m \<longleftrightarrow>
     (\<forall>w. \<exists>ns. m w = (Inr (), snd (m w)) \<and> seen (snd (m w)) = (tables_of (w_db w), w_limiter w, w_sent w @ ns) \<and> length ns \<le> 1)"

lemma quiet_ret [intro]: "quiet (ret x)"
  by (simp add: quiet_def)

lemma quiet_now [intro]: "quiet now_is"
  by (simp add: quiet_def)

lemma quiet_attempt [intro]: "keeps tables_of m \<Longrightarrow> quiet (attempt (on_db m))"
  unfolding quiet_def by (intro conjI keeps_attempt reads_seen) (auto simp: attempt_def split: prod.split)

lemma quiet_try_await [intro]: "quiet m \<Longrightarrow> (\<And>x. quiet (k x)) \<Longrightarrow> quiet (try_await m k)"
  unfolding quiet_def
  by (intro conjI keeps_try_await) (auto simp: try_await_def split: prod.split sum.split dest: spec, metis fst_conv sum.disc(1))

lemma posts_ret: "posts_once (ret ())"
  by (simp add: posts_once_def)

lemma posts_broadcast: "posts_once (broadcast n)"
  by (simp add: posts_once_def broadcast_def)

lemma posts_after_quiet:
  assumes "quiet m" "\<And>x. posts_once (k x)"
  shows "posts_once (try_await m k)"
  unfolding posts_once_def
proof
  fix w
  obtain r w1 where m: "m w = (r, w1)" by (cases "m w")
  with assms(1) obtain x where r: "r = Inr x" by (metis quiet_def fst_conv sum.collapse(2))
  have "seen w1 = seen w" using assms(1) m by (auto simp: quiet_def dest: keepsD)
  then show "\<exists>ns. try_await m k w = (Inr (), snd (try_await m k w)) \<and>
      seen (snd (try_await m k w)) = (tables_of (w_db w), w_limiter w, w_sent w @ ns) \<and> length ns \<le> 1"
    using assms(2) [of x, unfolded posts_once_def, rule_format, of w1] by (simp add: try_await_def m r)
qed

lemma find_account_quiet [intro]: "quiet (find_account A a)"
  unfolding find_account_def by (intro quiet_attempt account_by_id_keeps)

lemma title_quiet: "quiet (challenge_title_or_id A cid)"
  unfolding challenge_title_or_id_def by (intro quiet_try_await quiet_attempt quiet_ret pg_reads_keep)

lemma solver_name_quiet: "quiet (solver_name A sub)"
proof (cases "sub_team_id sub")
  case None
  then show ?thesis
    by (simp add: solver_name_def) (intro quiet_try_await find_account_quiet quiet_ret)
next
  case (Some t)
  then show ?thesis
    by (simp add: solver_name_def) (intro quiet_try_await quiet_attempt pg_reads_keep quiet_ret)
qed

lemma posts_if: "posts_once m \<Longrightarrow> posts_once n \<Longrightarrow> posts_once (if b then m else n)"
  by simp

lemma broadcast_posts_once: "posts_once (maybe_broadcast_solve A nid sub)"
  unfolding maybe_broadcast_solve_def Let_def
  by (intro posts_if posts_ret posts_broadcast posts_after_quiet quiet_attempt pg_reads_keep
      title_quiet solver_name_quiet quiet_now)

lemma posts_onceD:
  assumes "posts_once m" "m w = (r, w')"
  obtains ns where "r = Inr ()" "tables_of (w_db w') = tables_of (w_db w)" "w_sent w' = w_sent w @ ns" "length ns \<le> 1"
  using assms(1) [unfolded posts_once_def, rule_format, of w] assms(2) by auto

section \<open>Submitting a flag\<close>

lemma gate_keeps: "keeps seen (visibility_gate A account cid)"
  unfolding visibility_gate_def
  by (intro keeps_if keeps_ret keeps_try_await keeps_attempt reads_seen pg_reads_keep keeps_case_sum
      keeps_case_option keeps_fail)

lemma clock_tables: "tables_of db' = tables_of db \<Longrightarrow> db_clock db' = db_clock db"
  by (drule arg_cong [of _ _ db_clock]) (simp add: tables_of_def)

lemma seen_eq:
  assumes "seen w' = seen w"
  shows "subs_in (w_db w') = subs_in (w_db w)" "chals_in J (w_db w') = chals_in J (w_db w)"
    "unlocks_in (w_db w') = unlocks_in (w_db w)" "teams_in J (w_db w') = teams_in J (w_db w)"
    "w_sent w' = w_sent w" "db_clock (w_db w') = db_clock (w_db w)"
proof -
  have t: "tables_of (w_db w') = tables_of (w_db w)" using assms by simp
  from views_eq [OF t] show "subs_in (w_db w') = subs_in (w_db w)" "chals_in J (w_db w') = chals_in J (w_db w)"
    "unlocks_in (w_db w') = unlocks_in (w_db w)" "teams_in J (w_db w') = teams_in J (w_db w)" by simp_all
  from t show "db_clock (w_db w') = db_clock (w_db w)" by (rule clock_tables)
  from assms show "w_sent w' = w_sent w" by simp
qed

text \<open>How far a submission's request gets.\<close>

lemma limits_cases:
  assumes "try_await (limit_call a n) (\<lambda>_. try_await (limit_call b m) (\<lambda>_. k)) w = (r, w')"
  obtains (limited) requests where "r = Inl (map_localized RateLimitExceeded)" "w' = w\<lparr>w_limiter := requests\<rparr>"
  | (passed) requests where "k (w\<lparr>w_limiter := requests\<rparr>) = (r, w')"
  using assms
  by (elim try_await_cases limit_call_cases) (auto intro: that)

lemma submit_request_cases:
  assumes "api_submit_flag A nid mid user ip cid f w = (r, w')"
  obtains (refused) e where "r = Inl e" "tables_of (w_db w') = tables_of (w_db w)" "w_sent w' = w_sent w"
  | (served) account db1 w2 r3 db3 where
      "pg_account_by_id (ap_serde A) user (w_db w) = (Inr (Some account), db1)"
      "tables_of (w_db w2) = tables_of (w_db w)" "w_sent w2 = w_sent w"
      "submit_flag (ap_ext A) (pg_solve_service (ap_serde A)) nid (db_clock (w_db w)) cid
         (acc_team_id account) user f ip (w_db w2) = (r3, db3)"
      "case r3 of Inl e \<Rightarrow> r = Inl (map_localized e) \<and> w' = w2\<lparr>w_db := db3\<rparr>
       | Inr sub \<Rightarrow> r = Inr sub \<and> maybe_broadcast_solve A mid sub (w2\<lparr>w_db := db3\<rparr>) = (Inr () :: localized_error + unit, w')"
  using assms unfolding api_submit_flag_def
proof (cases rule: limits_cases)
  case (limited requests)
  with that(1) show ?thesis by simp
next
  case (passed requests)
  let ?w1 = "w\<lparr>w_limiter := requests\<rparr>"
  from passed obtain found db1 where acc: "pg_account_by_id (ap_serde A) user (w_db w) = (found, db1)"
    and run: "(case found of Inr (Some account) \<Rightarrow>
         try_await (visibility_gate A account cid) (\<lambda>_.
         try_await now_is (\<lambda>now.
         try_await
           (localized (on_db (submit_flag (ap_ext A) (pg_solve_service (ap_serde A)) nid now cid
              (acc_team_id account) user f ip))) (\<lambda>submission.
         try_await (maybe_broadcast_solve A mid submission) (\<lambda>_. ret submission))))
     | _ \<Rightarrow> fail (map_localized Unauthorized)) (?w1\<lparr>w_db := db1\<rparr>) = (r, w')"
    by (elim try_await_cases find_account_cases) auto
  have db1: "tables_of db1 = tables_of (w_db w)" using keepsD [OF account_by_id_keeps acc] .
  show ?thesis
  proof (cases "\<exists>account. found = Inr (Some account)")
    case False
    with run db1 show ?thesis
      by (intro that(1) [of "map_localized Unauthorized"]) (auto split: sum.splits option.splits)
  next
    case True
    then obtain account where account: "found = Inr (Some account)" ..
    from run [unfolded account, simplified] show ?thesis
    proof (cases rule: try_await_cases)
      case (err e)
      from keepsD [OF gate_keeps err(1)] db1 err(2) show ?thesis by (intro that(1) [of e]) simp_all
    next
      case (ok u w2)
      from keepsD [OF gate_keeps ok(1)] db1 have w2: "tables_of (w_db w2) = tables_of (w_db w)" "w_sent w2 = w_sent w"
        by simp_all
      then have clock: "db_clock (w_db w2) = db_clock (w_db w)"
        by (intro clock_tables)
      obtain r3 db3 where svc: "submit_flag (ap_ext A) (pg_solve_service (ap_serde A)) nid (db_clock (w_db w)) cid
         (acc_team_id account) user f ip (w_db w2) = (r3, db3)" by fastforce
      have "case r3 of Inl e \<Rightarrow> r = Inl (map_localized e) \<and> w' = w2\<lparr>w_db := db3\<rparr>
       | Inr sub \<Rightarrow> r = Inr sub \<and> maybe_broadcast_solve A mid sub (w2\<lparr>w_db := db3\<rparr>) = (Inr () :: localized_error + unit, w')"
      proof (cases r3)
        case (Inl e)
        with ok(2) svc show ?thesis
          by (simp add: try_await_def now_is_eq clock localized_def map_err_def on_db_def)
      next
        case (Inr sub)
        obtain w4 where b: "maybe_broadcast_solve A mid sub (w2\<lparr>w_db := db3\<rparr>) = (Inr () :: localized_error + unit, w4)"
          using broadcast_posts_once [of A mid sub] unfolding posts_once_def by blast
        from ok(2) svc Inr b show ?thesis
          by (simp add: try_await_def now_is_eq clock localized_def map_err_def on_db_def)
      qed
      with account acc w2 svc show ?thesis by (intro that(2) [of account db1 w2 r3 db3]) simp_all
    qed
  qed
qed

text \<open>C9: A flag sent over HTTP stores at most one row, graded as the service grades it, under the
  account that sent it and the team this account is stored with at that moment; only a
  correct one is broadcast, in at most one message, and a refused request stores and sends
  nothing.\<close>

theorem flag_request_effect:
  "case api_submit_flag A nid mid user ip cid f w of (r, w') \<Rightarrow>
     (\<exists>e. r = Inl e \<and> subs_in (w_db w') = subs_in (w_db w) \<and> w_sent w' = w_sent w) \<or>
     (\<exists>found db1 ch active n row msgs.
        row = graded (ap_ext A) ch nid (db_clock (w_db w)) cid (acc_team_id found) user f ip active n \<and>
        pg_account_by_id (ap_serde A) user (w_db w) = (Inr (Some found), db1) \<and>
        ch \<in># chals_in (ap_serde A) (w_db w) \<and> ch_id ch = cid \<and>
        admits (ap_ext A) ch cid (acc_team_id found) user f active (subs_in (w_db w)) \<and>
        subs_in (w_db w') = add_mset row (subs_in (w_db w)) \<and>
        w_sent w' = w_sent w @ msgs \<and> length msgs \<le> 1 \<and>
        (if sub_is_correct row then r = Inr row
         else msgs = [] \<and> r = Inl (LocalizedError 400 ''ctf-incorrect-flag'')))"
proof (cases "api_submit_flag A nid mid user ip cid f w")
  case (Pair r w')
  from Pair show ?thesis
  proof (cases rule: submit_request_cases)
    case (refused e)
    with Pair views_eq(1) [OF refused(2)] show ?thesis by simp
  next
    case (served account db1 w2 r3 db3)
    note views = views_eq [OF served(2)]
    from served(4) show ?thesis
    proof (cases rule: submit_outcome)
      case (rejected e)
      with served(3,5) views Pair show ?thesis by simp
    next
      case (recorded ch active n)
      let ?row = "graded (ap_ext A) ch nid (db_clock (w_db w)) cid (acc_team_id account) user f ip active n"
      have "\<exists>msgs. subs_in (w_db w') = add_mset ?row (subs_in (w_db w)) \<and>
          w_sent w' = w_sent w @ msgs \<and> length msgs \<le> 1 \<and>
          (if sub_is_correct ?row then r = Inr ?row
           else msgs = [] \<and> r = Inl (LocalizedError 400 ''ctf-incorrect-flag''))"
      proof (cases "sub_is_correct ?row")
        case True
        then have "r3 = Inr ?row" using recorded(5) by (simp add: answer_def)
        with served(5) have r: "r = Inr ?row" "maybe_broadcast_solve A mid ?row (w2\<lparr>w_db := db3\<rparr>) = (Inr () :: localized_error + unit, w')"
          by simp_all
        from posts_onceD [OF broadcast_posts_once r(2)]
        obtain msgs where msgs: "tables_of (w_db w') = tables_of db3" "w_sent w' = w_sent w2 @ msgs" "length msgs \<le> 1"
          by auto
        with r(1) True served(3) recorded(4) views(1) views_eq(1) [OF msgs(1)] show ?thesis by simp
      next
        case False
        then have "r3 = Inl (InvalidRequest ''ctf-incorrect-flag'')" using recorded(5) by (simp add: answer_def)
        with False served(3,5) recorded(4) views(1) show ?thesis
          by (simp add: map_localized_def service_error_status_def service_error_key_def)
      qed
      then obtain msgs where "subs_in (w_db w') = add_mset ?row (subs_in (w_db w))"
          "w_sent w' = w_sent w @ msgs" "length msgs \<le> 1"
          "if sub_is_correct ?row then r = Inr ?row
           else msgs = [] \<and> r = Inl (LocalizedError 400 ''ctf-incorrect-flag'')" by blast
      with served(1) recorded(1-3) views show ?thesis
        unfolding Pair prod.case
        by (intro disjI2 exI [of _ account] exI [of _ db1] exI [of _ ch] exI [of _ active] exI [of _ n]
            exI [of _ ?row] exI [of _ msgs]) (simp only: simp_thms)
    qed
  qed
qed

text \<open>While the database answers, a player who is not an administrator cannot submit to a
  challenge that is hidden or locked: the request is refused, nothing is stored and nothing
  is broadcast.\<close>

theorem hidden_challenge_takes_no_flags:
  assumes "pg_account_by_id (ap_serde A) user (w_db w) = (Inr (Some account), db1)" "acc_role account \<noteq> Admin"
    and "pg_challenge_by_id (ap_serde A) cid db1 = (Inr (Some ch), db2)" "ch_visibility ch \<noteq> Visible"
  shows "case api_submit_flag A nid mid user ip cid f w of (r, w') \<Rightarrow>
    (\<exists>e. r = Inl e \<and> err_status e \<in> {403, 429}) \<and>
    tables_of (w_db w') = tables_of (w_db w) \<and> w_sent w' = w_sent w"
proof (cases "api_submit_flag A nid mid user ip cid f w")
  case (Pair r w')
  from Pair [unfolded api_submit_flag_def] show ?thesis
  proof (cases rule: limits_cases)
    case (limited requests)
    with Pair show ?thesis by simp
  next
    case (passed requests)
    let ?w1 = "w\<lparr>w_limiter := requests\<rparr>"
    have acc: "find_account A user ?w1 = (Inr (Inr (Some account)), ?w1\<lparr>w_db := db1\<rparr>)"
      by (rule find_account_eq) (simp add: assms(1))
    have gate: "visibility_gate A account cid (?w1\<lparr>w_db := db1\<rparr>) =
        (Inl (LocalizedError 403 ''ctf-challenge-locked''), ?w1\<lparr>w_db := db2\<rparr>)"
      by (simp add: visibility_gate_def assms(2-4) try_await_def attempt_def on_db_def)
    from passed have "r = Inl (LocalizedError 403 ''ctf-challenge-locked'') \<and> w' = ?w1\<lparr>w_db := db2\<rparr>"
      by (simp add: try_await_def acc gate)
    moreover have "tables_of db2 = tables_of (w_db w)"
      using keepsD [OF account_by_id_keeps assms(1)] keepsD [OF pg_reads_keep(7) assms(3)] by simp
    ultimately show ?thesis using Pair by simp
  qed
qed

text \<open>The gate fails open: when its read of the challenge fails, the flag goes to the service
  whatever the challenge's visibility is, and is stored if the service accepts it.\<close>

theorem gate_fails_open:
  assumes "pg_account_by_id (ap_serde A) user (w_db w) = (Inr (Some account), db1)" "acc_role account \<noteq> Admin"
    and "pg_challenge_by_id (ap_serde A) cid db1 = (Inl e, db2)"
    and "limit_call (''sub-ip:'' @ ip) 10 w = (Inr () :: localized_error + unit, w1)"
      "limit_call (''sub-acc:'' @ acc_str user) 10 w1 = (Inr () :: localized_error + unit, w2)"
    and "submit_flag (ap_ext A) (pg_solve_service (ap_serde A)) nid (db_clock (w_db w)) cid
      (acc_team_id account) user f ip db2 = (Inr sub, db3)"
  shows "fst (api_submit_flag A nid mid user ip cid f w) = Inr sub"
proof -
  have w2: "w_db w2 = w_db w"
    using assms(4,5) by (auto elim!: limit_call_cases)
  have acc: "find_account A user w2 = (Inr (Inr (Some account)), w2\<lparr>w_db := db1\<rparr>)"
    by (rule find_account_eq) (simp add: assms(1) w2)
  have gate: "visibility_gate A account cid (w2\<lparr>w_db := db1\<rparr>) = (Inr (), w2\<lparr>w_db := db2\<rparr>)"
    by (simp add: visibility_gate_def assms(2,3) try_await_def attempt_def on_db_def)
  have "tables_of db2 = tables_of (w_db w)"
    using keepsD [OF account_by_id_keeps assms(1)] keepsD [OF pg_reads_keep(7) assms(3)] by simp
  then have clock: "db_clock db2 = db_clock (w_db w)"
    by (rule clock_tables)
  have svc: "localized (on_db (submit_flag (ap_ext A) (pg_solve_service (ap_serde A)) nid (db_clock (w_db w)) cid
      (acc_team_id account) user f ip)) (w2\<lparr>w_db := db2\<rparr>) = (Inr sub, w2\<lparr>w_db := db3\<rparr>)"
    using assms(6) by (simp add: localized_def map_err_def on_db_def)
  obtain w4 where b: "maybe_broadcast_solve A mid sub (w2\<lparr>w_db := db3\<rparr>) = (Inr () :: localized_error + unit, w4)"
    using posts_onceD [OF broadcast_posts_once] by (metis surj_pair)
  show ?thesis
    using assms(4,5) by (simp add: api_submit_flag_def try_await_def acc gate clock svc b)
qed

section \<open>Invites\<close>

lemma show_i64_no_colon: "CHR '':'' \<notin> set (show_i64 i)"
proof -
  have "digit_val (CHR '':'') = None" by (simp add: digit_val_def)
  then show ?thesis
    using show_digits_not_in [of i "CHR '':''"] show_digits_not_in [of "- i" "CHR '':''"]
    by (simp add: show_i64_def)
qed

lemma b64_no_colon: "lawful_crypto K \<Longrightarrow> CHR '':'' \<notin> set (b64_encode K x)"
  unfolding lawful_crypto_def by blast

lemma invite_verifies:
  assumes "lawful_crypto K" "CHR '':'' \<notin> set t" "i64_range e"
  shows "verify_invite_token K now (generate_invite_token K t e secret) secret =
    (if now \<le> e then Some (t, e) else None)"
proof -
  have "split_on (CHR '':'') (generate_invite_token K t e secret) =
      [t, show_i64 e, b64_encode K (hmac_sha256 K secret (invite_message t e))]"
    using assms(1,2)
    by (simp add: generate_invite_token_def split_on_append split_on_none show_i64_no_colon b64_no_colon)
  moreover have "b64_decode K (b64_encode K x) = Some x" for x
    using assms(1) by (simp add: lawful_crypto_def)
  ultimately show ?thesis
    by (simp add: verify_invite_token_def parse_show_i64 [OF assms(3)])
qed

text \<open>Only a team's captain gets an invite; it lasts between an hour and a week whatever
  lifespan was asked for, and until then, and not a second longer, it is an invite to that
  team.\<close>

theorem created_invite_is_valid_until_it_expires:
  assumes "api_create_invite A user t hours w = (Inr (token, e), w')"
    and "lawful_crypto (ap_crypto A)" "CHR '':'' \<notin> set t" "0 \<le> db_clock (w_db w)" "db_clock (w_db w) < 2 ^ 62"
  shows "(\<exists>tm \<in># teams_in (ap_serde A) (w_db w). team_id tm = TeamId t \<and> team_captain_id tm = user) \<and>
    db_clock (w_db w) + 3600 \<le> e \<and> e \<le> db_clock (w_db w) + 604800 \<and>
    verify_invite_token (ap_crypto A) now token (ap_jwt_secret A) = (if now \<le> e then Some (t, e) else None)"
proof -
  from assms(1) obtain tm db' where tm: "pg_team_by_id (ap_serde A) (TeamId t) (w_db w) = (Inr (Some tm), db')"
    and cap: "team_captain_id tm = user"
    and out: "token = generate_invite_token (ap_crypto A) (team_str (team_id tm)) e (ap_jwt_secret A)"
      "e = wrap_i64 (db_clock db' + clamp 1 168 (case hours of Some h \<Rightarrow> h | None \<Rightarrow> 24) * 3600)"
    unfolding api_create_invite_def Let_def
    by (elim try_await_ok_cases)
       (auto simp: attempt_eq try_await_def split: sum.splits option.splits if_splits elim!: on_db_cases)
  let ?l = "clamp 1 168 (case hours of Some h \<Rightarrow> h | None \<Rightarrow> 24)"
  have l: "1 \<le> ?l" "?l \<le> 168" by (simp_all add: clamp_def)
  have "tables_of db' = tables_of (w_db w)" by (rule keepsD [OF pg_reads_keep(5) tm])
  then have clock: "db_clock db' = db_clock (w_db w)"
    by (rule clock_tables)
  have e: "e = db_clock (w_db w) + ?l * 3600"
    unfolding out(2) clock by (rule wrap_i64_id) (use assms(4,5) l in \<open>simp add: i64_range_def\<close>)
  then have "i64_range e" using assms(4,5) l by (simp add: i64_range_def)
  moreover have "tm \<in># teams_in (ap_serde A) (w_db w)" "team_id tm = TeamId t"
    using pg_team_by_id_some [OF tm] by simp_all
  ultimately show ?thesis
    using e l cap invite_verifies [OF assms(2,3), of e now "ap_jwt_secret A"] by (auto simp: out(1))
qed

text \<open>A session token and an invite can never stand for each other, although one secret signs
  both: what an accepted session token signs is never the message of an invite.\<close>

theorem session_signatures_are_no_invites:
  assumes "lawful_crypto K" "jwt_decode K now token secret = Inr p" "split_on (CHR ''.'') token = [a, b, c]"
  shows "a @ ''.'' @ b \<noteq> invite_message t e"
proof -
  have "b64_decode K a \<noteq> None" "b64_decode K b \<noteq> None"
    using assms(2,3) by (auto simp: jwt_decode_def jwt_payload_def split: option.splits if_splits)
  then have "CHR '':'' \<notin> set (a @ ''.'' @ b)"
    using assms(1) by (auto simp: lawful_crypto_def)
  moreover have "CHR '':'' \<in> set (invite_message t e)" by (simp add: invite_message_def)
  ultimately show ?thesis by metis
qed

section \<open>Joining\<close>

lemma verify_invite_signed:
  assumes "verify_invite_token K now token secret = Some (t, e)"
  shows "\<exists>es sig. split_on (CHR '':'') token = [t, es, sig] \<and> parse_i64 es = Some e \<and> now \<le> e \<and>
    b64_decode K sig = Some (hmac_sha256 K secret (invite_message t e))"
  using assms by (auto simp: verify_invite_token_def split: list.splits option.splits if_splits)

lemma account_by_id_some:
  assumes "pg_account_by_id J a s = (Inr (Some account), s')"
  shows "acc_id account = a"
proof -
  obtain row s1 where "fetch_optional db_accounts (\<lambda>r. arow_id r = acc_str a) s = (Inr (Some row), s1)"
    and m: "map_account J row = Inr account"
    using assms by (auto simp: pg_account_by_id_def decoded_opt_def decoded_Inr elim!: try_await_ok_cases split: option.splits)
  from fetch_optional_ok [OF this(1)] have "arow_id row = acc_str a" by (auto simp: find_Some_iff)
  with m show ?thesis by (auto simp: map_account_def and_then_Inr)
qed

text \<open>C36: Joining succeeds only with an invite that the secret signed for the stored team and that
  has not expired, only when the script of the team's bracket, if it has one, says yes to the
  account's address and name, and only after the account was stored as a member.\<close>

theorem joining_needs_a_signed_invite:
  assumes "api_join_team A user token w = (Inr (), w')"
  shows "\<exists>t e es sig tm account db1 db2.
    split_on (CHR '':'') token = [t, es, sig] \<and> parse_i64 es = Some e \<and> db_clock (w_db w) \<le> e \<and>
    b64_decode (ap_crypto A) sig = Some (hmac_sha256 (ap_crypto A) (ap_jwt_secret A) (invite_message t e)) \<and>
    tm \<in># teams_in (ap_serde A) (w_db w) \<and> team_id tm = TeamId t \<and>
    acc_id account = user \<and> bracket_allows A tm account \<and>
    pg_account_update (ap_serde A) (account\<lparr>acc_team_id := Some (TeamId t)\<rparr>) db1 = (Inr (), db2)"
proof -
  from assms obtain t e tm db1 account db2 where
    inv: "verify_invite_token (ap_crypto A) (db_clock (w_db w)) token (ap_jwt_secret A) = Some (t, e)"
    and tm: "pg_team_by_id (ap_serde A) (TeamId t) (w_db w) = (Inr (Some tm), db1)"
    and acc: "pg_account_by_id (ap_serde A) user db1 = (Inr (Some account), db2)"
    and join: "join_as A user tm account (w\<lparr>w_db := db2\<rparr>) = (Inr (), w')"
    unfolding api_join_team_def
    by (elim try_await_ok_cases)
       (auto simp: attempt_eq elim!: try_await_ok_cases find_account_cases on_db_cases split: option.splits sum.splits)
  note stored = pg_team_by_id_some [OF tm]
  from join obtain db3 where upd: "bracket_allows A tm account"
    "pg_account_update (ap_serde A) (account\<lparr>acc_team_id := Some (TeamId t)\<rparr>) db2 = (Inr (), db3)"
    unfolding join_as_def conjunct2 [OF stored]
    by (auto simp: attempt_eq elim!: try_await_ok_cases on_db_cases split: if_splits sum.splits)
  show ?thesis
    using verify_invite_signed [OF inv] stored account_by_id_some [OF acc] upd by blast
qed

end
