(* ===== verification/Views.thy ===== *)
theory Views
  imports Handlers
begin

text \<open>
  What players see: the public view of challenges against the board and the hint service, the
  list and the detail of challenges, and the text of broadcasts.
\<close>

section \<open>The view of one challenge\<close>

lemma solve_counts_build: "challenge_solve_counts = build_challenge_solvers"
proof
  fix xs
  have "(\<lambda>sub counts. if sub_is_correct sub then
         counts(sub_challenge_id sub \<mapsto>
           insert (case sub_team_id sub of Some t \<Rightarrow> team_str t | None \<Rightarrow> acc_str (sub_account_id sub))
             (case counts (sub_challenge_id sub) of Some B \<Rightarrow> B | None \<Rightarrow> {}))
       else counts) = add_solver"
    by (intro ext) (simp add: add_solver_def solver_id_def)
  then show "challenge_solve_counts xs = build_challenge_solvers xs"
    by (simp add: challenge_solve_counts_def build_challenge_solvers_def)
qed

lemma current_points_value: "current_points ch n = challenge_value ch n"
proof -
  have "calculate_dynamic_points i m d (max n 1) = calculate_dynamic_points i m d n" for i m d
  proof (cases "n \<le> 1")
    case True
    then have "max n 1 \<le> 1" by (simp add: max_def)
    with True show ?thesis by (simp add: decayed_points_first)
  next
    case False
    then have "max n 1 = n" by (simp add: max_def)
    then show ?thesis by simp
  qed
  then show ?thesis by (simp add: current_points_def challenge_value_def split: scoring_mode.split)
qed

text \<open>The points a challenge is shown with, when they are shown, are the points the board gives
  for it: the two are separate code over separately built maps of solvers.\<close>

theorem shown_points_are_the_boards:
  "pc_points (public_view X now subs unlocks tm acct is_admin ch) \<in>
     {None, Some (challenge_value ch (solve_count_of (build_challenge_solvers subs) ch))}"
  by (simp add: public_view_def to_public_challenge_def current_points_value solve_counts_build)

lemma team_made: "viewer_made (Some t) acct = hint_own_sub (Some t) acct"
  by (simp add: fun_eq_iff viewer_made_def hint_own_sub_def)

lemma requirements_met_visible:
  "requirements_met ch (viewer_solved_ids subs (Some t) acct) \<longleftrightarrow>
     (\<forall>i. Solve i \<in> set (ch_requirements ch) \<longrightarrow>
        (\<exists>s \<in> set subs. (sub_is_correct s \<and> hint_own_sub (Some t) acct s) \<and> sub_challenge_id s = i))"
  unfolding requirements_met_def viewer_solved_ids_def team_made by (rule requirements_met_iff)

text \<open>For a player in a team the view and the hint service agree: a challenge that is not
  hidden is shown as locked exactly when its hints would be refused.\<close>

theorem locked_iff_hints_refused:
  assumes "ch_visibility ch \<noteq> Hidden"
  shows "pc_locked (public_view X now subs unlocks (Some t) acct False ch) \<longleftrightarrow>
    \<not> visible_to ch (Some t) acct subs"
  using assms
  by (auto simp: public_view_def to_public_challenge_def reveal_for_def visible_to_def requirements_met_visible
      split: challenge_visibility.splits)

text \<open>Until its prerequisites are solved, a visible challenge shows a player no description, no
  files, no hints and no connection info.\<close>

theorem unmet_prerequisites_hide_the_task:
  assumes "ch_visibility ch = Visible" "Solve i \<in> set (ch_requirements ch)"
    and "i \<notin> viewer_solved_ids subs tm acct"
  shows "let pc = public_view X now subs unlocks tm acct False ch in
    pc_locked pc \<and> pc_description pc = HtmlString [] \<and> pc_files pc = [] \<and> pc_hints pc = [] \<and>
    pc_connection_info pc = None"
proof -
  have "\<not> requirements_met ch (viewer_solved_ids subs tm acct)"
    using assms(2,3) by (force simp: requirements_met_def list_all_iff requirement_in_def)
  then show ?thesis
    by (simp add: public_view_def to_public_challenge_def reveal_for_def assms(1) default_reveal_def shown_def)
qed

section \<open>The list\<close>

text \<open>A stored administrator, and what the lookups of a request can tell.\<close>

definition stored_admin :: "'j db \<Rightarrow> account_id \<Rightarrow> bool" where
  "stored_admin db a \<longleftrightarrow>
     list_ex (\<lambda>row. arow_id row = acc_str a \<and> role_of_str (arow_role row) = Admin) (db_accounts db)"

lemma found_admin_stored:
  assumes "pg_account_by_id J a db = (found, db')" "is_admin_found found"
  shows "stored_admin db a"
proof -
  from assms(2) obtain account where "found = Inr (Some account)" and admin: "acc_role account = Admin"
    by (auto simp: is_admin_found_def split: sum.splits option.splits)
  with assms(1) obtain row s1 where f: "fetch_optional db_accounts (\<lambda>r. arow_id r = acc_str a) db = (Inr (Some row), s1)"
    and m: "map_account J row = Inr account"
    by (auto simp: pg_account_by_id_def decoded_opt_def decoded_Inr elim!: try_await_ok_cases split: option.splits)
  from fetch_optional_ok [OF f] have "row \<in> set (db_accounts db)" "arow_id row = acc_str a"
    by (auto simp: find_Some_iff)
  moreover have "role_of_str (arow_role row) = Admin"
    using m admin by (auto simp: map_account_def and_then_Inr)
  ultimately show ?thesis by (auto simp: stored_admin_def list_ex_iff)
qed

lemma stored_admin_tables: "tables_of db' = tables_of db \<Longrightarrow> stored_admin db' a = stored_admin db a"
  unfolding stored_admin_def by (drule arg_cong [of _ _ db_accounts]) (simp add: tables_of_def)

lemma viewer_unlocks_keep: "keeps tables_of (viewer_unlocks (pg_hint_service J mode) tm acct)"
  unfolding viewer_unlocks_def pg_hint_service_def pg_hint_repo_def
  by (simp, intro keeps_try_await keeps_repo_call keeps_ret pg_reads_keep)

lemma viewer_unlocks_own:
  assumes "viewer_unlocks (pg_hint_service J mode) tm acct db = (r, db')" "u \<in> set (or_empty r)"
  shows "u \<in># unlocks_in db \<and> unlock_owned_by tm acct u"
proof -
  from assms(2) obtain us where r: "r = Inr us" and u: "u \<in> set us"
    by (auto simp: or_empty_def split: sum.splits)
  from assms(1) [unfolded r] obtain all where "pg_hints_all db = (Inr all, db')" "us = filter (unlock_owned_by tm acct) all"
    by (auto simp: viewer_unlocks_def pg_hint_service_def pg_hint_repo_def repo_call_Inr elim!: try_await_ok_cases)
  with u pg_hints_all_ok [of db all db'] show ?thesis by (auto simp flip: set_mset_mset)
qed

text \<open>What a successful listing was computed from.\<close>

lemma list_cases:
  assumes "api_list_challenges A user w = (Inr pcs, w')"
  obtains tm tm2 is_admin chs subs unlocks where
    "is_admin \<longrightarrow> stored_admin (w_db w) user"
    "mset chs = chals_in (ap_serde A) (w_db w)"
    "\<forall>u \<in> set unlocks. u \<in># unlocks_in (w_db w) \<and> unlock_owned_by tm user u"
    "tm = team_of_found (fst (pg_account_by_id (ap_serde A) user (w_db w)))"
    "pcs = map (public_view (ap_ext A) (db_clock (w_db w)) subs unlocks tm2 user is_admin)
       (filter (\<lambda>ch. is_admin \<or> ch_visibility ch \<noteq> Hidden) chs)"
proof -
  from assms obtain found1 db1 chs db2 subs db3 unlocks db4 found db5 where
    1: "pg_account_by_id (ap_serde A) user (w_db w) = (found1, db1)"
    and 2: "pg_challenges_all (ap_serde A) db1 = (Inr chs, db2)"
    and 3: "pg_submissions_all db2 = (subs, db3)"
    and 4: "viewer_unlocks (pg_hint_service (ap_serde A) (ap_hint_mode A)) (team_of_found found1) user db3 = (unlocks, db4)"
    and 5: "pg_account_by_id (ap_serde A) user db4 = (found, db5)"
    and pcs: "pcs = map (public_view (ap_ext A) (db_clock db5) (or_empty subs) (or_empty unlocks) (team_of_found found) user
            (is_admin_found found)) (filter (\<lambda>ch. is_admin_found found \<or> ch_visibility ch \<noteq> Hidden) chs)"
    unfolding api_list_challenges_def
    by (elim try_await_ok_cases)
       (auto simp: attempt_eq map_err_Inr elim!: find_account_cases on_db_cases intro!: that)
  have t1: "tables_of db1 = tables_of (w_db w)" by (rule keepsD [OF account_by_id_keeps 1])
  have t2: "tables_of db2 = tables_of (w_db w)" using keepsD [OF pg_reads_keep(8) 2] t1 by simp
  have t3: "tables_of db3 = tables_of (w_db w)" using keepsD [OF pg_reads_keep(1) 3] t2 by simp
  have t4: "tables_of db4 = tables_of (w_db w)" using keepsD [OF viewer_unlocks_keep 4] t3 by simp
  have t5: "tables_of db5 = tables_of (w_db w)" using keepsD [OF account_by_id_keeps 5] t4 by simp
  show thesis
  proof (rule that [of "is_admin_found found" chs "or_empty unlocks" "team_of_found found1"
        "or_empty subs" "team_of_found found"])
    show "is_admin_found found \<longrightarrow> stored_admin (w_db w) user"
      using found_admin_stored [OF 5] stored_admin_tables [OF t4] by simp
    show "mset chs = chals_in (ap_serde A) (w_db w)"
      using pg_challenges_all_ok [OF 2] views_eq(4) [OF t1] by simp
    show "\<forall>u \<in> set (or_empty unlocks). u \<in># unlocks_in (w_db w) \<and> unlock_owned_by (team_of_found found1) user u"
      using viewer_unlocks_own [OF 4] views_eq(2) [OF t3] by simp
    show "team_of_found found1 = team_of_found (fst (pg_account_by_id (ap_serde A) user (w_db w)))"
      by (simp add: 1)
    have "db_clock db5 = db_clock (w_db w)"
      using t5 by (rule clock_tables)
    with pcs show "pcs = map (public_view (ap_ext A) (db_clock (w_db w)) (or_empty subs) (or_empty unlocks)
        (team_of_found found) user (is_admin_found found))
        (filter (\<lambda>ch. is_admin_found found \<or> ch_visibility ch \<noteq> Hidden) chs)" by simp
  qed
qed

text \<open>Who is not stored as an administrator is never shown a hidden challenge in the list, with
  any driver faults.\<close>

theorem hidden_challenges_are_not_listed:
  assumes "api_list_challenges A user w = (Inr pcs, w')" "\<not> stored_admin (w_db w) user" "pc \<in> set pcs"
  shows "\<exists>ch \<in># chals_in (ap_serde A) (w_db w). pc_id pc = ch_id ch \<and> ch_visibility ch \<noteq> Hidden"
  using assms(1)
proof (rule list_cases)
  fix tm tm2 is_admin chs subs unlocks
  assume "is_admin \<longrightarrow> stored_admin (w_db w) user" "mset chs = chals_in (ap_serde A) (w_db w)"
    "pcs = map (public_view (ap_ext A) (db_clock (w_db w)) subs unlocks tm2 user is_admin)
       (filter (\<lambda>ch. is_admin \<or> ch_visibility ch \<noteq> Hidden) chs)"
  with assms(2,3) show ?thesis
    by (auto simp: public_view_def to_public_challenge_def simp flip: set_mset_mset)
qed

text \<open>C35: The list carries the text of a hint only if an unlock of that very hint is stored for the
  viewer's team, or for the viewer's account when it has none.\<close>

theorem hint_text_only_when_unlocked:
  assumes "api_list_challenges A user w = (Inr pcs, w')" "pc \<in> set pcs"
    and "i < length (pc_hints pc)" "ph_content (pc_hints pc ! i) \<noteq> None"
  shows "\<exists>u \<in># unlocks_in (w_db w). hu_challenge_id u = pc_id pc \<and> hu_hint_index u = of_nat i \<and>
    unlock_owned_by (team_of_found (fst (pg_account_by_id (ap_serde A) user (w_db w)))) user u"
  using assms(1)
proof (rule list_cases)
  fix tm tm2 is_admin chs subs unlocks
  assume own: "\<forall>u \<in> set unlocks. u \<in># unlocks_in (w_db w) \<and> unlock_owned_by tm user u"
    and tm: "tm = team_of_found (fst (pg_account_by_id (ap_serde A) user (w_db w)))"
    and pcs: "pcs = map (public_view (ap_ext A) (db_clock (w_db w)) subs unlocks tm2 user is_admin)
       (filter (\<lambda>ch. is_admin \<or> ch_visibility ch \<noteq> Hidden) chs)"
  then obtain ch where pc: "pc = public_view (ap_ext A) (db_clock (w_db w)) subs unlocks tm2 user is_admin ch"
    using assms(2) by auto
  have "pc_id pc = ch_id ch" by (simp add: pc public_view_def to_public_challenge_def)
  moreover have "of_nat i \<in> unlocked_indexes unlocks (ch_id ch)"
    using assms(3,4)
    by (auto simp: pc public_view_def to_public_challenge_def public_hint_of_def Let_def nth_enumerate_eq split: if_splits)
  ultimately show ?thesis using own tm by (auto simp: unlocked_indexes_def)
qed

section \<open>Broadcast text\<close>

definition escape_char :: "char \<Rightarrow> string" where
  "escape_char c =
     (if c = CHR ''&'' then ''&amp;'' else if c = CHR ''<'' then ''&lt;''
      else if c = CHR ''>'' then ''&gt;'' else [c])"

lemma replace_char_append: "replace_char c r (s @ t) = replace_char c r s @ replace_char c r t"
  by (simp add: replace_char_def)

lemma escape_html_chars: "escape_html s = concat (map escape_char s)"
proof (induction s)
  case (Cons c s)
  have "escape_html (c # s) = escape_html [c] @ escape_html s"
    using replace_char_append [of _ _ "[c]" s] by (simp add: escape_html_def replace_char_append flip: replace_char_append)
  moreover have "escape_html [c] = escape_char c"
    by (simp add: escape_html_def replace_char_def escape_char_def)
  ultimately show ?case using Cons by simp
qed (simp add: escape_html_def replace_char_def)

lemma escape_char_prefix: "escape_char c @ s = escape_char d @ t \<longleftrightarrow> c = d \<and> s = t"
  by (auto simp: escape_char_def)

text \<open>A name in a broadcast cannot open a tag: escaped text has neither angle bracket, and
  nothing of the name is lost, since different names are escaped differently.\<close>

theorem escaped_names_are_inert:
  "CHR ''<'' \<notin> set (escape_html s) \<and> CHR ''>'' \<notin> set (escape_html s) \<and> inj escape_html"
proof -
  have "c \<notin> set (escape_html s)" if "c = CHR ''<'' \<or> c = CHR ''>''" for c
    using that by (induction s) (auto simp: escape_html_chars escape_char_def)
  moreover have "inj escape_html"
  proof (rule injI)
    fix s t assume "escape_html s = escape_html t"
    then show "s = t"
      unfolding escape_html_chars
    proof (induction s arbitrary: t)
      case Nil
      then show ?case by (cases t) (auto simp: escape_char_def split: if_splits)
    next
      case (Cons c s)
      then obtain d t' where t: "t = d # t'" by (cases t) (auto simp: escape_char_def split: if_splits)
      with Cons.prems have "c = d \<and> concat (map escape_char s) = concat (map escape_char t')"
        by (simp add: escape_char_prefix)
      with Cons.IH t show ?case by simp
    qed
  qed
  ultimately show ?thesis by blast
qed

end
