(* ===== verification/Board.thy ===== *)
theory Board
  imports PgStore
begin

text \<open>
  The scoreboard of the database: the properties of \<open>get_scoreboard\<close> and \<open>export_ctftime\<close> on
  the PostgreSQL repositories, through the interpretation \<open>pg_board\<close>, and of the score
  computation they share with the hint gate.
\<close>

text \<open>The board has exactly one entry per team (of the asked bracket), and the ranks are
  1, 2, 3 and so on.\<close>

theorem board_lists_every_team_once:
  "case get_scoreboard X (pg_scoreboard_service J acc freeze mode) b s of (r, s') \<Rightarrow>
     (\<forall>es. r = Inr es \<longrightarrow>
        mset (map en_team_id es) = image_mset team_id
          (case b of None \<Rightarrow> teams_in J s
           | Some n \<Rightarrow> filter_mset (\<lambda>tm. team_bracket tm = n) (teams_in J s)) \<and>
        map en_rank es = map (\<lambda>i. of_nat (i + 1)) [0..<length es])"
proof (cases "get_scoreboard X (pg_scoreboard_service J acc freeze mode) b s")
  case (Pair r s')
  then have run: "get_scoreboard X \<lparr>sb_team_repo = pg_team_repo J, sb_challenge_repo = pg_challenge_repo J,
      sb_submission_repo = pg_submission_repo, sb_sort_by_accuracy = acc, sb_freeze_time = freeze,
      sb_hint_unlock_repo = pg_hint_repo, sb_hint_deduction_mode = mode\<rparr> b s = (r, s')"
    by (simp add: pg_scoreboard_service_def)
  show ?thesis
    using pg_board.board_teams [of X J acc freeze mode b s _ s'] pg_board.board_ranks [of X J acc freeze mode b s _ s']
      run by (auto simp: Pair intro!: nth_equalityI)
qed

text \<open>The board is sorted: points never increase going down, and without the accuracy order
  teams with equal points stand by their last solve, those without one last.\<close>

theorem board_is_sorted:
  assumes "get_scoreboard X (pg_scoreboard_service J acc freeze mode) b s = (Inr es, s')"
    and "length (db_submissions s) < 2 ^ 53"
  shows "sorted_wrt (ranks_before acc) es"
  by (rule pg_board.board_sorted [OF assms(1) [unfolded pg_scoreboard_service_def]])
     (use assms(2) in \<open>simp add: subs_in_def\<close>)


section \<open>Scores\<close>

text \<open>For challenges with a whole flag: what scores, and what it is worth.\<close>

definition solved_by :: "team \<Rightarrow> submission list \<Rightarrow> challenge \<Rightarrow> bool" where
  "solved_by tm xs ch \<longleftrightarrow> scored_by ch tm (challenge_subs ch (team_subs_of tm xs))"

lemma challenge_scored_whole: "whole_flag ch \<Longrightarrow> challenge_scored X tm (team_subs_of tm xs) ch = solved_by tm xs ch"
  by (auto simp: whole_flag_def challenge_scored_def solved_by_def split: flag_validator.splits)

lemma counted_whole: "whole_flag ch \<Longrightarrow> counted_subs X tm (team_subs_of tm xs) ch =
    (if solved_by tm xs ch then challenge_subs ch (team_subs_of tm xs) else [])"
  by (auto simp: whole_flag_def counted_subs_def solved_by_def split: flag_validator.splits)

definition worth :: "submission list \<Rightarrow> challenge \<Rightarrow> int" where
  "worth xs ch = uint (challenge_value ch (of_nat (card (solver_set xs (ch_id ch)))))"

lemma solve_points_whole:
  assumes "\<And>ch. ch \<in> set chs \<Longrightarrow> whole_flag ch"
  shows "solve_points X tm chs xs (build_challenge_solvers xs) = (\<Sum>ch\<leftarrow>filter (solved_by tm xs) chs. worth xs ch)"
  using assms
  by (induction chs) (simp_all add: solve_points_def gain_whole solve_count_of_build worth_def solved_by_def)



text \<open>A solve of the team's own: its challenge had earned nothing, the others keep their solvers.\<close>

lemma unsolved_no_subs:
  "challenge_subs ch (team_subs_of tm xs) = [] \<Longrightarrow> \<not> solved_by tm xs ch"
  by (auto simp: solved_by_def scored_by_def list_all_iff neq_Nil_conv)

lemma solved_by_mono: "solved_by tm xs ch \<Longrightarrow> solved_by tm (x # xs) ch"
  by (auto simp: solved_by_def scored_by_def list_all_iff list_ex_iff challenge_subs_def team_subs_of_def
      filter_empty_conv split: if_splits)

lemma own_solver_set:
  assumes "sub_team_id x = Some (team_id tm)" "challenge_subs ch (team_subs_of tm xs) \<noteq> []"
  shows "solver_set (x # xs) (ch_id ch) = solver_set xs (ch_id ch)"
proof -
  obtain y where y: "y \<in> set xs" "sub_team_id y = Some (team_id tm)" "sub_challenge_id y = ch_id ch" "sub_is_correct y"
    using assms(2) by (auto simp: challenge_subs_def team_subs_of_def filter_empty_conv)
  have "solver_id x = solver_id y" using assms(1) y(2) by (simp add: solver_id_def)
  with y show ?thesis by (auto simp: solver_set_def)
qed

text \<open>A submission of the team itself never lowers its points.\<close>

theorem own_solve_never_lowers_points:
  assumes "\<forall>ch \<in> set chs. whole_flag ch" "length chs < 2 ^ 31" "sub_team_id x = Some (team_id tm)"
  shows "tss_points (compute_team_solve_score X tm chs xs (build_challenge_solvers xs))
    \<le> tss_points (compute_team_solve_score X tm chs (x # xs) (build_challenge_solvers (x # xs)))"
proof -
  have whole: "whole_flag ch" if "ch \<in> set chs" for ch using assms(1) that by blast
  have gain: "challenge_gain X tm (team_subs_of tm ys) (challenge_value ch (solve_count_of (build_challenge_solvers ys) ch)) ch
      = (if solved_by tm ys ch then worth ys ch else 0)" if "ch \<in> set chs" for ch ys
    using whole [OF that] by (simp add: gain_whole solve_count_of_build worth_def solved_by_def)
  have "solve_points X tm chs xs (build_challenge_solvers xs) \<le> solve_points X tm chs (x # xs) (build_challenge_solvers (x # xs))"
    unfolding solve_points_def
  proof (rule sum_list_mono)
    fix ch assume ch: "ch \<in> set chs"
    show "challenge_gain X tm (team_subs_of tm xs) (challenge_value ch (solve_count_of (build_challenge_solvers xs) ch)) ch
        \<le> challenge_gain X tm (team_subs_of tm (x # xs)) (challenge_value ch (solve_count_of (build_challenge_solvers (x # xs)) ch)) ch"
    proof (cases "challenge_subs ch (team_subs_of tm xs) = []")
      case True
      then show ?thesis by (simp add: gain [OF ch] unsolved_no_subs worth_def)
    next
      case False
      then have "worth (x # xs) ch = worth xs ch" by (simp add: worth_def own_solver_set [OF assms(3)])
      then show ?thesis using solved_by_mono [of tm xs ch x] by (simp add: gain [OF ch] worth_def)
    qed
  qed
  then show ?thesis by (simp add: solve_score_exact [OF whole assms(2)])
qed

text \<open>Only under \<open>AllowNegative\<close> can hints push a score below zero; with no deduction they do
  not count, and elsewhere the board shows the points minus the price, never less than 0.\<close>

theorem hint_deduction:
  assumes "0 \<le> points" "points < 2 ^ 62" "0 \<le> spent" "spent < 2 ^ 62"
  shows "apply_hint_deduction points spent mode =
    (case mode of NoDeduction \<Rightarrow> points | AllowNegative \<Rightarrow> points - spent | _ \<Rightarrow> max 0 (points - spent))"
proof -
  have "i64_range (points - spent)" using assms by (simp add: i64_range_def)
  then show ?thesis by (cases mode) (simp_all add: apply_hint_deduction_def max.commute)
qed

text \<open>On a challenge with a multi-part flag, a part that is checked against a per-instance flag
  is scored on the board by any correct submission to the challenge, whichever part it was
  for: the board compares each submission with itself.\<close>

theorem instanced_part_scored_by_any_solve:
  assumes "lawful_ext X" "pf_validator p = Instanced" "\<not> ch_team_consensus ch"
    and "x \<in> set xs" "sub_is_correct x" "sub_challenge_id x = ch_id ch"
  shows "scored_by ch tm (part_subs X ch xs p)"
  using assms by (auto simp: instanced_part_subs scored_by_def challenge_subs_def filter_empty_conv)

section \<open>The export\<close>

lemma add_task_stats_keeps: "m title \<noteq> None \<Longrightarrow> add_task_stats cs x m title \<noteq> None"
  by (auto simp: add_task_stats_def split: option.split)

lemma fold_task_stats_keeps: "m title \<noteq> None \<Longrightarrow> fold (add_task_stats cs) xs m title \<noteq> None"
proof (induction xs arbitrary: m)
  case (Cons x xs)
  have "add_task_stats cs x m title \<noteq> None" using Cons.prems by (rule add_task_stats_keeps)
  then show ?case using Cons.IH [of "add_task_stats cs x m"] by simp
qed simp

lemma fold_task_stats_dom:
  assumes "x \<in> set xs" "map_of (rev (map (\<lambda>c. (ch_id c, c)) cs)) (sub_challenge_id x) = Some ch"
  shows "fold (add_task_stats cs) xs m (ch_title ch) \<noteq> None"
  using assms(1)
proof (induction xs arbitrary: m)
  case (Cons y ys)
  show ?case
  proof (cases "x = y")
    case True
    then have "add_task_stats cs y m (ch_title ch) \<noteq> None" using assms(2) by (simp add: add_task_stats_def)
    then show ?thesis using fold_task_stats_keeps by auto
  next
    case False
    with Cons show ?thesis by auto
  qed
qed simp

lemma export_rows:
  assumes "export_ctftime X (pg_scoreboard_service J acc freeze mode) s = (Inr ex, s')"
  obtains es xs cs where
    "mset (map en_team_id es) = image_mset team_id (teams_in J s)"
    "mset xs = subs_in s" "mset cs = chals_in J s"
    "ex_standings ex = map (standings_entry cs xs) es"
proof -
  obtain es s1 xs s2 cs where 1: "get_scoreboard X (pg_scoreboard_service J acc freeze mode) None s = (Inr es, s1)"
    and 2: "pg_submissions_all s1 = (Inr xs, s2)" and 3: "pg_challenges_all J s2 = (Inr cs, s')"
    and ex: "ex_standings ex = map (standings_entry cs xs) es"
    using assms
    by (auto simp: export_ctftime_def repo_call_Inr pg_scoreboard_service_def pg_repos elim!: try_await_ok_cases)
  have "keeps tables_of (get_scoreboard X (pg_scoreboard_service J acc freeze mode) None)"
    unfolding get_scoreboard_def Let_def
    by (intro keeps_try_await keeps_repo_call keeps_ret)
       (simp_all add: pg_scoreboard_service_def pg_repos pg_reads_keep)
  from keepsD [OF this 1] have s1: "tables_of s1 = tables_of s" .
  from keepsD [OF pg_reads_keep(1) 2] s1 have s2: "tables_of s2 = tables_of s" by simp
  show thesis
    using pg_board.board_teams [OF 1 [unfolded pg_scoreboard_service_def]]
      pg_submissions_all_ok [OF 2] pg_challenges_all_ok [OF 3] views_eq(1) [OF s1] views_eq(4) [OF s2] ex
    by (intro that [of es xs cs]) simp_all
qed

text \<open>The CTFtime export shows every correct submission of a team to a stored challenge among
  the team's task statistics, whatever the freeze time: unlike the standings beside it, the
  statistics are not frozen.\<close>

theorem export_shows_solves_after_the_freeze:
  assumes "export_ctftime X (pg_scoreboard_service J acc (Some f) mode) s = (Inr ex, s')"
    and "x \<in># subs_in s" "sub_is_correct x" "sub_team_id x = Some t" "f \<le> sub_submitted_at x"
    and "tm \<in># teams_in J s" "team_id tm = t" "ch \<in># chals_in J s" "ch_id ch = sub_challenge_id x"
  shows "\<exists>st \<in> set (ex_standings ex). \<exists>ch' \<in># chals_in J s. ch_id ch' = sub_challenge_id x \<and>
    st_task_stats st (ch_title ch') \<noteq> None"
  using assms(1)
proof (rule export_rows)
  fix es xs cs
  assume es: "mset (map en_team_id es) = image_mset team_id (teams_in J s)"
    and xs: "mset xs = subs_in s" and cs: "mset cs = chals_in J s"
    and ex: "ex_standings ex = map (standings_entry cs xs) es"
  have "t \<in># mset (map en_team_id es)" unfolding es using assms(6,7) by auto
  then obtain e where e: "e \<in> set es" "en_team_id e = t" by auto
  have "ch \<in> set cs" using cs assms(8) by (metis set_mset_mset)
  then have "sub_challenge_id x \<in> fst ` set (rev (map (\<lambda>c. (ch_id c, c)) cs))"
    using assms(9) by force
  then obtain ch' where m: "map_of (rev (map (\<lambda>c. (ch_id c, c)) cs)) (sub_challenge_id x) = Some ch'"
    by (metis map_of_eq_None_iff not_None_eq)
  then have "ch' \<in> set cs" "ch_id ch' = sub_challenge_id x" by (auto dest!: map_of_SomeD)
  moreover have "x \<in> set (filter (\<lambda>s. sub_team_id s = Some (en_team_id e) \<and> sub_is_correct s) xs)"
    using xs assms(2-4) e(2) by (auto simp flip: set_mset_mset)
  then have "st_task_stats (standings_entry cs xs e) (ch_title ch') \<noteq> None"
    unfolding standings_entry_def Let_def by (simp add: fold_task_stats_dom [OF _ m] del: set_filter)
  moreover have "ch' \<in># chals_in J s" using \<open>ch' \<in> set cs\<close> cs by (metis set_mset_mset)
  ultimately show ?thesis using e(1) unfolding ex by auto
qed

end
