(* ===== verification/Persistence.thy ===== *)
theory Persistence
  imports PgStore
begin

text \<open>
  What the repositories store and read back: challenges through their columns, files, the
  configuration, team membership, notifications, the error a taken key gives, and the update
  of a challenge, which the driver always refuses.
\<close>

section \<open>Challenges\<close>

text \<open>The \<open>JSONB\<close> columns of a challenge decode to what was encoded.\<close>

definition json_roundtrip :: "'j serde \<Rightarrow> challenge \<Rightarrow> bool" where
  "json_roundtrip J ch \<longleftrightarrow>
     flag_from J (flag_to J (ch_flag ch)) = Inr (ch_flag ch) \<and>
     hints_from J (hints_to J (ch_hints ch)) = Inr (ch_hints ch) \<and>
     files_from J (files_to J (ch_files ch)) = Inr (ch_files ch) \<and>
     tags_from J (tags_to J (ch_tags ch)) = Inr (ch_tags ch) \<and>
     requirements_from J (requirements_to J (ch_requirements ch)) = Inr (ch_requirements ch) \<and>
     deployment_from J (deployment_to J (ch_deployment ch)) = Inr (ch_deployment ch) \<and>
     visibility_from J (visibility_to J (ch_visibility ch)) = Inr (ch_visibility ch) \<and>
     right (max_attempts_from J (max_attempts_to J (ch_max_attempts ch))) = ch_max_attempts ch"

lemma find_append_new: "\<not> list_ex P xs \<Longrightarrow> P y \<Longrightarrow> find P (xs @ [y]) = Some y"
  by (induction xs) auto

lemma challenge_row_roundtrip:
  assumes "json_roundtrip J ch"
  shows "map_challenge J (challenge_row_of J ch) =
    Inr (ch\<lparr>ch_points := (ch_points ch)\<lparr>pts_equation := equation_str (ch_points ch)\<rparr>\<rparr>)"
proof -
  have "(case max_attempts_from J (max_attempts_to J (ch_max_attempts ch)) of Inl _ \<Rightarrow> None | Inr m \<Rightarrow> Some m) = ch_max_attempts ch"
    using assms by (simp add: json_roundtrip_def right_def)
  moreover have "HtmlString (html_str h) = h" for h by (cases h) simp
  ultimately show ?thesis
    using assms by (simp add: map_challenge_def challenge_row_of_def json_roundtrip_def or_else_def)
qed

text \<open>A saved challenge is read back as it was saved, its equation replaced by the three
  numbers when its points decay.\<close>

theorem saved_challenge_is_read_back:
  assumes "pg_challenge_save J ch s = (Inr u, s1)" "pg_challenge_by_id J (ch_id ch) s1 = (Inr r, s2)"
    and "json_roundtrip J ch"
  shows "r = Some (ch\<lparr>ch_points := (ch_points ch)\<lparr>pts_equation := equation_str (ch_points ch)\<rparr>\<rparr>)"
proof -
  let ?row = "challenge_row_of J ch"
  have id: "crow_id ?row = ch_id ch" by (simp add: challenge_row_of_def)
  from assms(1) obtain fs where "db_challenges s1 = db_challenges (s\<lparr>db_faults := fs\<rparr>) @ [?row]"
    and "\<not> list_ex (\<lambda>q. crow_id q = crow_id ?row) (db_challenges (s\<lparr>db_faults := fs\<rparr>))"
    unfolding pg_challenge_save_def Let_def by (rule change_cases) (auto simp: checked_Inr)
  then have find: "find (\<lambda>q. crow_id q = ch_id ch) (db_challenges s1) = Some ?row"
    using find_append_new [of "\<lambda>q. crow_id q = ch_id ch" "db_challenges s" ?row] id by simp
  from assms(2) obtain row s3 where f: "fetch_optional db_challenges (\<lambda>q. crow_id q = ch_id ch) s1 = (Inr row, s3)"
    and d: "decoded_opt (map_challenge J) row s3 = (Inr r, s2)"
    by (auto simp: pg_challenge_by_id_def elim!: try_await_ok_cases)
  have "row = Some ?row" using fetch_optional_ok [OF f] find by auto
  with d show ?thesis
    by (auto simp: decoded_opt_def decoded_Inr challenge_row_roundtrip [OF assms(3)] elim!: try_await_ok_cases)
qed

text \<open>Updating a challenge always fails and changes nothing: the statement names 15 parameters
  and the code binds 17.\<close>

theorem challenge_update_always_fails:
  "case pg_challenge_update J ch s of (r, s') \<Rightarrow> (\<exists>e. r = Inl e) \<and> tables_of s' = tables_of s"
proof (cases "pg_challenge_update J ch s")
  case (Pair r s')
  then show ?thesis
    unfolding pg_challenge_update_def with_binds_def Let_def by (auto elim: change_cases)
qed

section \<open>Keys\<close>

text \<open>A key that is taken, of whatever table and column, is reported as a taken user name:
  saving a team under another team's name gives that error.\<close>

theorem taken_team_name_is_reported_as_taken_username:
  assumes "db_faults s = []" "team_row_ok (team_row_of J tm)"
    and "q \<in> set (db_teams s)" "trow_name q = team_name_str (team_name tm)"
  shows "pg_team_save J tm s = (Inl (Conflict ''auth-username-taken''), s)"
proof -
  have "list_ex (\<lambda>q. trow_id q = trow_id (team_row_of J tm) \<or> team_clash (team_row_of J tm) q) (db_teams s)"
    unfolding list_ex_iff using assms(3,4)
    by (intro bexI [of _ q]) (simp_all add: team_clash_def team_row_of_def)
  with assms(1,2) show ?thesis
    by (simp add: pg_team_save_def insert_team_def Let_def change_def statement_def checked_def
        unique_violation_def repo_error_of_sqlx_def try_await_def)
qed

section \<open>Team membership\<close>

lemma image_collect_Int: "f ` {x \<in> A. f x \<in> B} = B \<inter> f ` A"
  by auto

definition joined :: "team_id \<Rightarrow> string set \<Rightarrow> 'j account_row \<Rightarrow> 'j account_row" where
  "joined t ids q = (if arow_id q \<in> ids then q\<lparr>arow_team_id := Some (team_str t)\<rparr> else q)"

lemma joined_id [simp]: "arow_id (joined t ids q) = arow_id q"
  by (simp add: joined_def)

lemma set_account_team_ok:
  "set_account_team t a s = (Inr u, s') \<Longrightarrow>
     db_accounts s' = map (joined t {acc_str a}) (db_accounts s) \<and> db_teams s' = db_teams s"
  unfolding set_account_team_def
  by (erule change_cases) (auto simp: joined_def split: if_splits)

lemma set_members_ok:
  "each (set_account_team t) ms s = (Inr us, s') \<Longrightarrow>
     db_accounts s' = map (joined t (acc_str ` set ms)) (db_accounts s) \<and> db_teams s' = db_teams s"
proof (induction ms arbitrary: s us)
  case Nil
  then show ?case by (simp add: joined_def)
next
  case (Cons m ms)
  from Cons.prems obtain u s1 vs where 1: "set_account_team t m s = (Inr u, s1)"
    and 2: "each (set_account_team t) ms s1 = (Inr vs, s')"
    by (auto elim!: try_await_ok_cases)
  have "joined t (acc_str ` set ms) (joined t {acc_str m} q) = joined t (acc_str ` set (m # ms)) q"
    for q :: "'a account_row" by (simp add: joined_def)
  with set_account_team_ok [OF 1] Cons.IH [OF 2] show ?case by simp
qed

text \<open>After a team was updated, its members are exactly those of the given members that have
  an account.\<close>

theorem team_update_sets_the_members:
  assumes "pg_team_update J tm s = (Inr u, s')" "row \<in> set (db_teams s')" "trow_id row = team_str (team_id tm)"
  shows "set (member_rows s' row) =
    acc_str ` set (team_member_ids tm) \<inter> arow_id ` set (db_accounts s)"
proof -
  obtain u1 s1 u2 s2 us where 1: "update_team_row J tm s = (Inr u1, s1)"
    and 2: "clear_team_members (team_id tm) s1 = (Inr u2, s2)"
    and 3: "each (set_account_team (team_id tm)) (team_member_ids tm) s2 = (Inr us, s')"
    using assms(1) by (auto simp: pg_team_update_def set_members_def elim!: try_await_ok_cases)
  from 1 have a1: "db_accounts s1 = db_accounts s"
    unfolding update_team_row_def Let_def by (rule change_cases) (auto simp: checked_Inr split: if_splits)
  from 2 have a2: "db_accounts s2 = map (\<lambda>q. if arow_team_id q = Some (team_str (team_id tm))
      then q\<lparr>arow_team_id := None\<rparr> else q) (db_accounts s1)"
    unfolding clear_team_members_def by (rule change_cases) auto
  let ?ids = "acc_str ` set (team_member_ids tm)"
  define g where "g q = joined (team_id tm) ?ids (if arow_team_id q = Some (team_str (team_id tm))
      then q\<lparr>arow_team_id := None\<rparr> else q)" for q :: "'a account_row"
  have g: "arow_id (g q) = arow_id q" "arow_team_id (g q) = Some (trow_id row) \<longleftrightarrow> arow_id q \<in> ?ids" for q
    by (simp_all add: g_def joined_def assms(3))
  have "db_accounts s' = map g (db_accounts s)"
    using set_members_ok [OF 3] by (simp add: a1 a2 g_def)
  then have "set (member_rows s' row) = arow_id ` {q \<in> set (db_accounts s). arow_id q \<in> ?ids}"
    by (simp add: member_rows_def filter_map comp_def g)
  also have "\<dots> = ?ids \<inter> arow_id ` set (db_accounts s)" by (rule image_collect_Int)
  finally show ?thesis .
qed

section \<open>Files, configuration, notifications\<close>

lemma file_row_roundtrip [simp]: "file_of_row (file_row_of f) = f"
  by (simp add: file_of_row_def file_row_of_def)

text \<open>A stored file's record is read back unchanged, its 64-bit size included, although the
  column is signed.\<close>

theorem saved_file_is_read_back:
  assumes "pg_file_save f s = (Inr u, s1)" "pg_file_by_id (sf_id f) s1 = (Inr r, s2)"
  shows "r = Some f"
proof -
  have id: "frow_id (file_row_of f) = sf_id f" by (simp add: file_row_of_def)
  from assms(1) have "db_files s1 = db_files s @ [file_row_of f] \<and>
      \<not> list_ex (\<lambda>q. frow_id q = frow_id (file_row_of f)) (db_files s)"
    unfolding pg_file_save_def Let_def by (rule change_cases) (auto simp: checked_Inr)
  then have find: "find (\<lambda>q. frow_id q = sf_id f) (db_files s1) = Some (file_row_of f)"
    using find_append_new [of "\<lambda>q. frow_id q = sf_id f" "db_files s" "file_row_of f"] id by simp
  with assms(2) show ?thesis
    by (auto simp: pg_file_by_id_def elim!: try_await_ok_cases dest!: fetch_optional_ok)
qed

lemma config_read_back:
  assumes "pg_config_set J cfg s = (Inr u, s1)" "pg_config_get J s1 = (Inr c, s2)"
    and "config_from J (config_to J cfg) = Inr cfg"
  shows "c = cfg"
proof -
  have "db_config s1 = Some (config_to J cfg)"
    using assms(1) unfolding pg_config_set_def by (rule change_cases) auto
  with assms(2,3) show ?thesis
    unfolding pg_config_get_def
    by (auto elim!: try_await_ok_cases select_cases split: option.splits sum.splits)
qed

lemma newest_preorder: "total_preorder_on UNIV newest"
  unfolding total_preorder_on_def newest_def cmp_simps by auto

lemma newest_sorted:
  "sorted_wrt (\<lambda>a b. nrow_created_at b \<le> nrow_created_at a) (sort_by newest rows)"
  using sorted_sort_by_le [OF newest_preorder, of rows] by (simp add: le_Equal_iff newest_def not_less)

lemma notification_time: "notification_of_row J r = Inr n \<Longrightarrow> nt_created_at n = nrow_created_at r"
  by (auto simp: notification_of_row_def and_then_Inr)

lemma recent_rows:
  assumes "pg_notifications_recent J limit s = (Inr ns, s')"
  shows "map (\<lambda>r. right (notification_of_row J r)) (take (nat limit) (sort_by newest (db_notifications s))) = map Some ns"
proof -
  obtain rows s1 where
    q: "statement (\<lambda>db. if limit < 0 then (Inl (Database False ''LIMIT must not be negative''), db)
          else (Inr (take (nat limit) (sort_by newest (db_notifications db))), db)) s = (Inr rows, s1)"
    and e: "each (\<lambda>r. case notification_of_row J r of Inl e \<Rightarrow> fail (Internal e) | Inr n \<Rightarrow> ret n) rows s1 = (Inr ns, s')"
    using assms by (auto simp: pg_notifications_recent_def elim!: try_await_ok_cases)
  have step: "(case notification_of_row J r of Inl e \<Rightarrow> fail (Internal e) | Inr n \<Rightarrow> ret n) t = (Inr n, t') \<Longrightarrow>
      right (notification_of_row J r) = Some n \<and> tables_of t' = tables_of t" for r t n t'
    by (cases "notification_of_row J r") (auto simp: right_def)
  have "map (\<lambda>r. right (notification_of_row J r)) rows = map Some ns"
    using each_reads [of "\<lambda>r. case notification_of_row J r of Inl e \<Rightarrow> fail (Internal e) | Inr n \<Rightarrow> ret n"
        "\<lambda>_ r. right (notification_of_row J r)" tables_of, OF step e] by simp
  moreover have "rows = take (nat limit) (sort_by newest (db_notifications s))"
    by (cases s rule: fault_cases) (use q in \<open>auto simp: statement_def Let_def split: if_splits\<close>)
  ultimately show ?thesis by simp
qed

text \<open>The recent notifications come newest first and are at most as many as asked; a stored one
  that is left out is no newer than any that is shown, and is left out only for the limit.\<close>

theorem recent_notifications_newest_first:
  assumes "pg_notifications_recent J limit s = (Inr ns, s')"
  shows "sorted_wrt (\<lambda>a b. nt_created_at b \<le> nt_created_at a) ns \<and> length ns \<le> nat limit \<and>
    (\<forall>row \<in> set (db_notifications s).
       (\<exists>n \<in> set ns. notification_of_row J row = Inr n) \<or>
       (length ns = nat limit \<and> (\<forall>n \<in> set ns. nrow_created_at row \<le> nt_created_at n)))"
proof -
  define l where "l = sort_by newest (db_notifications s)"
  note rows = recent_rows [OF assms, folded l_def]
  have len: "length ns = min (length l) (nat limit)" using arg_cong [OF rows, of length] by simp
  have nth: "notification_of_row J (l ! i) = Inr (ns ! i)" "nt_created_at (ns ! i) = nrow_created_at (l ! i)"
    if "i < length ns" for i
  proof -
    from that len have "map (\<lambda>r. right (notification_of_row J r)) (take (nat limit) l) ! i = Some (ns ! i)"
      unfolding rows by simp
    with that len show "notification_of_row J (l ! i) = Inr (ns ! i)" by (simp add: right_eq)
    then show "nt_created_at (ns ! i) = nrow_created_at (l ! i)" by (rule notification_time)
  qed
  have sorted: "nrow_created_at (l ! j) \<le> nrow_created_at (l ! i)" if "i < j" "j < length l" for i j
    using newest_sorted [of "db_notifications s"] that by (simp add: l_def sorted_wrt_iff_nth_less)
  have "sorted_wrt (\<lambda>a b. nt_created_at b \<le> nt_created_at a) ns"
    using sorted len by (simp add: sorted_wrt_iff_nth_less nth(2))
  moreover have "(\<exists>n \<in> set ns. notification_of_row J row = Inr n) \<or>
      (length ns = nat limit \<and> (\<forall>n \<in> set ns. nrow_created_at row \<le> nt_created_at n))"
    if "row \<in> set (db_notifications s)" for row
  proof -
    from that have "row \<in> set l" by (simp add: l_def)
    then obtain i where i: "i < length l" "l ! i = row" by (auto simp: in_set_conv_nth)
    show ?thesis
    proof (cases "i < length ns")
      case True
      then show ?thesis using nth(1) [OF True] i(2) by (intro disjI1 bexI [of _ "ns ! i"]) simp_all
    next
      case False
      with i(1) len have "length ns = nat limit" by simp
      moreover have "nrow_created_at row \<le> nt_created_at n" if "n \<in> set ns" for n
        using that sorted [of _ i] i False by (auto simp: in_set_conv_nth nth(2))
      ultimately show ?thesis by simp
    qed
  qed
  ultimately show ?thesis using len by simp
qed

end
