(* ===== verification/Values.thy ===== *)
theory Values
  imports Scoreboard
begin

text \<open>
  The value of a challenge, the price of a hint and the verdict on a flag: what the pure
  functions of the types and of \<open>solve.rs\<close> promise for every input.
\<close>

text \<open>C22: The value of a challenge with decaying points starts at its initial value, never rises
  with more solves and never falls below its minimum; all the floating point steps of the code,
  rounding and the final cast included, are exact about this.\<close>

theorem value_decays_between_its_bounds:
  assumes "minimum \<le> initial" "a \<le> b"
  shows "minimum \<le> calculate_dynamic_points initial minimum decay b \<and>
    calculate_dynamic_points initial minimum decay b \<le> calculate_dynamic_points initial minimum decay a \<and>
    calculate_dynamic_points initial minimum decay a \<le> initial \<and>
    calculate_dynamic_points initial minimum decay 1 = initial"
  using calculate_dynamic_points_antimono [OF assms] assms(1)
    calculate_dynamic_points_between(1) [of initial minimum decay b]
    calculate_dynamic_points_between(2) [of initial minimum decay a]
  by (simp add: word_le_def decayed_points_first)

text \<open>A hint whose price is a script costs the script's integer modulo \<open>2^32\<close>, and nothing when
  the integer is negative or the script errs: a price of \<open>2^32\<close> is free.\<close>

theorem script_price_keeps_32_bits:
  "uint (hint_cost_evaluate X (CostScript script) solves now) =
     (case rhai_int X sandboxed_engine [(''solves'', RInt (uint solves)), (''now'', RInt now)] script of
        None \<Rightarrow> 0 | Some k \<Rightarrow> max k 0 mod 2 ^ 32)"
  by (simp add: hint_cost_evaluate_def unsigned_of_int take_bit_eq_mod split: option.split)

text \<open>The verdict on a flag ignores white space around it, for every kind of flag, and a
  multi-part flag is accepted exactly when some part is found for it.\<close>

theorem flag_verdict_ignores_surrounding_space:
  "is_match X v (trim f) active = is_match X v f active \<and>
   (is_match X (Multi ps) f active \<longleftrightarrow> find_matching_partial X (Multi ps) f active \<noteq> None)"
  by (simp add: is_match_trim find_matching_partial_iff)

end
