(* ===== verification/Demo.thy ===== *)
theory Demo
  imports Views Board Persistence Values
begin

text \<open>
  The model run on concrete inputs: an instance of every crate the program calls (a plain
  encoding of the JSON columns, a hexadecimal text encoding in the place of base64, a keyed
  concatenation in the place of the signature) and a small event in the database.
\<close>

section \<open>Columns\<close>

datatype demo_json =
    JFields "string \<rightharpoonup> json_value" | JFlag flag_validator | JHints "challenge_hint list"
  | JFiles "challenge_file list" | JTags "string list" | JRequirements "challenge_requirement list"
  | JDeployment challenge_deployment | JVisibility challenge_visibility
  | JMaxAttempts "max_attempts option" | JConfig ctf_config | JKind notification_kind
  | JTarget notification_target

definition bad :: "string + 'a" where
  "bad = Inl ''invalid type''"

definition demo_serde :: "demo_json serde" where
  "demo_serde =
     \<lparr>fields_to = JFields, fields_from = (\<lambda>j. case j of JFields x \<Rightarrow> Inr x | _ \<Rightarrow> bad),
      flag_to = JFlag, flag_from = (\<lambda>j. case j of JFlag x \<Rightarrow> Inr x | _ \<Rightarrow> bad),
      hints_to = JHints, hints_from = (\<lambda>j. case j of JHints x \<Rightarrow> Inr x | _ \<Rightarrow> bad),
      files_to = JFiles, files_from = (\<lambda>j. case j of JFiles x \<Rightarrow> Inr x | _ \<Rightarrow> bad),
      tags_to = JTags, tags_from = (\<lambda>j. case j of JTags x \<Rightarrow> Inr x | _ \<Rightarrow> bad),
      requirements_to = JRequirements,
      requirements_from = (\<lambda>j. case j of JRequirements x \<Rightarrow> Inr x | _ \<Rightarrow> bad),
      deployment_to = JDeployment,
      deployment_from = (\<lambda>j. case j of JDeployment x \<Rightarrow> Inr x | _ \<Rightarrow> bad),
      visibility_to = JVisibility,
      visibility_from = (\<lambda>j. case j of JVisibility x \<Rightarrow> Inr x | _ \<Rightarrow> bad),
      max_attempts_to = JMaxAttempts,
      max_attempts_from = (\<lambda>j. case j of JMaxAttempts (Some x) \<Rightarrow> Inr x | _ \<Rightarrow> bad),
      config_to = JConfig, config_from = (\<lambda>j. case j of JConfig x \<Rightarrow> Inr x | _ \<Rightarrow> bad),
      kind_to = JKind, kind_from = (\<lambda>j. case j of JKind x \<Rightarrow> Inr x | _ \<Rightarrow> bad),
      target_to = JTarget, target_from = (\<lambda>j. case j of JTarget x \<Rightarrow> Inr x | _ \<Rightarrow> bad)\<rparr>"

lemma demo_json_roundtrip: "json_roundtrip demo_serde ch"
  by (cases "ch_max_attempts ch") (simp_all add: json_roundtrip_def demo_serde_def right_def bad_def)

section \<open>Crates\<close>

definition demo_ext :: ext where
  "demo_ext =
     \<lparr>constant_time_eq = (=), regex_match = (\<lambda>p s. Some (p = s)),
      rhai_bool = (\<lambda>e sc p. Some (p = ''true'')), rhai_int = (\<lambda>e sc p. parse_i64 p)\<rparr>"

lemma demo_ext_lawful: "lawful_ext demo_ext"
  by (simp add: lawful_ext_def demo_ext_def)

fun hex_encode :: "string \<Rightarrow> string" where
  "hex_encode [] = []"
| "hex_encode (c # s) = char_of (97 + (of_char c :: nat) div 16) # char_of (97 + (of_char c :: nat) mod 16) # hex_encode s"

definition nibble :: "char \<Rightarrow> nat option" where
  "nibble c = (let n = (of_char c :: nat) in if 97 \<le> n \<and> n < 113 then Some (n - 97) else None)"

fun hex_decode :: "string \<Rightarrow> string option" where
  "hex_decode [] = Some []"
| "hex_decode [c] = None"
| "hex_decode (c # d # s) =
     (case (nibble c, nibble d, hex_decode s) of
        (Some h, Some l, Some r) \<Rightarrow> Some (char_of (h * 16 + l) # r) | _ \<Rightarrow> None)"

lemma nibble_char: "n < 16 \<Longrightarrow> nibble (char_of (97 + n)) = Some n"
  by (simp add: nibble_def take_bit_eq_mod)

lemma of_char_256: "(of_char c :: nat) < 256"
  using of_char_mod_256 [of c, where ?'a = nat] by (metis mod_less_divisor zero_less_numeral)

lemma hex_roundtrip: "hex_decode (hex_encode s) = Some s"
proof (induction s)
  case (Cons c s)
  have "(of_char c :: nat) div 16 < 16" using of_char_256 [of c] by linarith
  then have "nibble (char_of (97 + (of_char c :: nat) div 16)) = Some (of_char c div 16)"
    "nibble (char_of (97 + (of_char c :: nat) mod 16)) = Some (of_char c mod 16)"
    by (intro nibble_char; simp)+
  with Cons show ?case by simp
qed simp

lemma hex_decode_chars: "hex_decode s = Some r \<Longrightarrow> c \<in> set s \<Longrightarrow> nibble c \<noteq> None"
  by (induction s arbitrary: r rule: hex_decode.induct) (auto split: option.splits)

lemma hex_encode_chars: "c \<in> set (hex_encode s) \<Longrightarrow> nibble c \<noteq> None"
  using hex_decode_chars [OF hex_roundtrip] .

text \<open>Fields of a record, each quoted, and integers in decimal.\<close>

fun quote :: "string \<Rightarrow> string" where
  "quote [] = ''z''"
| "quote (c # s) = CHR ''a'' # c # quote s"

fun unquote :: "string \<Rightarrow> (string \<times> string) option" where
  "unquote (a # s) =
     (if a = CHR ''z'' then Some ([], s)
      else case s of
             c # r \<Rightarrow> (case unquote r of Some (x, t) \<Rightarrow> Some (c # x, t) | None \<Rightarrow> None)
           | [] \<Rightarrow> None)"
| "unquote [] = None"

lemma unquote_quote [simp]: "unquote (quote s @ t) = Some (s, t)"
  by (induction s) simp_all

definition int_of :: "string \<Rightarrow> int option" where
  "int_of s =
     (case s of
        c # r \<Rightarrow> if c = CHR ''-'' then map_option uminus (parse_digits r) else parse_digits s
      | [] \<Rightarrow> None)"

lemma int_of_show [simp]: "int_of (show_i64 i) = Some i"
proof (cases "i < 0")
  case True
  then show ?thesis by (simp add: int_of_def show_i64_def)
next
  case False
  obtain c s where cs: "show_digits i = c # s" by (cases "show_digits i") auto
  have "c \<noteq> CHR ''-''" using show_digits_digit [of i c] cs False by (auto simp: digit_val_def)
  moreover have "parse_digits (c # s) = Some i" using False cs [symmetric] by simp
  ultimately show ?thesis using False by (simp add: int_of_def show_i64_def cs)
qed

definition demo_header_of :: "string \<Rightarrow> jwt_header option" where
  "demo_header_of s =
     (case unquote s of
        None \<Rightarrow> None
      | Some (a, r) \<Rightarrow>
          (case r of
             [] \<Rightarrow> Some \<lparr>h_alg = a, h_typ = None\<rparr>
           | _ \<Rightarrow> (case unquote r of Some (t, _) \<Rightarrow> Some \<lparr>h_alg = a, h_typ = Some t\<rparr> | None \<Rightarrow> None)))"

definition demo_header_json :: "jwt_header \<Rightarrow> string" where
  "demo_header_json h = quote (h_alg h) @ (case h_typ h of None \<Rightarrow> [] | Some t \<Rightarrow> quote t)"

lemma demo_header_roundtrip: "demo_header_of (demo_header_json h) = Some h"
proof (cases "h_typ h")
  case None
  then show ?thesis using unquote_quote [of "h_alg h" "[]"] by (simp add: demo_header_of_def demo_header_json_def)
next
  case (Some t)
  have "quote t \<noteq> []" by (cases t) simp_all
  then obtain c s where cs: "quote t = c # s" by (cases "quote t") auto
  have "unquote (c # s) = Some (t, [])" using unquote_quote [of t "[]"] by (simp only: cs append_Nil2)
  then have "demo_header_of (demo_header_json h) = Some \<lparr>h_alg = h_alg h, h_typ = Some t\<rparr>"
    unfolding demo_header_of_def demo_header_json_def Some option.case unquote_quote prod.case cs list.case
    by (simp only: option.case prod.case)
  with Some show ?thesis by (metis jwt_header.surjective old.unit.exhaust)
qed

definition demo_claims_json :: "claims \<Rightarrow> string" where
  "demo_claims_json c = quote (cl_sub c) @ quote (show_i64 (cl_iat c)) @ quote (show_i64 (cl_exp c))"

definition demo_claims_of :: "string \<Rightarrow> claims option" where
  "demo_claims_of s =
     (case unquote s of
        Some (sub, r) \<Rightarrow>
          (case unquote r of
             Some (iat, r2) \<Rightarrow>
               (case (int_of iat, unquote r2) of
                  (Some i, Some (exp_str, _)) \<Rightarrow>
                    map_option (\<lambda>e. \<lparr>cl_sub = sub, cl_iat = i, cl_exp = e\<rparr>) (int_of exp_str)
                | _ \<Rightarrow> None)
           | None \<Rightarrow> None)
      | None \<Rightarrow> None)"

lemma demo_claims_roundtrip: "demo_claims_of (demo_claims_json c) = Some c"
  using unquote_quote [of "show_i64 (cl_exp c)" "[]"] by (simp add: demo_claims_of_def demo_claims_json_def)

definition demo_crypto :: crypto where
  "demo_crypto =
     \<lparr>hmac_sha256 = (\<lambda>k m. k @ ''/'' @ m), b64_encode = hex_encode, b64_decode = hex_decode,
      header_json = demo_header_json, header_of = demo_header_of,
      claims_json = demo_claims_json, claims_of = demo_claims_of,
      json_i64 = (\<lambda>k s. if k = ''exp'' then map_option cl_exp (demo_claims_of s) else None)\<rparr>"

lemma demo_crypto_lawful: "lawful_crypto demo_crypto"
proof -
  have "nibble (CHR ''.'') = None" "nibble (CHR '':'') = None" by (simp_all add: nibble_def)
  then have "CHR ''.'' \<notin> set (hex_encode x)" "hex_decode s = Some x \<Longrightarrow> CHR '':'' \<notin> set s" for s x
    using hex_encode_chars hex_decode_chars by metis+
  then show ?thesis
    by (simp add: lawful_crypto_def demo_crypto_def hex_roundtrip demo_header_roundtrip demo_claims_roundtrip)
qed

section \<open>An event\<close>

definition demo_challenge :: challenge where
  "demo_challenge =
     \<lparr>ch_id = ''c1'', ch_title = ''Warmup'', ch_description = HtmlString ''find it'', ch_category = ''misc'',
      ch_points = \<lparr>pts_mode = PointValue, pts_equation = ''100''\<rparr>, ch_flag = Static ''flag'',
      ch_author = \<lparr>author_id = ''a2'', author_username = ''root''\<rparr>,
      ch_hints = [\<lparr>hint_content = HtmlString ''look'', hint_price = Fixed 10\<rparr>],
      ch_files = [], ch_tags = [''easy''], ch_requirements = [], ch_team_consensus = False,
      ch_deployment = NoDeployment, ch_visibility = Visible,
      ch_max_attempts = Some \<lparr>ma_limit = 2, ma_mode = All\<rparr>\<rparr>"

definition demo_second :: challenge where
  "demo_second = demo_challenge\<lparr>ch_id := ''c2'', ch_title := ''Next'', ch_requirements := [Solve ''c1''],
     ch_points := \<lparr>pts_mode = DynamicDecay 500 100 10, pts_equation = []\<rparr>, ch_max_attempts := None\<rparr>"

definition demo_hidden :: challenge where
  "demo_hidden = demo_challenge\<lparr>ch_id := ''c3'', ch_title := ''Later'', ch_visibility := Hidden\<rparr>"

definition demo_team :: team where
  "demo_team =
     \<lparr>team_id = TeamId ''t1'', team_name = TeamName ''Reds'', team_ctftime_id = None, team_invite_code = None,
      team_captain_id = AccountId ''a1'', team_member_ids = [AccountId ''a1''], team_bracket = ''open'',
      team_fields = Map.empty, team_create_at = 0\<rparr>"

definition demo_account :: account where
  "demo_account =
     \<lparr>acc_id = AccountId ''a1'', acc_username = AccountName ''ann'', acc_email = None,
      acc_password_hash = None, acc_role = Player, acc_team_id = Some (TeamId ''t1''),
      acc_ctftime_id = None, acc_fields = Map.empty, acc_created_at = 0\<rparr>"

definition demo_admin :: account where
  "demo_admin = demo_account\<lparr>acc_id := AccountId ''a2'', acc_username := AccountName ''root'',
     acc_role := Admin, acc_team_id := None\<rparr>"

definition demo_solo :: account where
  "demo_solo = demo_account\<lparr>acc_id := AccountId ''a3'', acc_username := AccountName ''bob'', acc_team_id := None\<rparr>"

definition demo_db :: "demo_json db" where
  "demo_db =
     \<lparr>db_teams = [PgRepos.team_row_of demo_serde demo_team],
      db_accounts = map (account_row_of demo_serde) [demo_account, demo_admin, demo_solo],
      db_challenges = map (challenge_row_of demo_serde) [demo_challenge, demo_second, demo_hidden],
      db_submissions = [], db_instances = [], db_config = None, db_hint_unlocks = [], db_files = [],
      db_notifications = [], db_clock = 1000, db_faults = []\<rparr>"

definition demo_submit :: "string \<Rightarrow> i64 \<Rightarrow> string \<Rightarrow> string \<Rightarrow> demo_json db \<Rightarrow> (service_error + submission) \<times> demo_json db" where
  "demo_submit nid now cid f =
     submit_flag demo_ext (pg_solve_service demo_serde) nid now cid (Some (TeamId ''t1'')) (AccountId ''a1'') f ''10.0.0.1''"

definition demo_after :: "demo_json db" where
  "demo_after = snd (demo_submit ''s1'' 1000 ''c1'' '' flag '' demo_db)"

definition demo_twice :: "demo_json db" where
  "demo_twice = snd (demo_submit ''s2'' 1001 ''c1'' ''flag'' demo_after)"

definition demo_next :: "demo_json db" where
  "demo_next = snd (demo_submit ''s3'' 1002 ''c2'' ''wrong'' demo_after)"

definition demo_unlock :: "string \<Rightarrow> demo_json db \<Rightarrow> (service_error + hint_unlock_result) \<times> demo_json db" where
  "demo_unlock nid =
     unlock_hint demo_ext (pg_hint_service demo_serde Gate) nid ''c1'' 0 (Some (TeamId ''t1'')) (AccountId ''a1'') 1003 False"

definition demo_hinted :: "demo_json db" where
  "demo_hinted = snd (demo_unlock ''h1'' demo_after)"

text \<open>What is stored at each point.\<close>

lemma demo_stored:
  "map srow_is_correct (db_submissions demo_after) = [True]"
  "map srow_is_correct (db_submissions demo_twice) = [True]"
  "map srow_is_correct (db_submissions demo_next) = [True, False]"
  by code_simp+

lemma demo_unlocked: "map hrow_cost (db_hint_unlocks demo_hinted) = [10]"
  by code_simp

lemma demo_challenge_row:
  "map_challenge demo_serde (challenge_row_of demo_serde ch) =
     Inr (ch\<lparr>ch_points := (ch_points ch)\<lparr>pts_equation := equation_str (ch_points ch)\<rparr>\<rparr>)"
  by (rule challenge_row_roundtrip [OF demo_json_roundtrip])

lemma demo_chals:
  "chals_in demo_serde demo_db =
     mset (map (\<lambda>ch. ch\<lparr>ch_points := (ch_points ch)\<lparr>pts_equation := equation_str (ch_points ch)\<rparr>\<rparr>)
       [demo_challenge, demo_second, demo_hidden])"
  by (simp add: chals_in_def demo_db_def demo_challenge_row right_def List.map_filter_simps)

lemma demo_empty [simp]: "subs_in demo_db = {#}" "unlocks_in demo_db = {#}"
  by (simp_all add: subs_in_def unlocks_in_def demo_db_def)

text \<open>Each of them is reached from the start.\<close>

lemma demo_submit_step: "step demo_ext demo_serde mode s (snd (demo_submit nid now cid f s))"
  unfolding demo_submit_def by (rule step.submit, rule prod.collapse [symmetric])

lemma demo_run:
  "run demo_ext demo_serde Gate demo_db demo_after" "run demo_ext demo_serde Gate demo_db demo_twice"
  "run demo_ext demo_serde Gate demo_db demo_next" "run demo_ext demo_serde Gate demo_db demo_hinted"
proof -
  show after: "run demo_ext demo_serde Gate demo_db demo_after"
    unfolding demo_after_def by (rule more [OF start demo_submit_step])
  from after show "run demo_ext demo_serde Gate demo_db demo_twice"
    unfolding demo_twice_def by (rule more [OF _ demo_submit_step])
  from after show "run demo_ext demo_serde Gate demo_db demo_next"
    unfolding demo_next_def by (rule more [OF _ demo_submit_step])
  have "step demo_ext demo_serde Gate demo_after demo_hinted"
    unfolding demo_hinted_def demo_unlock_def by (rule step.unlock, rule prod.collapse [symmetric])
  with after show "run demo_ext demo_serde Gate demo_db demo_hinted" by (rule more)
qed

end
