(* ===== verification/Cases.thy ===== *)
theory Cases
  imports Demo
begin

text \<open>
  For every property of the event (flags, hints, board, challenges, teams, requests) that has
  hypotheses an instance on the data of Demo: the hypotheses hold there and the conclusion
  says something about stored rows.
\<close>

section \<open>Runs\<close>

theorem no_double_solve_case:
  "map srow_is_correct (db_submissions demo_twice) = [True] \<and> solved_once False ''c1'' (subs_in demo_twice)"
  using no_double_solve [OF demo_run(2), of "''c1''" False] demo_stored(2)
  by (simp add: demo_chals demo_challenge_def demo_second_def demo_hidden_def whole_flag_def solved_once_def
      viewer_solves_def viewer_rows_def)

theorem attempts_within_limit_case:
  "within_limit ''c1'' \<lparr>ma_limit = 2, ma_mode = All\<rparr> (subs_in demo_twice) \<and> size (subs_in demo_twice) = 1"
proof -
  have s: "size (subs_in demo_twice) = 1"
    using arg_cong [OF demo_stored(2), of length] by (simp add: subs_in_def)
  show ?thesis
    using attempts_within_limit [OF demo_run(2), of "''c1''" "\<lparr>ma_limit = 2, ma_mode = All\<rparr>"] s
    by (simp add: demo_chals demo_challenge_def demo_second_def demo_hidden_def within_limit_def
        viewer_rows_def attempt_count_def)
qed


theorem hint_charged_once_case:
  "map hrow_cost (db_hint_unlocks demo_hinted) = [10] \<and> charged_once (unlocks_in demo_hinted)"
  using hint_charged_once [OF demo_run(4)] demo_unlocked by (simp add: charged_once_def unlocks_of_def)

theorem gate_affordable_case:
  "fst (demo_unlock ''h1'' demo_after) =
     Inr \<lparr>hres_content = HtmlString ''look'', hres_cost = 10, hres_already_unlocked = False\<rparr> \<and>
   (\<exists>team cs xs us. team \<in># teams_in demo_serde demo_after \<and> team_id team = TeamId ''t1'' \<and>
      mset cs = chals_in demo_serde demo_after \<and> mset xs = subs_in demo_after \<and> mset us = unlocks_in demo_after \<and>
      10 \<le> wrap_i64 (tss_points (compute_team_solve_score demo_ext team cs xs (build_challenge_solvers xs))
                       - total_hint_cost us (Some (TeamId ''t1'')) None))"
proof -
  have r: "fst (demo_unlock ''h1'' demo_after) =
     Inr \<lparr>hres_content = HtmlString ''look'', hres_cost = 10, hres_already_unlocked = False\<rparr>"
    by code_simp
  with gate_affordable [where X = demo_ext and J = demo_serde and nid = "''h1''" and cid = "''c1''" and i = 0 and
      t = "TeamId ''t1''" and acct = "AccountId ''a1''" and now = 1003 and admin = False and s = demo_after]
  show ?thesis by (simp add: demo_unlock_def case_prod_beta)
qed

section \<open>The board\<close>

definition demo_board :: "i64 option \<Rightarrow> demo_json db \<Rightarrow> (service_error + scoreboard_entry list) \<times> demo_json db" where
  "demo_board freeze =
     get_scoreboard demo_ext (pg_scoreboard_service demo_serde False freeze FloorZero) None"

definition red_entry :: "i64 \<Rightarrow> i64 option \<Rightarrow> string list \<Rightarrow> scoreboard_entry" where
  "red_entry points t solves =
     \<lparr>en_team_id = TeamId ''t1'', en_team_name = ''Reds'', en_points = points, en_last_solve_time = t,
      en_solves = solves, en_rank = 1\<rparr>"

lemma demo_board_hinted: "fst (demo_board None demo_hinted) = Inr [red_entry 90 (Some 1000) [''c1'']]"
  by code_simp

definition demo_solve_row :: "string \<Rightarrow> string \<Rightarrow> i64 \<Rightarrow> submission_row" where
  "demo_solve_row i cid t =
     \<lparr>srow_id = i, srow_challenge_id = cid, srow_team_id = Some ''t1'', srow_account_id = ''a1'',
      srow_points = 100, srow_provided_flag = ''flag'', srow_is_correct = True, srow_submitted_at = t,
      srow_submitted_ip = ''10.0.0.1''\<rparr>"

definition demo_early :: "demo_json db" where
  "demo_early = demo_db\<lparr>db_submissions := [demo_solve_row ''s1'' ''c1'' 1000]\<rparr>"

definition demo_late :: "demo_json db" where
  "demo_late = demo_db\<lparr>db_submissions := [demo_solve_row ''s1'' ''c1'' 1000, demo_solve_row ''s2'' ''c2'' 2000]\<rparr>"

lemma demo_boards:
  "fst (demo_board (Some 1500) demo_early) = Inr [red_entry 100 (Some 1000) [''c1'']]"
  "fst (demo_board (Some 1500) demo_late) = Inr [red_entry 100 (Some 1000) [''c1'']]"
  "fst (demo_board None demo_late) = Inr [red_entry 600 (Some 2000) [''c1'', ''c2'']]"
  by code_simp+

theorem board_lists_every_team_once_case:
  "\<exists>es. fst (demo_board None demo_hinted) = Inr es \<and> length es = 1 \<and>
     mset (map en_team_id es) = image_mset team_id (teams_in demo_serde demo_hinted) \<and>
     map en_rank es = map (\<lambda>i. of_nat (i + 1)) [0..<length es]"
  using board_lists_every_team_once [where X = demo_ext and J = demo_serde and acc = False and freeze = None and
      mode = FloorZero and b = None and s = demo_hinted] demo_board_hinted
  by (cases "get_scoreboard demo_ext (pg_scoreboard_service demo_serde False None FloorZero) None demo_hinted")
     (simp add: demo_board_def)

theorem board_is_sorted_case:
  "\<exists>es. fst (demo_board None demo_late) = Inr es \<and> length es = 1 \<and> sorted_wrt (ranks_before False) es"
proof -
  have "length (db_submissions demo_late) < 2 ^ 53" by (simp add: demo_late_def)
  with board_is_sorted [where X = demo_ext and J = demo_serde and acc = False and freeze = None and
      mode = FloorZero and b = None and s = demo_late and s' = "snd (demo_board None demo_late)"] demo_boards(3)
  show ?thesis by (simp add: demo_board_def prod_eq_iff)
qed


section \<open>Scores\<close>

definition demo_solve :: "string \<Rightarrow> string \<Rightarrow> i64 \<Rightarrow> submission" where
  "demo_solve cid t now =
     \<lparr>sub_id = SubmissionId (cid @ t), sub_challenge_id = cid, sub_team_id = Some (TeamId t),
      sub_account_id = AccountId ''a1'', sub_points = 0, sub_provided_flag = ''flag'', sub_is_correct = True,
      sub_submitted_at = now, sub_submitted_ip = []\<rparr>"

definition demo_score :: "submission list \<Rightarrow> team_solve_score" where
  "demo_score xs = compute_team_solve_score demo_ext demo_team [demo_challenge, demo_second] xs (build_challenge_solvers xs)"

lemma demo_whole: "\<forall>ch \<in> set [demo_challenge, demo_second]. whole_flag ch \<and> decays_down ch"
  by (simp add: demo_second_def demo_challenge_def whole_flag_def decays_down_def)

lemma demo_scores:
  "tss_points (demo_score [demo_solve ''c1'' ''t1'' 1, demo_solve ''c2'' ''t1'' 2]) = 600"
  "tss_points (demo_score [demo_solve ''c2'' ''t1'' 2]) = 500"
  "tss_points (demo_score [demo_solve ''c2'' ''t2'' 3, demo_solve ''c2'' ''t1'' 2]) = 496"
  by code_simp+



theorem own_solve_never_lowers_points_case:
  "tss_points (demo_score [demo_solve ''c2'' ''t1'' 2]) = 500 \<and>
   tss_points (demo_score [demo_solve ''c2'' ''t1'' 2]) \<le> tss_points (demo_score [demo_solve ''c1'' ''t1'' 1, demo_solve ''c2'' ''t1'' 2])"
  using own_solve_never_lowers_points [where X = demo_ext and tm = demo_team and chs = "[demo_challenge, demo_second]" and
      x = "demo_solve ''c1'' ''t1'' 1" and xs = "[demo_solve ''c2'' ''t1'' 2]"] demo_whole demo_scores(2)
  by (simp add: demo_score_def demo_solve_def demo_team_def)

theorem instanced_part_scored_by_any_solve_case:
  "scored_by (demo_challenge\<lparr>ch_flag := Multi [PartialFlag ''p'' Instanced (Fin 1)]\<rparr>) demo_team
     (part_subs demo_ext (demo_challenge\<lparr>ch_flag := Multi [PartialFlag ''p'' Instanced (Fin 1)]\<rparr>)
        [demo_solve ''c1'' ''t1'' 1] (PartialFlag ''p'' Instanced (Fin 1)))"
  by (rule instanced_part_scored_by_any_solve [where x = "demo_solve ''c1'' ''t1'' 1", OF demo_ext_lawful])
     (simp_all add: demo_solve_def demo_challenge_def)

lemma demo_teams: "teams_in demo_serde demo_late = {#demo_team#}"
  by (simp add: teams_in_def List.map_filter_simps team_at_def member_rows_def demo_late_def demo_db_def
      team_of_row_def PgRepos.team_row_of_def account_row_of_def demo_team_def demo_account_def demo_admin_def
      demo_solo_def demo_serde_def right_def)

theorem export_shows_solves_after_the_freeze_case:
  "\<exists>ex. fst (export_ctftime demo_ext (pg_scoreboard_service demo_serde False (Some 1500) FloorZero) demo_late) = Inr ex \<and>
     (\<exists>st \<in> set (ex_standings ex). \<exists>ch' \<in># chals_in demo_serde demo_late. ch_id ch' = ''c2'' \<and>
        st_task_stats st (ch_title ch') \<noteq> None)"
proof -
  let ?run = "export_ctftime demo_ext (pg_scoreboard_service demo_serde False (Some 1500) FloorZero) demo_late"
  have "\<not> isl (fst ?run)" by code_simp
  then obtain ex where ex: "?run = (Inr ex, snd ?run)" by (metis prod.collapse sum.collapse(2))
  let ?x = "map_submission (demo_solve_row ''s2'' ''c2'' 2000)"
  have "?x \<in># subs_in demo_late" by (simp add: subs_in_def demo_late_def)
  moreover have "\<exists>ch \<in># chals_in demo_serde demo_late. ch_id ch = ''c2''"
    using demo_chals by (simp add: chals_in_def demo_late_def demo_second_def demo_challenge_def demo_hidden_def)
  then obtain ch where "ch \<in># chals_in demo_serde demo_late" "ch_id ch = ''c2''" by blast
  ultimately have "\<exists>st \<in> set (ex_standings ex). \<exists>ch' \<in># chals_in demo_serde demo_late. ch_id ch' = sub_challenge_id ?x \<and>
      st_task_stats st (ch_title ch') \<noteq> None"
    by (intro export_shows_solves_after_the_freeze [OF ex, where t = "TeamId ''t1''" and tm = demo_team and ch = ch])
       (simp_all add: map_submission_def demo_solve_row_def demo_teams demo_team_def)
  with ex show ?thesis by (metis fst_conv map_submission_def demo_solve_row_def submission.select_convs(2) submission_row.select_convs(2))
qed

section \<open>Rows\<close>

definition demo_new :: challenge where
  "demo_new = demo_second\<lparr>ch_id := ''c4'', ch_max_attempts := Some \<lparr>ma_limit = 3, ma_mode = Unique\<rparr>\<rparr>"

lemma ok_run: "\<not> isl (fst p) \<Longrightarrow> p = (Inr (projr (fst p)), snd p)"
  by (metis prod.collapse sum.collapse(2))

theorem saved_challenge_is_read_back_case:
  "fst (pg_challenge_by_id demo_serde ''c4'' (snd (pg_challenge_save demo_serde demo_new demo_db))) =
     Inr (Some (demo_new\<lparr>ch_points := (ch_points demo_new)\<lparr>pts_equation := ''500,100,10''\<rparr>\<rparr>))"
proof -
  have saved: "\<not> isl (fst (pg_challenge_save demo_serde demo_new demo_db))" by code_simp
  have read: "\<not> isl (fst (pg_challenge_by_id demo_serde ''c4'' (snd (pg_challenge_save demo_serde demo_new demo_db))))"
    by code_simp
  have eqn: "equation_str (ch_points demo_new) = ''500,100,10''" by code_simp
  have i: "ch_id demo_new = ''c4''" by (simp add: demo_new_def)
  from saved_challenge_is_read_back [OF ok_run [OF saved] ok_run [OF read, folded i] demo_json_roundtrip]
  show ?thesis using ok_run [OF read] by (metis eqn fst_conv i)
qed

theorem taken_team_name_is_reported_as_taken_username_case:
  "pg_team_save demo_serde (demo_team\<lparr>team_id := TeamId ''t2''\<rparr>) demo_db =
     (Inl (Conflict ''auth-username-taken''), demo_db)"
proof (rule taken_team_name_is_reported_as_taken_username [where q = "PgRepos.team_row_of demo_serde demo_team"])
  show "team_row_ok (PgRepos.team_row_of demo_serde (demo_team\<lparr>team_id := TeamId ''t2''\<rparr>))" by code_simp
qed (simp_all add: demo_db_def PgRepos.team_row_of_def demo_team_def)

theorem team_update_sets_the_members_case:
  "\<exists>row \<in> set (db_teams (snd (pg_team_update demo_serde (demo_team\<lparr>team_member_ids := map AccountId [''a3'', ''a9'']\<rparr>) demo_db))).
     trow_id row = ''t1'' \<and>
     set (member_rows (snd (pg_team_update demo_serde (demo_team\<lparr>team_member_ids := map AccountId [''a3'', ''a9'']\<rparr>) demo_db)) row) = {''a3''}"
proof -
  let ?tm = "demo_team\<lparr>team_member_ids := map AccountId [''a3'', ''a9'']\<rparr>"
  let ?run = "pg_team_update demo_serde ?tm demo_db"
  have ok: "\<not> isl (fst ?run)" by code_simp
  have "map trow_id (db_teams (snd ?run)) = [''t1'']" by code_simp
  then have "''t1'' \<in> set (map trow_id (db_teams (snd ?run)))" by (metis list.set_intros(1))
  then obtain row where row: "row \<in> set (db_teams (snd ?run))" "trow_id row = ''t1''" by auto
  from row(2) have "trow_id row = team_str (team_id ?tm)" by (simp add: demo_team_def)
  from team_update_sets_the_members [OF ok_run [OF ok] row(1) this]
  have "set (member_rows (snd ?run) row) = {''a3''}"
    by (simp add: demo_team_def demo_db_def account_row_of_def demo_account_def demo_admin_def demo_solo_def)
  with row show ?thesis by blast
qed

definition demo_notes :: "demo_json db" where
  "demo_notes = demo_db\<lparr>db_notifications := map (\<lambda>(i, t). \<lparr>nrow_id = i, nrow_kind = JKind Announcement, nrow_title = [],
     nrow_message = [], nrow_target = JTarget Everyone, nrow_created_at = t\<rparr>) [(''n1'', 5), (''n2'', 9), (''n3'', 7)]\<rparr>"

theorem recent_notifications_newest_first_case:
  "\<exists>ns. fst (pg_notifications_recent demo_serde 2 demo_notes) = Inr ns \<and> map nt_created_at ns = [9, 7] \<and>
     sorted_wrt (\<lambda>a b. nt_created_at b \<le> nt_created_at a) ns \<and> length ns \<le> 2"
proof -
  let ?run = "pg_notifications_recent demo_serde 2 demo_notes"
  have ok: "\<not> isl (fst ?run)" and times: "map nt_created_at (projr (fst ?run)) = [9, 7]" by code_simp+
  have ok': "fst ?run = Inr (projr (fst ?run))" using ok by (rule sum.collapse(2) [symmetric])
  from recent_notifications_newest_first [OF ok_run [OF ok]] times
  show ?thesis by (intro exI [of _ "projr (fst ?run)"] conjI ok') simp_all
qed

section \<open>Tokens, roles and addresses\<close>

theorem rate_limit_window_case:
  "limited_calls ''ip'' 2 60 [0, 10, 20, 61] new_limiter = [(0, True), (10, True), (20, False), (61, True)] \<and>
   allowed_in 60 61 (limited_calls ''ip'' 2 60 [0, 10, 20, 61] new_limiter) \<le> 2"
proof -
  have "limited_calls ''ip'' 2 60 [0, 10, 20, 61] new_limiter = [(0, True), (10, True), (20, False), (61, True)]"
    by (simp add: check_limit_def new_limiter_def Let_def wrap_i64_def)
  with rate_limit_window [of "[0, 10, 20, 61]" 60 61 "''ip''" 2] show ?thesis by (simp add: clock_value_def)
qed

theorem issued_token_authenticates_case:
  "jwt_decode demo_crypto 1059 (jwt_issue demo_crypto 1000 ''a1'' 60 ''key'') ''key'' =
     Inr (hs256_header, \<lparr>cl_sub = ''a1'', cl_iat = 1000, cl_exp = 1060\<rparr>) \<and>
   jwt_decode demo_crypto 1060 (jwt_issue demo_crypto 1000 ''a1'' 60 ''key'') ''key'' = Inl Expired"
  using issued_token_authenticates [OF demo_crypto_lawful, of 1000 60 _ "''a1''" "''key''"]
  by (simp add: i64_range_def)

lemma demo_session: "jwt_decode demo_crypto 1001 (jwt_issue demo_crypto 1000 ''a2'' 60 ''key'') ''key'' =
    Inr (hs256_header, \<lparr>cl_sub = ''a2'', cl_iat = 1000, cl_exp = 1060\<rparr>)"
  by code_simp

theorem accepted_token_is_signed_case:
  "\<exists>a b c. split_on (CHR ''.'') (jwt_issue demo_crypto 1000 ''a2'' 60 ''key'') = [a, b, c] \<and>
     hex_decode c = Some (''key/'' @ a @ ''.'' @ b)"
  using accepted_token_is_signed [OF demo_session] by (simp add: demo_crypto_def) blast


theorem forwarded_address_not_spoofable_case:
  "client_ip True [(''x-forwarded-for'', ''1.2.3.4'' @ '','' @ '' 10.0.0.9'')] None = ''10.0.0.9''"
proof -
  have t: "trim '' 10.0.0.9'' = ''10.0.0.9''" and h: "header_str (''1.2.3.4'' @ '','' @ '' 10.0.0.9'') = Some (''1.2.3.4'' @ '','' @ '' 10.0.0.9'')"
    by code_simp+
  show ?thesis using forwarded_address_not_spoofable [OF _ _ h, of "[]" None] by (simp add: t)
qed

section \<open>Requests\<close>

definition demo_app :: "demo_json app" where
  "demo_app =
     \<lparr>ap_serde = demo_serde, ap_ext = demo_ext, ap_crypto = demo_crypto, ap_jwt_secret = ''key'',
      ap_hint_mode = FloorZero, ap_notifications = default_notification_config,
      ap_brackets = [''open'' \<mapsto> ''true'']\<rparr>"

definition demo_world :: "demo_json db \<Rightarrow> demo_json world" where
  "demo_world db = \<lparr>w_db = db, w_limiter = new_limiter, w_sent = []\<rparr>"

lemma demo_app_simps [simp]:
  "ap_serde demo_app = demo_serde" "ap_ext demo_app = demo_ext" "ap_crypto demo_app = demo_crypto"
  "ap_jwt_secret demo_app = ''key''" "w_db (demo_world db) = db"
  by (simp_all add: demo_app_def demo_world_def)

lemma demo_player: "pg_account_by_id demo_serde (AccountId ''a1'') demo_db = (Inr (Some demo_account), demo_db)"
  by (simp add: pg_account_by_id_def fetch_optional_def select_def statement_def demo_db_def account_row_of_def
      demo_account_def try_await_def decoded_opt_def decoded_def map_account_def demo_serde_def role_of_str_def role_str_def)

theorem hidden_challenge_takes_no_flags_case:
  "case api_submit_flag demo_app ''s1'' ''n1'' (AccountId ''a1'') ''10.0.0.1'' ''c3'' ''flag'' (demo_world demo_db) of (r, w') \<Rightarrow>
     (\<exists>e. r = Inl e \<and> err_status e \<in> {403, 429}) \<and> tables_of (w_db w') = tables_of demo_db \<and> w_sent w' = []"
proof -
  have c3: "pg_challenge_by_id demo_serde ''c3'' demo_db =
      (Inr (Some (demo_hidden\<lparr>ch_points := (ch_points demo_hidden)\<lparr>pts_equation := equation_str (ch_points demo_hidden)\<rparr>\<rparr>)), demo_db)"
    using demo_challenge_row [of demo_hidden]
    by (simp add: pg_challenge_by_id_def fetch_optional_def select_def statement_def demo_db_def challenge_row_of_def
        demo_hidden_def demo_challenge_def demo_second_def try_await_def decoded_opt_def decoded_def)
  have "acc_role demo_account \<noteq> Admin" "ch_visibility demo_hidden \<noteq> Visible"
    by (simp_all add: demo_account_def demo_hidden_def)
  with hidden_challenge_takes_no_flags [of demo_app "AccountId ''a1''" "demo_world demo_db"] demo_player c3
  show ?thesis by (simp add: demo_world_def)
qed

definition demo_flaky :: "demo_json db" where
  "demo_flaky = demo_db\<lparr>db_faults := [None, Some (SqlxIo ''timeout'')]\<rparr>"

theorem gate_fails_open_case:
  "\<not> isl (fst (api_submit_flag demo_app ''s1'' ''n1'' (AccountId ''a1'') ''10.0.0.1'' ''c3'' ''flag'' (demo_world demo_flaky)))"
proof -
  let ?db1 = "demo_db\<lparr>db_faults := [Some (SqlxIo ''timeout'')]\<rparr>"
  let ?run = "submit_flag demo_ext (pg_solve_service demo_serde) ''s1'' 1000 ''c3'' (Some (TeamId ''t1'')) (AccountId ''a1'') ''flag'' ''10.0.0.1'' demo_db"
  have acc: "pg_account_by_id demo_serde (AccountId ''a1'') demo_flaky = (Inr (Some demo_account), ?db1)"
    by (simp add: demo_flaky_def pg_account_by_id_def fetch_optional_def select_def statement_def demo_db_def account_row_of_def
      demo_account_def try_await_def decoded_opt_def decoded_def map_account_def demo_serde_def role_of_str_def role_str_def)
  have chal: "pg_challenge_by_id demo_serde ''c3'' ?db1 = (Inl (Connection ''timeout''), demo_db)"
    by (simp add: pg_challenge_by_id_def fetch_optional_def select_def statement_def try_await_def repo_error_of_sqlx_def demo_db_def)
  have "\<not> isl (fst ?run)" by code_simp
  then have svc: "?run = (Inr (projr (fst ?run)), snd ?run)" by (rule ok_run)
  have lim: "limit_call k 10 (demo_world demo_flaky) = (Inr () :: localized_error + unit, demo_world demo_flaky\<lparr>w_limiter := new_limiter(k := [1000])\<rparr>)" for k
    by (simp add: limit_call_def check_limit_def new_limiter_def demo_world_def demo_flaky_def demo_db_def)
  have lim2: "limit_call (''sub-acc:'' @ ''a1'') 10 (demo_world demo_flaky\<lparr>w_limiter := new_limiter(''sub-ip:'' @ ''10.0.0.1'' := [1000])\<rparr>) =
      (Inr () :: localized_error + unit, demo_world demo_flaky\<lparr>w_limiter := new_limiter(''sub-ip:'' @ ''10.0.0.1'' := [1000], ''sub-acc:'' @ ''a1'' := [1000])\<rparr>)"
    by (simp add: limit_call_def check_limit_def new_limiter_def demo_world_def demo_flaky_def demo_db_def)
  have clock: "db_clock demo_flaky = 1000" by (simp add: demo_flaky_def demo_db_def)
  have player: "acc_role demo_account \<noteq> Admin" "acc_team_id demo_account = Some (TeamId ''t1'')" by (simp_all add: demo_account_def)
  have "fst (api_submit_flag demo_app ''s1'' ''n1'' (AccountId ''a1'') ''10.0.0.1'' ''c3'' ''flag'' (demo_world demo_flaky)) = Inr (projr (fst ?run))"
    by (rule gate_fails_open [where account = demo_account and e = "Connection ''timeout''" and ?db1.0 = ?db1 and ?db2.0 = demo_db and
        ?w1.0 = "demo_world demo_flaky\<lparr>w_limiter := new_limiter(''sub-ip:'' @ ''10.0.0.1'' := [1000])\<rparr>"])
       (use acc chal svc lim [of "''sub-ip:'' @ ''10.0.0.1''"] lim2 clock player in simp_all)
  then show ?thesis by simp
qed

theorem created_invite_is_valid_until_it_expires_case:
  "\<exists>token. fst (api_create_invite demo_app (AccountId ''a1'') ''t1'' (Some 1000) (demo_world demo_db)) = Inr (token, 605800) \<and>
     verify_invite_token demo_crypto 605800 token ''key'' = Some (''t1'', 605800) \<and>
     verify_invite_token demo_crypto 605801 token ''key'' = None"
proof -
  let ?run = "api_create_invite demo_app (AccountId ''a1'') ''t1'' (Some 1000) (demo_world demo_db)"
  have "map_sum id snd (fst ?run) = Inr 605800" by code_simp
  then obtain token where run: "?run = (Inr (token, 605800), snd ?run)"
    by (cases "fst ?run") (auto simp: prod_eq_iff)
  have clock: "db_clock demo_db = 1000" by (simp add: demo_db_def)
  note inv = created_invite_is_valid_until_it_expires [OF run]
  show ?thesis
    using inv [of 605800] inv [of 605801] run clock demo_crypto_lawful by (intro exI [of _ token]) (simp add: prod_eq_iff)
qed

theorem session_signatures_are_no_invites_case:
  "\<exists>a b c. split_on (CHR ''.'') (jwt_issue demo_crypto 1000 ''a2'' 60 ''key'') = [a, b, c] \<and>
     a @ ''.'' @ b \<noteq> invite_message ''t1'' 605800"
proof -
  have "length (split_on (CHR ''.'') (jwt_issue demo_crypto 1000 ''a2'' 60 ''key'')) = 3" by code_simp
  then obtain a b c where "split_on (CHR ''.'') (jwt_issue demo_crypto 1000 ''a2'' 60 ''key'') = [a, b, c]"
    by (auto simp: numeral_3_eq_3 length_Suc_conv)
  with session_signatures_are_no_invites [OF demo_crypto_lawful demo_session this] show ?thesis by blast
qed

definition demo_token :: string where
  "demo_token = generate_invite_token demo_crypto ''t1'' 5000 ''key''"

definition demo_joining :: "demo_json db" where
  "demo_joining = demo_db\<lparr>db_accounts := map (account_row_of demo_serde)
     [demo_account, demo_admin, demo_solo\<lparr>acc_team_id := Some (TeamId ''t1'')\<rparr>]\<rparr>"

definition demo_extended :: team where
  "demo_extended = demo_team\<lparr>team_member_ids := map AccountId [''a1'', ''a3'']\<rparr>"

text \<open>The statements of a join, one method at a time: the faults still to come are \<open>fs\<close>.\<close>

lemma demo_invite: "verify_invite_token demo_crypto 1000 demo_token ''key'' = Some (''t1'', 5000)"
  by code_simp

lemma demo_find_team:
  "pg_team_by_id demo_serde (TeamId ''t1'') (demo_db\<lparr>db_faults := None # None # fs\<rparr>) =
     (Inr (Some demo_team), demo_db\<lparr>db_faults := fs\<rparr>)"
  by (simp add: pg_team_by_id_def map_team_opt_def map_team_def fetch_optional_def fetch_all_def select_def
      statement_def try_await_def decoded_def team_of_row_def demo_db_def PgRepos.team_row_of_def
      account_row_of_def demo_team_def demo_account_def demo_admin_def demo_solo_def demo_serde_def)

lemma demo_find_solo:
  "pg_account_by_id demo_serde (AccountId ''a3'') (demo_db\<lparr>db_faults := None # fs\<rparr>) =
     (Inr (Some demo_solo), demo_db\<lparr>db_faults := fs\<rparr>)"
  by (simp add: pg_account_by_id_def fetch_optional_def select_def statement_def demo_db_def account_row_of_def
      demo_account_def demo_admin_def demo_solo_def try_await_def decoded_opt_def decoded_def map_account_def
      demo_serde_def role_of_str_def role_str_def)

lemma demo_update_solo:
  "pg_account_update demo_serde (demo_solo\<lparr>acc_team_id := Some (TeamId ''t1'')\<rparr>) (demo_db\<lparr>db_faults := None # fs\<rparr>) =
     (Inr (), demo_joining\<lparr>db_faults := fs\<rparr>)"
proof -
  have ok: "account_row_ok (account_row_of demo_serde (demo_solo\<lparr>acc_team_id := Some (TeamId ''t1'')\<rparr>))" by code_simp
  show ?thesis
    by (simp add: pg_account_update_def Let_def change_def statement_def checked_def ok)
       (simp add: demo_db_def demo_joining_def account_row_of_def demo_account_def demo_admin_def demo_solo_def
         account_clash_def team_exists_def PgRepos.team_row_of_def demo_team_def)
qed

lemma demo_update_team:
  "map arow_team_id (db_accounts (snd (pg_team_update demo_serde demo_extended (demo_joining\<lparr>db_faults := []\<rparr>)))) = [Some ''t1'', None, Some ''t1'']"
  "map arow_team_id (db_accounts (snd (pg_team_update demo_serde demo_extended
     (demo_joining\<lparr>db_faults := [None, None, Some (SqlxIo ''timeout'')]\<rparr>)))) = [None, None, None]"
  by code_simp+

definition demo_join :: "sqlx_error option list \<Rightarrow> (localized_error + unit) \<times> demo_json world" where
  "demo_join faults =
     api_join_team demo_app (AccountId ''a3'') demo_token (demo_world (demo_db\<lparr>db_faults := None # None # None # None # faults\<rparr>))"

lemma await_on_db:
  "m db = (r, db') \<Longrightarrow> try_await (attempt (on_db m)) k (demo_world db) = k r (demo_world db')"
  by (simp add: try_await_def attempt_def on_db_def demo_world_def)

lemma demo_join_run:
  "demo_join faults = (Inr (), demo_world (snd (pg_team_update demo_serde demo_extended (demo_joining\<lparr>db_faults := faults\<rparr>))))"
proof -
  have allowed: "bracket_allows demo_app demo_team demo_solo"
    by (simp add: bracket_allows_def demo_app_def demo_team_def validate_bracket_join_rhai_def demo_ext_def)
  have clock: "db_clock (demo_db\<lparr>db_faults := fs\<rparr>) = 1000" for fs by (simp add: demo_db_def)
  have ids: "team_id demo_team = TeamId ''t1''" "AccountId ''a3'' \<notin> set (team_member_ids demo_team)"
    "demo_team\<lparr>team_member_ids := team_member_ids demo_team @ [AccountId ''a3'']\<rparr> = demo_extended"
    by (simp_all add: demo_team_def demo_extended_def)
  have now: "try_await now_is k (demo_world db) = k (db_clock db) (demo_world db)" for k :: "i64 \<Rightarrow> (demo_json world, localized_error, unit) act" and db
    by (simp add: try_await_def)
  have "demo_join faults = join_as demo_app (AccountId ''a3'') demo_team demo_solo (demo_world (demo_db\<lparr>db_faults := None # faults\<rparr>))"
    unfolding demo_join_def api_join_team_def find_account_def demo_app_simps now clock demo_invite option.case prod.case
      await_on_db [where m = "pg_team_by_id _ _", OF demo_find_team]
      await_on_db [where m = "pg_account_by_id _ _", OF demo_find_solo] sum.case ..
  also have "\<dots> = add_member demo_app (AccountId ''a3'') demo_team (demo_world (demo_joining\<lparr>db_faults := faults\<rparr>))"
    by (simp add: join_as_def allowed ids(1) await_on_db [where m = "pg_account_update _ _", OF demo_update_solo])
  also have "\<dots> = (Inr (), demo_world (snd (pg_team_update demo_serde demo_extended (demo_joining\<lparr>db_faults := faults\<rparr>))))"
    by (simp add: add_member_def ids await_on_db [where m = "pg_team_update _ _", OF prod.collapse [symmetric]])
  finally show ?thesis .
qed

theorem joining_needs_a_signed_invite_case:
  "\<exists>t e es sig tm account db1 db2.
    split_on (CHR '':'') demo_token = [t, es, sig] \<and> parse_i64 es = Some e \<and> 1000 \<le> e \<and>
    hex_decode sig = Some (''key/'' @ invite_message t e) \<and>
    tm \<in># teams_in demo_serde demo_db \<and> team_id tm = TeamId t \<and>
    acc_id account = AccountId ''a3'' \<and> bracket_allows demo_app tm account \<and>
    pg_account_update demo_serde (account\<lparr>acc_team_id := Some (TeamId t)\<rparr>) db1 = (Inr (), db2)"
proof -
  let ?db = "demo_db\<lparr>db_faults := [None, None, None, None]\<rparr>"
  have clock: "db_clock ?db = 1000" by (simp add: demo_db_def)
  have teams: "teams_in demo_serde ?db = teams_in demo_serde demo_db" by (rule views_eq) simp
  show ?thesis
    using joining_needs_a_signed_invite [OF demo_join_run [unfolded demo_join_def, of "[]"]]
    by (simp add: clock teams demo_crypto_def)
qed


section \<open>Views\<close>

theorem locked_iff_hints_refused_case:
  "pc_locked (public_view demo_ext 0 [] [] (Some (TeamId ''t1'')) (AccountId ''a1'') False demo_second) \<and>
   \<not> visible_to demo_second (Some (TeamId ''t1'')) (AccountId ''a1'') [] \<and>
   \<not> pc_locked (public_view demo_ext 0 [demo_solve ''c1'' ''t1'' 1] [] (Some (TeamId ''t1'')) (AccountId ''a1'') False demo_second) \<and>
   visible_to demo_second (Some (TeamId ''t1'')) (AccountId ''a1'') [demo_solve ''c1'' ''t1'' 1]"
proof -
  have v: "ch_visibility demo_second \<noteq> Hidden" by (simp add: demo_second_def demo_challenge_def)
  have "pc_locked (public_view demo_ext 0 [] [] (Some (TeamId ''t1'')) (AccountId ''a1'') False demo_second)"
    "\<not> pc_locked (public_view demo_ext 0 [demo_solve ''c1'' ''t1'' 1] [] (Some (TeamId ''t1'')) (AccountId ''a1'') False demo_second)"
    by code_simp+
  with locked_iff_hints_refused [OF v] show ?thesis by blast
qed

theorem unmet_prerequisites_hide_the_task_case:
  "let pc = public_view demo_ext 0 [] [] None (AccountId ''a3'') False demo_second in
    pc_locked pc \<and> pc_description pc = HtmlString [] \<and> pc_files pc = [] \<and> pc_hints pc = [] \<and> pc_connection_info pc = None"
  by (rule unmet_prerequisites_hide_the_task [where i = "''c1''"])
     (simp_all add: demo_second_def demo_challenge_def viewer_solved_ids_def)

lemma demo_list:
  "map_sum id (map pc_id) (fst (api_list_challenges demo_app (AccountId ''a1'') (demo_world demo_hinted))) = Inr [''c1'', ''c2'']"
  "map_sum id (map (\<lambda>pc. map ph_content (pc_hints pc))) (fst (api_list_challenges demo_app (AccountId ''a1'') (demo_world demo_hinted))) =
     Inr [[Some (HtmlString ''look'')], [None]]"
  by code_simp+

theorem hidden_challenges_are_not_listed_case:
  "\<exists>pcs pc. fst (api_list_challenges demo_app (AccountId ''a1'') (demo_world demo_hinted)) = Inr pcs \<and> pc \<in> set pcs \<and>
     pc_id pc = ''c2'' \<and> (\<exists>ch \<in># chals_in demo_serde demo_hinted. ch_id ch = ''c2'' \<and> ch_visibility ch \<noteq> Hidden)"
proof -
  let ?run = "api_list_challenges demo_app (AccountId ''a1'') (demo_world demo_hinted)"
  obtain pcs where run: "?run = (Inr pcs, snd ?run)" and ids: "map pc_id pcs = [''c1'', ''c2'']"
    using demo_list(1) by (cases "fst ?run") (auto simp: prod_eq_iff)
  have "''c2'' \<in> set (map pc_id pcs)" unfolding ids by simp
  then obtain pc where pc: "pc \<in> set pcs" "pc_id pc = ''c2''" by auto
  have "\<not> stored_admin demo_hinted (AccountId ''a1'')" by code_simp
  with hidden_challenges_are_not_listed [OF run _ pc(1)]
  have "\<exists>ch \<in># chals_in demo_serde demo_hinted. pc_id pc = ch_id ch \<and> ch_visibility ch \<noteq> Hidden" by simp
  with run pc show ?thesis by (metis fst_conv)
qed

theorem hint_text_only_when_unlocked_case:
  "\<exists>u \<in># unlocks_in demo_hinted. hu_challenge_id u = ''c1'' \<and> hu_hint_index u = 0 \<and>
     unlock_owned_by (team_of_found (fst (pg_account_by_id demo_serde (AccountId ''a1'') demo_hinted))) (AccountId ''a1'') u"
proof -
  let ?run = "api_list_challenges demo_app (AccountId ''a1'') (demo_world demo_hinted)"
  obtain pcs where run: "?run = (Inr pcs, snd ?run)" and ids: "map pc_id pcs = [''c1'', ''c2'']"
    and hints: "map (\<lambda>pc. map ph_content (pc_hints pc)) pcs = [[Some (HtmlString ''look'')], [None]]"
    using demo_list by (cases "fst ?run") (auto simp: prod_eq_iff)
  then obtain pc pcs' where pc: "pcs = pc # pcs'" "pc_id pc = ''c1''" "map ph_content (pc_hints pc) = [Some (HtmlString ''look'')]"
    by (cases pcs) auto
  then have "0 < length (pc_hints pc)" "ph_content (pc_hints pc ! 0) \<noteq> None" by (cases "pc_hints pc"; simp)+
  with hint_text_only_when_unlocked [OF run, of pc 0] pc(1,2) show ?thesis by simp
qed

section \<open>Values\<close>

theorem value_decays_between_its_bounds_case:
  "calculate_dynamic_points 500 100 10 11 = 300 \<and>
   calculate_dynamic_points 500 100 10 21 \<le> calculate_dynamic_points 500 100 10 11"
proof -
  have "calculate_dynamic_points 500 100 10 11 = 300" by code_simp
  with value_decays_between_its_bounds [of 100 500 11 21 10] show ?thesis by simp
qed

end
