(* ===== verification/Contest.thy ===== *)
theory Contest
  imports Platform
begin

text \<open>
  What the event is about, without database, faults or clock: who solved which challenge and
  who bought which hint at which price, and the two moves of the game with their rules. Every
  run of the platform is a sequence of moves.
\<close>

section \<open>The game\<close>

text \<open>A player is an account with the team it plays in, if any.\<close>

type_synonym player = "team_id option \<times> account_id"

record contest =
  solved :: "(player \<times> string) set"
  bought :: "(player \<times> string \<times> u32 \<times> u32) set"

text \<open>Whose solves count for a player's prerequisites, and who is the same contestant.\<close>

definition counts_for :: "player \<Rightarrow> player \<Rightarrow> bool" where
  "counts_for p q \<longleftrightarrow> (case fst p of Some t \<Rightarrow> fst q = Some t | None \<Rightarrow> snd q = snd p)"

definition same_side :: "player \<Rightarrow> player \<Rightarrow> bool" where
  "same_side p q \<longleftrightarrow> fst q = fst p \<and> (fst p = None \<longrightarrow> snd q = snd p)"

definition open_to :: "challenge \<Rightarrow> player \<Rightarrow> contest \<Rightarrow> bool" where
  "open_to ch p \<sigma> \<longleftrightarrow>
     (\<forall>i. Solve i \<in> set (ch_requirements ch) \<longrightarrow> (\<exists>q. counts_for p q \<and> (q, i) \<in> solved \<sigma>))"

text \<open>
  A challenge with one flag is solved once by each side, on a consensus challenge once by each
  member; a challenge with several parts may be solved part by part.
\<close>

definition may_solve :: "challenge \<Rightarrow> player \<Rightarrow> contest \<Rightarrow> bool" where
  "may_solve ch p \<sigma> \<longleftrightarrow>
     open_to ch p \<sigma> \<and>
     (whole_flag ch \<longrightarrow>
        (\<forall>q. same_side p q \<and> (ch_team_consensus ch \<longrightarrow> snd q = snd p) \<longrightarrow> (q, ch_id ch) \<notin> solved \<sigma>))"

definition may_buy :: "challenge \<Rightarrow> u32 \<Rightarrow> player \<Rightarrow> contest \<Rightarrow> bool" where
  "may_buy ch i p \<sigma> \<longleftrightarrow>
     unat i < length (ch_hints ch) \<and>
     (\<forall>q price. same_side p q \<longrightarrow> (q, ch_id ch, i, price) \<notin> bought \<sigma>)"

inductive move :: "challenge multiset \<Rightarrow> contest \<Rightarrow> contest \<Rightarrow> bool" for C where
  solve: "ch \<in># C \<Longrightarrow> may_solve ch p \<sigma> \<Longrightarrow> move C \<sigma> (\<sigma>\<lparr>solved := insert (p, ch_id ch) (solved \<sigma>)\<rparr>)"
| buy: "ch \<in># C \<Longrightarrow> may_buy ch i p \<sigma> \<Longrightarrow> move C \<sigma> (\<sigma>\<lparr>bought := insert (p, ch_id ch, i, price) (bought \<sigma>)\<rparr>)"

inductive_simps move_iff: "move C \<sigma> \<tau>"

section \<open>The contest in the database\<close>

abbreviation sub_player :: "submission \<Rightarrow> player" where
  "sub_player x \<equiv> (sub_team_id x, sub_account_id x)"

definition solves_in :: "submission multiset \<Rightarrow> (player \<times> string) set" where
  "solves_in M = (\<lambda>x. (sub_player x, sub_challenge_id x)) ` {x \<in> set_mset M. sub_is_correct x}"

definition purchases_in :: "hint_unlock multiset \<Rightarrow> (player \<times> string \<times> u32 \<times> u32) set" where
  "purchases_in M =
     (\<lambda>u. ((hu_team_id u, hu_account_id u), hu_challenge_id u, hu_hint_index u, hu_cost u)) ` set_mset M"

definition contest_of :: "'j db \<Rightarrow> contest" where
  "contest_of s = \<lparr>solved = solves_in (subs_in s), bought = purchases_in (unlocks_in s)\<rparr>"

lemma solves_in_add [simp]:
  "solves_in (add_mset x M) =
     (if sub_is_correct x then insert (sub_player x, sub_challenge_id x) (solves_in M) else solves_in M)"
  by (auto simp: solves_in_def)

lemma purchases_in_add [simp]:
  "purchases_in (add_mset u M) =
     insert ((hu_team_id u, hu_account_id u), hu_challenge_id u, hu_hint_index u, hu_cost u) (purchases_in M)"
  by (simp add: purchases_in_def)

lemma belongs_counts: "belongs tm acct x \<longleftrightarrow> counts_for (tm, acct) (sub_player x)"
  by (simp add: belongs_def counts_for_def split: option.split)

lemma own_side: "hint_own_sub tm acct x \<longleftrightarrow> same_side (tm, acct) (sub_player x)"
  by (auto simp: hint_own_sub_def same_side_def split: option.splits)

lemma owned_side: "unlock_owned_by tm acct u \<longleftrightarrow> same_side (tm, acct) (hu_team_id u, hu_account_id u)"
  by (auto simp: unlock_owned_by_def same_side_def split: option.splits)

lemma open_to_iff: "requirements_solved ch tm acct (subs_in s) \<longleftrightarrow> open_to ch (tm, acct) (contest_of s)"
proof -
  have "solves_of i tm acct M \<noteq> {#} \<longleftrightarrow> (\<exists>q. counts_for (tm, acct) q \<and> (q, i) \<in> solves_in M)" for i M
    by (auto simp: solves_of_def attempts_of_def solves_in_def belongs_counts filter_filter_mset
        filter_mset_eq_conv multiset_nonemptyE image_iff)
  then show ?thesis by (simp add: requirements_solved_def open_to_def contest_of_def)
qed

lemma may_solve_admitted:
  assumes "admits X ch (ch_id ch) tm acct f active (subs_in s)" "grade X ch f active"
  shows "may_solve ch (tm, acct) (contest_of s)"
proof -
  have "(q, ch_id ch) \<notin> solved (contest_of s)"
    if "whole_flag ch" "same_side (tm, acct) q" "ch_team_consensus ch \<longrightarrow> snd q = acct" for q
  proof
    assume "(q, ch_id ch) \<in> solved (contest_of s)"
    then obtain x where x: "x \<in># subs_in s" "sub_is_correct x" "sub_player x = q" "sub_challenge_id x = ch_id ch"
      by (auto simp: contest_of_def solves_in_def)
    have "not_duplicate X ch (ch_id ch) tm acct f active (subs_in s)" using assms(1) by (simp add: admits_def)
    note none = not_duplicate_whole [OF this that(1) assms(2)]
    have "x \<in># filter_mset (\<lambda>x. ch_team_consensus ch \<longrightarrow> sub_account_id x = acct) (viewer_solves (ch_id ch) tm acct (subs_in s))"
      using x that(2,3) by (auto simp: viewer_solves_def viewer_rows_def own_side)
    with none show False by (metis empty_not_add_mset multi_member_split)
  qed
  with assms(1) show ?thesis by (auto simp: may_solve_def admits_def open_to_iff)
qed

lemma may_buy_fresh:
  assumes "unlocks_of (ch_id ch) i tm acct (unlocks_in s) = {#}" "unat i < length (ch_hints ch)"
  shows "may_buy ch i (tm, acct) (contest_of s)"
proof -
  have "\<forall>u \<in># unlocks_in s. hu_challenge_id u = ch_id ch \<and> hu_hint_index u = i \<longrightarrow>
      \<not> same_side (tm, acct) (hu_team_id u, hu_account_id u)"
    using assms(1) unfolding unlocks_of_def owned_side filter_mset_eq_conv by auto
  with assms(2) show ?thesis by (auto simp: may_buy_def contest_of_def purchases_in_def)
qed

lemma step_moves:
  assumes "step X J mode s s'"
  shows "move (chals_in J s) (contest_of s) (contest_of s') \<or> contest_of s' = contest_of s"
  using assms
proof (cases rule: step_event)
  case (submitted nid now cid tm acct f ip r)
  from submitted(1) show ?thesis
  proof (cases rule: submit_outcome)
    case (rejected e)
    with submitted(3) show ?thesis by (simp add: contest_of_def)
  next
    case (recorded ch active n)
    let ?x = "graded X ch nid now cid tm acct f ip active n"
    show ?thesis
    proof (cases "grade X ch f active")
      case True
      with recorded may_solve_admitted [of X ch tm acct f active s]
      have "may_solve ch (tm, acct) (contest_of s)" by simp
      moreover have "contest_of s' = (contest_of s)\<lparr>solved := insert ((tm, acct), ch_id ch) (solved (contest_of s))\<rparr>"
        using recorded(2,4) submitted(3) True by (simp add: contest_of_def)
      ultimately show ?thesis using move.solve [OF recorded(1)] by simp
    next
      case False
      with recorded(4) submitted(3) show ?thesis by (simp add: contest_of_def)
    qed
  qed
next
  case (unlocked nid cid i tm acct now admin r)
  from unlocked(1) show ?thesis
  proof (cases rule: pg_hint.unlock_hint_cases)
    case (fresh ch xs s1 s2 cost)
    with may_buy_fresh [of ch i tm acct s] have "may_buy ch i (tm, acct) (contest_of s)" by simp
    moreover have "contest_of s' =
        (contest_of s)\<lparr>bought := insert ((tm, acct), ch_id ch, i, cost) (bought (contest_of s))\<rparr>"
      using fresh(2,10) unlocked(3) by (simp add: contest_of_def)
    ultimately show ?thesis using move.buy [OF fresh(1)] by simp
  qed (use unlocked(3) in \<open>simp_all add: contest_of_def\<close>)
next
  case other
  then show ?thesis by (simp add: contest_of_def)
qed


section \<open>What the rules imply\<close>

text \<open>Everything solved was open to its solver, and every hint has one price for one side.\<close>

definition earned :: "challenge multiset \<Rightarrow> contest \<Rightarrow> bool" where
  "earned C \<sigma> \<longleftrightarrow> (\<forall>p c. (p, c) \<in> solved \<sigma> \<longrightarrow> (\<exists>ch \<in># C. ch_id ch = c \<and> open_to ch p \<sigma>))"

definition paid_once :: "contest \<Rightarrow> bool" where
  "paid_once \<sigma> \<longleftrightarrow>
     (\<forall>p q c i x y. (p, c, i, x) \<in> bought \<sigma> \<longrightarrow> (q, c, i, y) \<in> bought \<sigma> \<longrightarrow> same_side p q \<longrightarrow> p = q \<and> x = y)"

lemma open_to_mono: "open_to ch p \<sigma> \<Longrightarrow> solved \<sigma> \<subseteq> solved \<tau> \<Longrightarrow> open_to ch p \<tau>"
  unfolding open_to_def by blast

lemma same_side_sym: "same_side p q \<Longrightarrow> same_side q p"
  by (auto simp: same_side_def)

lemma move_grows: "move C \<sigma> \<tau> \<Longrightarrow> solved \<sigma> \<subseteq> solved \<tau> \<and> bought \<sigma> \<subseteq> bought \<tau>"
  by (auto simp: move_iff)

lemma move_earned: "move C \<sigma> \<tau> \<Longrightarrow> earned C \<sigma> \<Longrightarrow> earned C \<tau>"
proof (induction rule: move.induct)
  case (solve ch p \<sigma>)
  let ?t = "\<sigma>\<lparr>solved := insert (p, ch_id ch) (solved \<sigma>)\<rparr>"
  have mono: "open_to x q \<sigma> \<Longrightarrow> open_to x q ?t" for x q by (erule open_to_mono) auto
  have "open_to ch p ?t" using solve by (intro mono) (simp add: may_solve_def)
  show ?case
    unfolding earned_def
  proof (intro allI impI)
    fix q c
    assume "(q, c) \<in> solved ?t"
    then consider "q = p" "c = ch_id ch" | "(q, c) \<in> solved \<sigma>" by auto
    then show "\<exists>x \<in># C. ch_id x = c \<and> open_to x q ?t"
    proof cases
      case 1
      with solve(1) \<open>open_to ch p ?t\<close> show ?thesis by blast
    next
      case 2
      with solve(3) mono show ?thesis unfolding earned_def by metis
    qed
  qed
next
  case (buy ch i p \<sigma> price)
  then show ?case by (simp add: earned_def open_to_def)
qed

lemma move_paid_once: "move C \<sigma> \<tau> \<Longrightarrow> paid_once \<sigma> \<Longrightarrow> paid_once \<tau>"
proof (induction rule: move.induct)
  case (buy ch i p \<sigma> price)
  have new: "\<not> (same_side p q \<or> same_side q p)" if "(q, ch_id ch, i, x) \<in> bought \<sigma>" for q x
    using buy(2) that same_side_sym unfolding may_buy_def by blast
  have old: "p = q \<and> x = y"
    if "(p, c, j, x) \<in> bought \<sigma>" "(q, c, j, y) \<in> bought \<sigma>" "same_side p q" for p q c j x y
    using buy(3) that unfolding paid_once_def by blast
  show ?case
    unfolding paid_once_def by (auto dest: new old)
qed (simp add: paid_once_def)

text \<open>So a game that was fair stays fair.\<close>

lemma moves_fair:
  assumes "(move C)\<^sup>*\<^sup>* \<sigma> \<tau>" "earned C \<sigma>" "paid_once \<sigma>"
  shows "earned C \<tau> \<and> paid_once \<tau> \<and> solved \<sigma> \<subseteq> solved \<tau> \<and> bought \<sigma> \<subseteq> bought \<tau>"
  using assms
proof (induction rule: rtranclp_induct)
  case (step \<tau> \<upsilon>)
  with move_grows [OF step(2)] show ?case by (blast intro: move_earned move_paid_once)
qed simp

end
