(* ===== verification/Races.thy ===== *)
theory Races
  imports Platform
begin

text \<open>
  Requests that overlap. The handlers run on many tasks and use no transaction, so between two
  awaits of one request any statements of others may take effect. Here each repository call of
  a service is preceded by an arbitrary change of the store, and the service is the same
  definition, called with a dictionary of such repositories. What is promised to a request
  that overlaps with others is proved from what each of these changes keeps to.
\<close>

section \<open>Repositories under contention\<close>

text \<open>
  The state carries the changes others will make, one per call; when none is left, none is made.
\<close>

type_synonym 's contested = "'s \<times> ('s \<Rightarrow> 's) list"

definition contended :: "('s, 'e, 'a) act \<Rightarrow> ('s contested, 'e, 'a) act" where
  "contended m =
     (\<lambda>(s, others). case m (case others of [] \<Rightarrow> s | g # _ \<Rightarrow> g s) of (r, s') \<Rightarrow> (r, (s', tl others)))"

definition contended_challenge_repo :: "'s challenge_repo \<Rightarrow> 's contested challenge_repo" where
  "contended_challenge_repo CR =
     \<lparr>ir_find_active_flag = \<lambda>c tm acct. contended (ir_find_active_flag CR c tm acct),
      ir_get_instance_ip = \<lambda>i. contended (ir_get_instance_ip CR i),
      cr_find_by_id = \<lambda>c. contended (cr_find_by_id CR c), cr_find_all = contended (cr_find_all CR),
      cr_save = \<lambda>ch. contended (cr_save CR ch), cr_update = \<lambda>ch. contended (cr_update CR ch),
      cr_delete = \<lambda>c b. contended (cr_delete CR c b)\<rparr>"

definition contended_submission_repo :: "'s submission_repo \<Rightarrow> 's contested submission_repo" where
  "contended_submission_repo SR =
     \<lparr>sr_find_all = contended (sr_find_all SR), sr_find_by_team = \<lambda>t. contended (sr_find_by_team SR t),
      sr_save = \<lambda>x. contended (sr_save SR x)\<rparr>"

definition contended_team_repo :: "'s team_repo \<Rightarrow> 's contested team_repo" where
  "contended_team_repo TR =
     \<lparr>tr_find_by_id = \<lambda>t. contended (tr_find_by_id TR t), tr_find_by_name = \<lambda>n. contended (tr_find_by_name TR n),
      tr_find_by_ctftime_id = \<lambda>i. contended (tr_find_by_ctftime_id TR i), tr_save = \<lambda>t. contended (tr_save TR t),
      tr_update = \<lambda>t. contended (tr_update TR t), tr_find_all = contended (tr_find_all TR)\<rparr>"

definition contended_hint_repo :: "'s hint_unlock_repo \<Rightarrow> 's contested hint_unlock_repo" where
  "contended_hint_repo HR =
     \<lparr>hr_find_all = contended (hr_find_all HR),
      hr_find_for = \<lambda>c tm acct. contended (hr_find_for HR c tm acct), hr_save = \<lambda>u. contended (hr_save HR u)\<rparr>"

definition contended_solve_service :: "'s solve_service \<Rightarrow> 's contested solve_service" where
  "contended_solve_service svc =
     \<lparr>sv_challenge_repo = contended_challenge_repo (sv_challenge_repo svc),
      sv_submission_repo = contended_submission_repo (sv_submission_repo svc),
      sv_team_repo = contended_team_repo (sv_team_repo svc)\<rparr>"

definition contended_hint_service :: "'s hint_service \<Rightarrow> 's contested hint_service" where
  "contended_hint_service svc =
     \<lparr>hs_challenge_repo = contended_challenge_repo (hs_challenge_repo svc),
      hs_submission_repo = contended_submission_repo (hs_submission_repo svc),
      hs_team_repo = contended_team_repo (hs_team_repo svc),
      hs_hint_unlock_repo = contended_hint_repo (hs_hint_unlock_repo svc),
      hs_hint_deduction_mode = hs_hint_deduction_mode svc\<rparr>"

lemma contended_calls [simp]:
  "cr_find_by_id (sv_challenge_repo (contended_solve_service svc)) c = contended (cr_find_by_id (sv_challenge_repo svc) c)"
  "ir_find_active_flag (sv_challenge_repo (contended_solve_service svc)) c tm acct =
     contended (ir_find_active_flag (sv_challenge_repo svc) c tm acct)"
  "tr_find_by_id (sv_team_repo (contended_solve_service svc)) t = contended (tr_find_by_id (sv_team_repo svc) t)"
  "sr_find_all (sv_submission_repo (contended_solve_service svc)) = contended (sr_find_all (sv_submission_repo svc))"
  "sr_find_by_team (sv_submission_repo (contended_solve_service svc)) t =
     contended (sr_find_by_team (sv_submission_repo svc) t)"
  "sr_save (sv_submission_repo (contended_solve_service svc)) x = contended (sr_save (sv_submission_repo svc) x)"
  by (simp_all add: contended_solve_service_def contended_challenge_repo_def contended_submission_repo_def
      contended_team_repo_def)

text \<open>
  Others keep to a relation when each of their changes does, from whatever state; then a
  request made of calls that keep to it keeps to it as a whole.
\<close>

definition keep_to :: "('s \<Rightarrow> 's \<Rightarrow> bool) \<Rightarrow> ('s \<Rightarrow> 's) list \<Rightarrow> bool" where
  "keep_to R others \<longleftrightarrow> (\<forall>g \<in> set others. \<forall>t. R t (g t))"

definition meanwhile :: "('s \<Rightarrow> 's \<Rightarrow> bool) \<Rightarrow> 's contested \<Rightarrow> 's contested \<Rightarrow> bool" where
  "meanwhile R z z' \<longleftrightarrow> (keep_to R (snd z) \<longrightarrow> R (fst z) (fst z') \<and> keep_to R (snd z'))"

lemma contended_once:
  assumes "contended m z = (r, z')" "keep_to R (snd z)" "reflp R"
  obtains t where "R (fst z) t" "m t = (r, fst z')" "keep_to R (snd z')"
proof -
  obtain s others s' others' where z: "z = (s, others)" "z' = (s', others')" by (cases z; cases z')
  let ?t = "case others of [] \<Rightarrow> s | g # _ \<Rightarrow> g s"
  have "R s ?t" using assms(2,3) by (simp add: z keep_to_def reflp_def split: list.split)
  moreover have "m ?t = (r, s')" "others' = tl others"
    using assms(1) by (simp_all add: z contended_def split: prod.splits)
  moreover have "keep_to R (tl others)" using assms(2) by (cases others) (simp_all add: z keep_to_def)
  ultimately show thesis using that [of ?t] by (simp add: z)
qed

lemma meanwhile_rel: "reflp R \<Longrightarrow> reflp (meanwhile R)" "transp R \<Longrightarrow> transp (meanwhile R)"
  by (auto simp: meanwhile_def reflp_def intro!: transpI dest: transpD)

lemma contended_stays:
  assumes "reflp R" "transp R" "stays R m"
  shows "stays (meanwhile R) (contended m)"
proof (rule staysI)
  fix z r z' assume run: "contended m z = (r, z')"
  show "meanwhile R z z'"
    unfolding meanwhile_def
  proof
    assume "keep_to R (snd z)"
    from run this assms(1) obtain t where "R (fst z) t" "m t = (r, fst z')" "keep_to R (snd z')"
      by (rule contended_once)
    then show "R (fst z) (fst z') \<and> keep_to R (snd z')"
      using staysD [OF assms(3)] transpD [OF assms(2)] by blast
  qed
qed

section \<open>A submission among others\<close>

text \<open>
  \<open>R\<close> is what the others keep to. The reads and a refused insert of this request keep to it.
\<close>

locale contention = solve_client svc subs
  for svc :: "'s solve_service" and subs :: "'s \<Rightarrow> submission multiset" +
  fixes R :: "'s \<Rightarrow> 's \<Rightarrow> bool"
  assumes R_refl: "reflp R" and R_trans: "transp R"
    and R_challenge: "stays R (cr_find_by_id (sv_challenge_repo svc) c)"
    and R_flag: "stays R (ir_find_active_flag (sv_challenge_repo svc) c tm acct)"
    and R_team: "stays R (tr_find_by_id (sv_team_repo svc) t)"
    and R_subs: "stays R (sr_find_all (sv_submission_repo svc))"
    and R_by_team: "stays R (sr_find_by_team (sv_submission_repo svc) t)"
    and R_refused: "sr_save (sv_submission_repo svc) x s = (Inl e, s') \<Longrightarrow> R s s'"
begin

abbreviation csvc :: "'s contested solve_service" where
  "csvc \<equiv> contended_solve_service svc"

lemma repo_call_contended: "repo_call (contended m) = contended (repo_call m)"
  by (auto simp: repo_call_def map_err_def contended_def fun_eq_iff split: prod.splits sum.splits)

lemma candidate_contended: "candidate_subs csvc tm = contended (candidate_subs svc tm)"
  by (simp add: candidate_subs_def repo_call_contended split: option.split)

lemma candidate_stays: "stays R (candidate_subs svc tm)"
  unfolding candidate_subs_def repo_call_def by (intro stays_map_err stays_case_option R_subs R_by_team)

lemmas meanwhile_rules = meanwhile_rel(1) [OF R_refl] meanwhile_rel(2) [OF R_trans]
  stays_try_await stays_attempt stays_map_err stays_case_option stays_if stays_ret stays_fail
  contended_stays [OF R_refl R_trans] candidate_stays R_challenge R_flag R_team R_subs R_by_team

lemma checks_stay:
  "stays (meanwhile R) (check_max_attempts csvc ch cid tm acct)"
  "stays (meanwhile R) (check_requirements csvc ch tm acct)"
  "stays (meanwhile R) (existing_correct_subs csvc cid tm acct)"
  "stays (meanwhile R) (reaches_consensus csvc ch tm acct ex)"
  unfolding check_max_attempts_def check_requirements_def existing_correct_subs_def reaches_consensus_def
    candidate_contended Let_def contended_calls
  by (intro meanwhile_rules)+

lemma solve_count_stays: "stays (meanwhile R) (solve_count csvc ch cid tm)"
proof -
  have "stays (meanwhile R) (count_full_solves csvc ch m n)" for m n
  proof (induction m arbitrary: n)
    case Nil
    show ?case unfolding count_full_solves.simps by (intro meanwhile_rules)
  next
    case (Cons p m)
    obtain t users where p: "p = (t, users)" by (cases p)
    show ?case unfolding p count_full_solves.simps contended_calls by (intro meanwhile_rules Cons.IH)
  qed
  then show ?thesis
    unfolding solve_count_def repo_call_def contended_calls by (intro meanwhile_rules)
qed

text \<open>A check passed is a check passed in some state on the way.\<close>

lemma max_attempts_seen:
  assumes "check_max_attempts csvc ch cid tm acct z = (Inr u, z')" "keep_to R (snd z)"
  obtains t where "R (fst z) t" "R t (fst z')" "keep_to R (snd z')" "under_limit ch cid tm acct (subs t)"
proof (cases "ch_max_attempts ch")
  case None
  with assms that [of "fst z"] R_refl show thesis
    by (simp add: check_max_attempts_def under_limit_def reflp_def)
next
  case (Some cfg)
  from assms(1) obtain xs z1 where c: "contended (candidate_subs svc tm) z = (Inr xs, z1)" and
    k: "\<not> ma_limit cfg \<le> (of_nat (count_attempts (ma_mode cfg)
          (filter (\<lambda>s. sub_challenge_id s = cid \<and> own_sub tm acct s) xs)) :: u32)" "z' = z1"
    by (auto simp: check_max_attempts_def Some candidate_contended Let_def split: if_splits elim!: try_await_ok_cases)
  from contended_once [OF c assms(2) R_refl]
  obtain t where t: "R (fst z) t" "candidate_subs svc tm t = (Inr xs, fst z1)" "keep_to R (snd z1)" .
  with k(1) have "check_max_attempts svc ch cid tm acct t = (Inr (), fst z1)"
    by (simp add: check_max_attempts_def Some try_await_Inr)
  then have "under_limit ch cid tm acct (subs t)" by (auto simp: under_limit_def dest: max_attempts_ok)
  with t k(2) staysD [OF candidate_stays t(2)] that show thesis by simp
qed

lemma requirements_seen:
  assumes "check_requirements csvc ch tm acct z = (Inr u, z')" "keep_to R (snd z)"
  obtains t where "R (fst z) t" "R t (fst z')" "keep_to R (snd z')" "requirements_solved ch tm acct (subs t)"
proof (cases "ch_requirements ch = []")
  case True
  with assms that [of "fst z"] R_refl show thesis
    by (simp add: check_requirements_def requirements_solved_def reflp_def)
next
  case False
  from assms(1) obtain xs z1 where c: "contended (candidate_subs svc tm) z = (Inr xs, z1)" and
    k: "list_all (requirement_in (set (map sub_challenge_id
          (filter (\<lambda>s. sub_is_correct s \<and> own_sub tm acct s) xs)))) (ch_requirements ch)" "z' = z1"
    by (auto simp: check_requirements_def False candidate_contended Let_def split: if_splits elim!: try_await_ok_cases)
  from contended_once [OF c assms(2) R_refl]
  obtain t where t: "R (fst z) t" "candidate_subs svc tm t = (Inr xs, fst z1)" "keep_to R (snd z1)" .
  with k(1) have "check_requirements svc ch tm acct t = (Inr (), fst z1)"
    by (simp add: check_requirements_def False try_await_Inr)
  then have "requirements_solved ch tm acct (subs t)"
    by (auto simp: requirements_solved_def dest: requirements_ok)
  with t k(2) staysD [OF candidate_stays t(2)] that show thesis by simp
qed

lemma existing_seen:
  assumes "existing_correct_subs csvc cid tm acct z = (Inr ex, z')" "keep_to R (snd z)"
  obtains t where "R (fst z) t" "R t (fst z')" "keep_to R (snd z')" "mset ex = solves_of cid tm acct (subs t)"
proof -
  from assms(1) obtain xs z1 where c: "contended (candidate_subs svc tm) z = (Inr xs, z1)" and
    k: "ex = filter (\<lambda>s. sub_challenge_id s = cid \<and> own_sub tm acct s \<and> sub_is_correct s) xs" "z' = z1"
    by (auto simp: existing_correct_subs_def candidate_contended elim!: try_await_ok_cases)
  from contended_once [OF c assms(2) R_refl]
  obtain t where t: "R (fst z) t" "candidate_subs svc tm t = (Inr xs, fst z1)" "keep_to R (snd z1)" .
  with k(1) have "existing_correct_subs svc cid tm acct t = (Inr ex, fst z1)"
    by (simp add: existing_correct_subs_def try_await_Inr)
  with t k(2) existing_ok staysD [OF candidate_stays t(2)] that show thesis by simp
qed

text \<open>Awaiting a call that keeps to \<open>R\<close>.\<close>

lemma await_meanwhile:
  assumes "try_await m k z = (r, z')" "stays (meanwhile R) m" "keep_to R (snd z)"
  obtains (err) e where "m z = (Inl e, z')" "r = Inl e" "R (fst z) (fst z')"
  | (ok) x z1 where "m z = (Inr x, z1)" "k x z1 = (r, z')" "R (fst z) (fst z1)" "keep_to R (snd z1)"
  using assms(1)
proof (cases rule: try_await_cases)
  case (err e)
  with that(1) staysD [OF assms(2) err(1)] assms(3) show ?thesis by (simp add: meanwhile_def)
next
  case (ok x z1)
  with that(2) staysD [OF assms(2) ok(1)] assms(3) show ?thesis by (simp add: meanwhile_def)
qed

lemmas trans = transpD [OF R_trans]

text \<open>The insert is the last call: its row joins those of the moment before.\<close>

lemma save_contended:
  assumes "try_await (repo_call (contended (sr_save (sv_submission_repo svc) x)))
      (\<lambda>_. if \<not> good then fail (InvalidRequest ''ctf-incorrect-flag'') else ret x) z = (r, z')"
    and "keep_to R (snd z)"
  obtains (rejected) e where "r = Inl e" "R (fst z) (fst z')"
  | (recorded) t where "R (fst z) t" "subs (fst z') = add_mset x (subs t)"
      "r = (if good then Inr x else Inl (InvalidRequest ''ctf-incorrect-flag''))"
proof -
  obtain res z1 where sv: "contended (sr_save (sv_submission_repo svc) x) z = (res, z1)"
    by (cases "contended (sr_save (sv_submission_repo svc) x) z")
  from contended_once [OF sv assms(2) R_refl]
  obtain t where t: "R (fst z) t" "sr_save (sv_submission_repo svc) x t = (res, fst z1)" .
  show thesis
  proof (cases res)
    case (Inl e)
    with assms(1) sv have "r = Inl (Repo e)" "z' = z1"
      by (simp_all add: try_await_def repo_call_def map_err_def)
    with trans [OF t(1) R_refused] t(2) Inl rejected show ?thesis by blast
  next
    case (Inr u)
    with assms(1) sv have "r = (if good then Inr x else Inl (InvalidRequest ''ctf-incorrect-flag''))" "z' = z1"
      by (simp_all add: try_await_def repo_call_def map_err_def split: if_splits)
    with recorded [OF t(1)] save_ok t(2) Inr show ?thesis by blast
  qed
qed

lemma record_contended:
  assumes "record_submission csvc nid now ch cid tm acct f ip mp good ex z = (r, z')" "keep_to R (snd z)"
  obtains (rejected) e where "r = Inl e" "R (fst z) (fst z')"
  | (recorded) x n t where "R (fst z) t" "subs (fst z') = add_mset x (subs t)"
      "r = (if good then Inr x else Inl (InvalidRequest ''ctf-incorrect-flag''))"
      "x = new_submission nid now cid tm acct f ip good (points_awarded ch good mp n)"
  using assms(1) [unfolded record_submission_def] solve_count_stays assms(2)
proof (cases rule: await_meanwhile)
  case (err e)
  then show ?thesis using rejected by blast
next
  case (ok n z1)
  note z1 = ok(3)
  from ok(2) checks_stay(4) ok(4) show ?thesis
  proof (cases rule: await_meanwhile)
    case (err e)
    then show ?thesis by (auto dest: consensus_no_error)
  next
    case (ok reached z2)
    from ok(2) [unfolded Let_def contended_calls] ok(4) show ?thesis
    proof (cases rule: save_contended)
      case (rejected e)
      with that(1) trans [OF trans [OF z1 ok(3)]] show ?thesis by blast
    next
      case (recorded t)
      with that(2) trans [OF trans [OF z1 ok(3)]] show ?thesis by blast
    qed
  qed
qed

lemma repo_calls_stay:
  "stays (meanwhile R) (repo_call (contended (cr_find_by_id (sv_challenge_repo svc) cid)))"
  "stays (meanwhile R) (repo_call (contended (ir_find_active_flag (sv_challenge_repo svc) cid tm acct)))"
  unfolding repo_call_def by (intro meanwhile_rules)+

lemma grade_contended:
  assumes "grade_and_record X csvc ch nid now cid tm acct f ip z = (r, z')" "keep_to R (snd z)"
  obtains (rejected') e where "r = Inl e" "R (fst z) (fst z')"
  | (recorded') active n t3 t where "R (fst z) t3" "R t3 t"
      "not_duplicate X ch cid tm acct f active (subs t3)"
      "subs (fst z') = add_mset (graded X ch nid now cid tm acct f ip active n) (subs t)"
      "r = answer (graded X ch nid now cid tm acct f ip active n)"
  using assms(1) [unfolded grade_and_record_def contended_calls] repo_calls_stay(2) assms(2)
proof (cases rule: await_meanwhile)
  case (err e)
  then show ?thesis using rejected' by blast
next
  case (ok active z1)
  note z1 = ok(3)
  let ?mp = "find_matching_partial X (ch_flag ch) f active"
  let ?good = "check_flag X ch f active ?mp"
  from ok(2) [unfolded Let_def] checks_stay(3) ok(4) show ?thesis
  proof (cases rule: await_meanwhile)
    case (err e)
    then show ?thesis using rejected' trans [OF z1] by blast
  next
    case (ok ex z2)
    obtain t3 where t3: "R (fst z1) t3" "R t3 (fst z2)" "mset ex = solves_of cid tm acct (subs t3)"
      using existing_seen [OF ok(1)] \<open>keep_to R (snd z1)\<close> by blast
    show ?thesis
    proof (cases "?good \<and> already_solved X ch acct active ?mp ex")
      case True
      with ok(2,3) rejected' trans [OF z1] show ?thesis by auto
    next
      case False
      then have dup: "not_duplicate X ch cid tm acct f active (subs t3)"
        using t3(3) by (auto simp: not_duplicate_def grade_def)
      from ok(2) False have "record_submission csvc nid now ch cid tm acct f ip ?mp ?good ex z2 = (r, z')"
        by (simp split: if_splits)
      then show ?thesis
        using ok(4)
      proof (cases rule: record_contended)
        case (rejected e)
        with rejected' trans [OF trans [OF z1 ok(3)]] show ?thesis by blast
      next
        case (recorded x n t)
        with recorded' [OF trans [OF z1 t3(1)] trans [OF t3(2) recorded(1)] dup, of n] show ?thesis
          by (simp add: graded_def answer_def new_submission_def grade_def)
      qed
    qed
  qed
qed

text \<open>
  A submission among others: an error and no row, or one row that joins the rows of a moment
  \<open>t\<close>, graded against a challenge, a limit, prerequisites and earlier solves, each seen at some
  moment on the way.
\<close>

lemma submit_contended:
  assumes "submit_flag X csvc nid now cid tm acct f ip z = (r, z')" "keep_to R (snd z)"
  obtains (rejected) e where "r = Inl e" "R (fst z) (fst z')"
  | (recorded) ch active n t0 t0' t1 t2 t3 t where
      "R (fst z) t0" "cr_find_by_id (sv_challenge_repo svc) cid t0 = (Inr (Some ch), t0')"
      "R t0 t1" "R t1 t2" "R t2 t3" "R t3 t"
      "under_limit ch cid tm acct (subs t1)" "requirements_solved ch tm acct (subs t2)"
      "not_duplicate X ch cid tm acct f active (subs t3)"
      "subs (fst z') = add_mset (graded X ch nid now cid tm acct f ip active n) (subs t)"
      "r = answer (graded X ch nid now cid tm acct f ip active n)"
  using assms(1) [unfolded submit_flag_def contended_calls] repo_calls_stay(1) assms(2)
proof (cases rule: await_meanwhile)
  case (err e)
  then show ?thesis using rejected by blast
next
  case (ok found z1)
  from ok(1) have "contended (cr_find_by_id (sv_challenge_repo svc) cid) z = (Inr found, z1)"
    by (simp add: repo_call_Inr)
  from contended_once [OF this assms(2) R_refl] obtain t0 where
    t0: "R (fst z) t0" "cr_find_by_id (sv_challenge_repo svc) cid t0 = (Inr found, fst z1)" .
  note z1 = ok(3) staysD [OF R_challenge t0(2)]
  show ?thesis
  proof (cases found)
    case None
    with ok(2) z1 rejected show ?thesis by auto
  next
    case (Some ch)
    from ok(2) [unfolded Some option.case] checks_stay(1) ok(4) show ?thesis
    proof (cases rule: await_meanwhile)
      case (err e)
      then show ?thesis using rejected trans [OF z1(1)] by blast
    next
      case (ok u z2)
      obtain t1 where t1: "R (fst z1) t1" "R t1 (fst z2)" "under_limit ch cid tm acct (subs t1)"
        using max_attempts_seen [OF ok(1) \<open>keep_to R (snd z1)\<close>] .
      note z2 = trans [OF z1(1) ok(3)]
      from ok(2) checks_stay(2) ok(4) show ?thesis
      proof (cases rule: await_meanwhile)
        case (err e)
        then show ?thesis using rejected trans [OF z2] by blast
      next
        case (ok u z3)
        obtain t2 where t2: "R (fst z2) t2" "R t2 (fst z3)" "requirements_solved ch tm acct (subs t2)"
          using requirements_seen [OF ok(1) \<open>keep_to R (snd z2)\<close>] .
        from ok(2,4) show ?thesis
        proof (cases rule: grade_contended)
          case (rejected' e)
          then show ?thesis using rejected trans [OF trans [OF z2 ok(3)]] by blast
        next
          case (recorded' active n t3 t)
          then show ?thesis
            using recorded [OF t0(1) t0(2) [unfolded Some] trans [OF z1(2) t1(1)] trans [OF t1(2) t2(1)]
                trans [OF t2(2) recorded'(1)] _ t1(3) t2(3)] by blast
        qed
      qed
    qed
  qed
qed

end

section \<open>On the database\<close>

text \<open>
  What every request keeps to: submissions are only added and challenges stay. And what the
  requests of other sides keep to: they leave this side's submissions alone.
\<close>

definition grows :: "'j serde \<Rightarrow> 'j db \<Rightarrow> 'j db \<Rightarrow> bool" where
  "grows J s s' \<longleftrightarrow> subs_in s \<subseteq># subs_in s' \<and> chals_in J s' = chals_in J s"

definition side_rows :: "team_id option \<Rightarrow> account_id \<Rightarrow> submission multiset \<Rightarrow> submission multiset" where
  "side_rows tm acct M = filter_mset (belongs tm acct) M"

definition aside :: "'j serde \<Rightarrow> team_id option \<Rightarrow> account_id \<Rightarrow> 'j db \<Rightarrow> 'j db \<Rightarrow> bool" where
  "aside J tm acct s s' \<longleftrightarrow> grows J s s' \<and> side_rows tm acct (subs_in s') = side_rows tm acct (subs_in s)"

lemma grows_rel: "reflp (grows J)" "transp (grows J)"
  by (auto simp: reflp_def grows_def intro!: transpI)

lemma aside_rel: "reflp (aside J tm acct)" "transp (aside J tm acct)"
  using grows_rel [of J] by (auto simp: reflp_def aside_def intro!: transpI dest: transpD)

lemma run_grows: "run X J mode s s' \<Longrightarrow> grows J s s'"
proof (induction rule: run.induct)
  case (more s s1 s2)
  from more.hyps(2) have "subs_in s1 \<subseteq># subs_in s2"
    by (cases rule: step_event) (auto elim: submit_outcome)
  with more.IH step_challenges [OF more.hyps(2)] show ?case by (auto simp: grows_def)
qed (simp add: grows_def)

lemma other_side_aside:
  assumes "submit_flag X (pg_solve_service J) nid now cid tm' acct' f ip s = (r, s')" "tm' \<noteq> Some t"
  shows "aside J (Some t) acct s s'"
proof -
  have "grows J s s'" by (rule run_grows [OF more [OF start submit [OF assms(1)]]])
  moreover from assms(1) have "side_rows (Some t) acct (subs_in s') = side_rows (Some t) acct (subs_in s)"
    by (cases rule: submit_outcome) (use assms(2) in \<open>auto simp: side_rows_def belongs_def\<close>)
  ultimately show ?thesis by (simp add: aside_def)
qed

lemma keeps_stays:
  assumes "keeps tables_of m" "\<And>s s'. tables_of s' = tables_of s \<Longrightarrow> R s s'"
  shows "stays R m"
  using assms by (auto intro!: staysI dest: keepsD)

lemma tables_aside: "tables_of s' = tables_of s \<Longrightarrow> grows J s s'" "tables_of s' = tables_of s \<Longrightarrow> aside J tm acct s s'"
  using views_eq [of s' s] by (auto simp: grows_def aside_def)

lemma save_refused: "pg_submission_save x s = (Inl e, s') \<Longrightarrow> tables_of s' = tables_of s"
  by (auto simp: pg_submission_save_def Let_def tables_of_def elim!: change_cases)

interpretation pg_contended: contention "pg_solve_service J" subs_in "grows J" for J
  by unfold_locales
     (auto simp: pg_repos pg_solve_service_def grows_rel intro!: keeps_stays pg_reads_keep pg_active_flag_keeps
       tables_aside dest!: save_refused)

interpretation pg_aside: contention "pg_solve_service J" subs_in "aside J tm acct" for J tm acct
  by unfold_locales
     (auto simp: pg_repos pg_solve_service_def aside_rel intro!: keeps_stays pg_reads_keep pg_active_flag_keeps
       tables_aside dest!: save_refused)

lemma requirements_solved_mono: "requirements_solved ch tm acct M \<Longrightarrow> M \<subseteq># N \<Longrightarrow> requirements_solved ch tm acct N"
  by (metis attempts_of_def multiset_filter_mono requirements_solved_def solves_of_def subset_mset.le_zero_eq)

lemma found_challenge:
  assumes "cr_find_by_id (sv_challenge_repo (pg_solve_service J)) cid s = (Inr (Some ch), s')" "grows J s0 s"
  shows "ch \<in># chals_in J s0 \<and> ch_id ch = cid"
  using pg_challenges.challenge_find_ok [of J cid s ch s'] assms by (simp add: pg_solve_service_def grows_def)


text \<open>A side whose submissions nobody else touches is treated as if it were alone.\<close>

lemma side_checks:
  assumes "side_rows tm acct M = side_rows tm acct N"
  shows "attempts_of c tm acct M = attempts_of c tm acct N" "solves_of c tm acct M = solves_of c tm acct N"
proof -
  have split: "attempts_of c tm acct M = filter_mset (\<lambda>x. sub_challenge_id x = c) (side_rows tm acct M)" for M
    by (auto simp: attempts_of_def side_rows_def filter_filter_mset intro!: filter_mset_cong)
  show "attempts_of c tm acct M = attempts_of c tm acct N" unfolding split assms ..
  then show "solves_of c tm acct M = solves_of c tm acct N" by (simp add: solves_of_def)
qed

text \<open>C6: Requests of one side must not overlap, those of different sides may: while others leave this
  side's submissions alone, a submission stores nothing and errs, or stores one row that passed
  the attempt limit, the prerequisites and the duplicate check against all rows stored at that
  moment.\<close>

theorem one_request_per_side_is_safe:
  assumes "submit_flag X (contended_solve_service (pg_solve_service J)) nid now cid tm acct f ip (s, others) = (r, (s', rest))"
    and "keep_to (aside J tm acct) others"
  shows "(\<exists>e. r = Inl e \<and> aside J tm acct s s') \<or>
    (\<exists>ch active n t. ch \<in># chals_in J s \<and> ch_id ch = cid \<and> aside J tm acct s t \<and>
       admits X ch cid tm acct f active (subs_in t) \<and>
       subs_in s' = add_mset (graded X ch nid now cid tm acct f ip active n) (subs_in t) \<and>
       r = answer (graded X ch nid now cid tm acct f ip active n))"
proof -
  have o: "keep_to (aside J tm acct) (snd (s, others))" using assms(2) by simp
  from assms(1) o show ?thesis
  proof (cases rule: pg_aside.submit_contended)
    case (rejected e)
    then show ?thesis by simp
  next
    case (recorded ch active n t0 t0' t1 t2 t3 t)
    note later = transpD [OF aside_rel(2)]
    have t: "aside J tm acct t1 t" "aside J tm acct t2 t" "aside J tm acct t3 t" "aside J tm acct s t0" "aside J tm acct s t"
      using later [OF recorded(4) later [OF recorded(5,6)]] later [OF recorded(5,6)] recorded(1,6)
        later [OF recorded(1) later [OF recorded(3) later [OF recorded(4) later [OF recorded(5,6)]]]]
      by simp_all
    note rows = t(1-3) [unfolded aside_def, THEN conjunct2, THEN side_checks(1), symmetric]
      t(1-3) [unfolded aside_def, THEN conjunct2, THEN side_checks(2), symmetric]
    have "admits X ch cid tm acct f active (subs_in t)"
      using recorded(7-9) unfolding admits_def under_limit_def requirements_solved_def not_duplicate_def rows by blast
    moreover have "ch \<in># chals_in J s \<and> ch_id ch = cid"
      by (rule found_challenge [OF recorded(2)]) (use t(4) in \<open>simp add: aside_def\<close>)
    ultimately show ?thesis using recorded(10) [unfolded fst_conv] recorded(11) t(5) by blast
  qed
qed

end
