(* ===== verification/Keys.thy ===== *)
theory Keys
  imports Platform
begin

text \<open>
  Identities: no two accounts share an identifier, a user name or a CTFtime identity, no two
  teams share an identifier, a name or a CTFtime identity, and whoever is in a team is in a
  stored one. Every write of accounts and teams upholds this, and so does every run of the
  platform.
\<close>

section \<open>Unique keys\<close>

definition unique_rows :: "('r \<Rightarrow> string) \<Rightarrow> ('r \<Rightarrow> 'r \<Rightarrow> bool) \<Rightarrow> 'r list \<Rightarrow> bool" where
  "unique_rows k clash xs \<longleftrightarrow>
     distinct (map k xs) \<and> (\<forall>a \<in> set xs. \<forall>b \<in> set xs. clash a b \<longrightarrow> k a = k b)"

definition keys_unique :: "'j db \<Rightarrow> bool" where
  "keys_unique s \<longleftrightarrow>
     unique_rows arow_id account_clash (db_accounts s) \<and>
     unique_rows trow_id team_clash (db_teams s) \<and>
     (\<forall>a \<in> set (db_accounts s). team_exists s (arow_team_id a))"

lemma clash_sym: "symp account_clash" "symp team_clash"
  by (auto simp: symp_def account_clash_def team_clash_def)

lemma unique_rows_snoc:
  assumes "unique_rows k clash xs" "symp clash"
    and "\<And>q. q \<in> set xs \<Longrightarrow> k q \<noteq> k r \<and> \<not> clash r q"
  shows "unique_rows k clash (xs @ [r])"
proof -
  have "k r \<notin> k ` set xs" using assms(3) by (metis imageE)
  moreover have "\<not> clash q r" if "q \<in> set xs" for q
    using assms(2,3) that by (blast dest: sympD)
  ultimately show ?thesis using assms(1,3) unfolding unique_rows_def by auto
qed

lemma unique_rows_map:
  assumes "unique_rows k clash xs" "\<And>q. k (f q) = k q" "\<And>p q. clash (f p) (f q) = clash p q"
  shows "unique_rows k clash (map f xs)"
  using assms by (simp add: unique_rows_def comp_def)

lemma unique_rows_replace:
  assumes "unique_rows k clash xs" "symp clash"
    and "\<And>q. q \<in> set xs \<Longrightarrow> k q \<noteq> k r \<Longrightarrow> \<not> clash r q"
  shows "unique_rows k clash (map (\<lambda>q. if k q = k r then r else q) xs)"
proof -
  let ?f = "\<lambda>q. if k q = k r then r else q"
  have key: "k (?f q) = k q" for q by simp
  have "k p = k q" if "p \<in> set xs" "q \<in> set xs" "clash (?f p) (?f q)" for p q
  proof (cases "k p = k r"; cases "k q = k r")
    assume "k p = k r" "k q \<noteq> k r"
    with that assms(3) [of q] show ?thesis by simp
  next
    assume "k p \<noteq> k r" "k q = k r"
    with that have "clash r p" using assms(2) by (simp add: sympD)
    with that assms(3) [of p] \<open>k p \<noteq> k r\<close> show ?thesis by simp
  next
    assume "k p \<noteq> k r" "k q \<noteq> k r"
    with that assms(1) show ?thesis by (simp add: unique_rows_def)
  qed simp
  then have same: "k a = k b" if "a \<in> set (map ?f xs)" "b \<in> set (map ?f xs)" "clash a b" for a b
  proof -
    from that obtain p q where pq: "p \<in> set xs" "a = ?f p" "q \<in> set xs" "b = ?f q" by auto
    then have "k p = k q" using that(3) \<open>\<And>p q. \<lbrakk>p \<in> set xs; q \<in> set xs; clash (?f p) (?f q)\<rbrakk> \<Longrightarrow> k p = k q\<close> by blast
    then show ?thesis using key pq by simp
  qed
  have "map k (map ?f xs) = map k xs" using key by simp
  with assms(1) have "distinct (map k (map ?f xs))" by (simp only: unique_rows_def)
  then show ?thesis unfolding unique_rows_def by (intro conjI ballI impI) (assumption, rule same)
qed

lemma team_exists_iff:
  "team_exists s t \<longleftrightarrow> (case t of None \<Rightarrow> True | Some i \<Rightarrow> i \<in> trow_id ` set (db_teams s))"
  by (auto simp: team_exists_def list_ex_iff split: option.split)

lemma team_exists_same [simp]:
  "team_exists (s\<lparr>db_accounts := rows\<rparr>) t = team_exists s t"
  "team_exists (s\<lparr>db_faults := fs\<rparr>) t = team_exists s t" "team_exists s None"
  by (simp_all add: team_exists_iff split: option.split)

lemma keys_faults [simp]: "keys_unique (db\<lparr>db_faults := fs\<rparr>) \<longleftrightarrow> keys_unique db"
  by (simp add: keys_unique_def)

lemma keys_unique_accounts:
  assumes "keys_unique s" "unique_rows arow_id account_clash rows"
    and "\<And>a. a \<in> set rows \<Longrightarrow> team_exists s (arow_team_id a)"
  shows "keys_unique (s\<lparr>db_accounts := rows\<rparr>)"
  using assms by (simp add: keys_unique_def)

lemma keys_unique_teams:
  assumes "keys_unique s" "unique_rows trow_id team_clash rows"
    and "trow_id ` set (db_teams s) \<subseteq> trow_id ` set rows"
  shows "keys_unique (s\<lparr>db_teams := rows\<rparr>)"
proof -
  have "team_exists s t \<Longrightarrow> team_exists (s\<lparr>db_teams := rows\<rparr>) t" for t
    using assms(3) by (auto simp: team_exists_iff split: option.splits)
  with assms(1,2) show ?thesis by (simp add: keys_unique_def)
qed

text \<open>A statement that changes keeps the keys when its function does.\<close>

lemma upholds_change:
  assumes "\<And>db db'. f db = Inr db' \<Longrightarrow> I db \<Longrightarrow> I db'" "\<And>db fs. I (db\<lparr>db_faults := fs\<rparr>) \<longleftrightarrow> I db"
  shows "upholds I (change f)"
proof (rule staysI, rule impI)
  fix s r s' assume "change f s = (r, s')" "I s"
  then show "I s'"
    by (cases rule: change_cases) (use assms in \<open>metis\<close>)+
qed

lemma account_save_upholds: "upholds keys_unique (pg_account_save J a)"
  unfolding pg_account_save_def Let_def
proof (rule upholds_change)
  fix db db' :: "'a db"
  let ?r = "account_row_of J a"
  assume "checked (account_row_ok ?r) (list_ex (\<lambda>q. arow_id q = arow_id ?r \<or> account_clash ?r q) (db_accounts db))
      (team_exists db (arow_team_id ?r)) (db\<lparr>db_accounts := db_accounts db @ [?r]\<rparr>) = Inr db'" and I: "keys_unique db"
  then have new: "\<And>q. q \<in> set (db_accounts db) \<Longrightarrow> arow_id q \<noteq> arow_id ?r \<and> \<not> account_clash ?r q"
    and ex: "team_exists db (arow_team_id ?r)" and db': "db' = db\<lparr>db_accounts := db_accounts db @ [?r]\<rparr>"
    unfolding checked_Inr list_ex_iff by blast+
  show "keys_unique db'"
    unfolding db' using I ex
    by (intro keys_unique_accounts unique_rows_snoc clash_sym new) (auto simp: keys_unique_def)
qed simp

lemma account_update_upholds: "upholds keys_unique (pg_account_update J a)"
  unfolding pg_account_update_def Let_def
proof (rule upholds_change)
  fix db db' :: "'a db"
  let ?r = "account_row_of J a" and ?rows = "\<lambda>db r. map (\<lambda>q. if arow_id q = arow_id r then r else q) (db_accounts db)"
  assume f: "(if list_ex (\<lambda>q. arow_id q = arow_id ?r) (db_accounts db)
      then checked (account_row_ok ?r) (list_ex (\<lambda>q. arow_id q \<noteq> arow_id ?r \<and> account_clash ?r q) (db_accounts db))
        (team_exists db (arow_team_id ?r)) (db\<lparr>db_accounts := ?rows db ?r\<rparr>)
      else Inr db) = Inr db'" and I: "keys_unique db"
  show "keys_unique db'"
  proof (cases "list_ex (\<lambda>q. arow_id q = arow_id ?r) (db_accounts db)")
    case True
    with f have new: "\<And>q. q \<in> set (db_accounts db) \<Longrightarrow> arow_id q \<noteq> arow_id ?r \<Longrightarrow> \<not> account_clash ?r q"
      and ex: "team_exists db (arow_team_id ?r)" and db': "db' = db\<lparr>db_accounts := ?rows db ?r\<rparr>"
      unfolding checked_Inr list_ex_iff if_P [OF True [unfolded list_ex_iff]] by blast+
    show ?thesis
      unfolding db' using I ex
      by (intro keys_unique_accounts unique_rows_replace clash_sym new) (auto simp: keys_unique_def)
  next
    case False
    with f I show ?thesis by simp
  qed
qed simp

text \<open>Changing only the team of accounts.\<close>

lemma retargeted:
  assumes "keys_unique db" "\<And>q. arow_id (f q) = arow_id q" "\<And>p q. account_clash (f p) (f q) = account_clash p q"
    and "\<And>q. q \<in> set (db_accounts db) \<Longrightarrow> team_exists db (arow_team_id (f q))"
  shows "keys_unique (db\<lparr>db_accounts := map f (db_accounts db)\<rparr>)"
  using assms by (intro keys_unique_accounts unique_rows_map) (auto simp: keys_unique_def)

lemma set_account_team_upholds: "upholds keys_unique (set_account_team t a)"
  unfolding set_account_team_def
proof (rule upholds_change)
  fix db db' :: "'a db"
  let ?f = "\<lambda>q. if arow_id q = acc_str a then q\<lparr>arow_team_id := Some (team_str t)\<rparr> else q"
  assume "(if account_exists db (acc_str a) \<and> \<not> team_exists db (Some (team_str t)) then Inl constraint_error
      else Inr (db\<lparr>db_accounts := map ?f (db_accounts db)\<rparr>)) = Inr db'" and I: "keys_unique db"
  then have db': "db' = db\<lparr>db_accounts := map ?f (db_accounts db)\<rparr>"
    and ex: "account_exists db (acc_str a) \<Longrightarrow> team_exists db (Some (team_str t))"
    by (simp_all split: if_splits)
  have "team_exists db (arow_team_id (?f q))" if "q \<in> set (db_accounts db)" for q
    using that I ex by (auto simp: keys_unique_def account_exists_def list_ex_iff)
  then show "keys_unique db'"
    unfolding db' using I by (intro retargeted) (simp_all add: account_clash_def)
qed simp

lemma clear_members_upholds: "upholds keys_unique (clear_team_members t)"
  unfolding clear_team_members_def
proof (rule upholds_change)
  fix db db' :: "'a db"
  let ?f = "\<lambda>q. if arow_team_id q = Some (team_str t) then q\<lparr>arow_team_id := None\<rparr> else q"
  assume "Inr (db\<lparr>db_accounts := map ?f (db_accounts db)\<rparr>) = (Inr db' :: sqlx_error + 'a db)" and I: "keys_unique db"
  then have db': "db' = db\<lparr>db_accounts := map ?f (db_accounts db)\<rparr>" by simp
  have "team_exists db (arow_team_id (?f q))" if "q \<in> set (db_accounts db)" for q
    using that I by (auto simp: keys_unique_def)
  then show "keys_unique db'"
    unfolding db' using I by (intro retargeted) (simp_all add: account_clash_def)
qed simp

lemma insert_team_upholds: "upholds keys_unique (insert_team J tm)"
  unfolding insert_team_def Let_def
proof (rule upholds_change)
  fix db db' :: "'a db"
  let ?r = "team_row_of J tm"
  assume "checked (team_row_ok ?r) (list_ex (\<lambda>q. trow_id q = trow_id ?r \<or> team_clash ?r q) (db_teams db))
      True (db\<lparr>db_teams := db_teams db @ [?r]\<rparr>) = Inr db'" and I: "keys_unique db"
  then have new: "\<And>q. q \<in> set (db_teams db) \<Longrightarrow> trow_id q \<noteq> trow_id ?r \<and> \<not> team_clash ?r q"
    and db': "db' = db\<lparr>db_teams := db_teams db @ [?r]\<rparr>"
    unfolding checked_Inr list_ex_iff by blast+
  show "keys_unique db'"
    unfolding db' using I
    by (intro keys_unique_teams unique_rows_snoc clash_sym new) (auto simp: keys_unique_def)
qed simp

lemma update_team_row_upholds: "upholds keys_unique (update_team_row J tm)"
  unfolding update_team_row_def Let_def
proof (rule upholds_change)
  fix db db' :: "'a db"
  let ?r = "team_row_of J tm" and ?rows = "\<lambda>db r. map (\<lambda>q. if trow_id q = trow_id r then r else q) (db_teams db)"
  assume f: "(if list_ex (\<lambda>q. trow_id q = trow_id ?r) (db_teams db)
      then checked (team_row_ok ?r) (list_ex (\<lambda>q. trow_id q \<noteq> trow_id ?r \<and> team_clash ?r q) (db_teams db)) True
        (db\<lparr>db_teams := ?rows db ?r\<rparr>)
      else Inr db) = Inr db'" and I: "keys_unique db"
  show "keys_unique db'"
  proof (cases "list_ex (\<lambda>q. trow_id q = trow_id ?r) (db_teams db)")
    case True
    with f have new: "\<And>q. q \<in> set (db_teams db) \<Longrightarrow> trow_id q \<noteq> trow_id ?r \<Longrightarrow> \<not> team_clash ?r q"
      and db': "db' = db\<lparr>db_teams := ?rows db ?r\<rparr>"
      unfolding checked_Inr list_ex_iff if_P [OF True [unfolded list_ex_iff]] by blast+
    have "trow_id ` set (db_teams db) \<subseteq> trow_id ` set (?rows db ?r)"
      by (auto simp: image_image)
    then show ?thesis
      unfolding db' using I
      by (intro keys_unique_teams unique_rows_replace clash_sym new) (auto simp: keys_unique_def)
  next
    case False
    with f I show ?thesis by simp
  qed
qed simp

lemma team_writes_uphold: "upholds keys_unique (pg_team_save J tm)" "upholds keys_unique (pg_team_update J tm)"
  unfolding pg_team_save_def pg_team_update_def set_members_def
  by (intro stays_try_await stays_each stays_ret upholds_rel insert_team_upholds update_team_row_upholds
      clear_members_upholds set_account_team_upholds)+

section \<open>Runs\<close>

abbreviation who :: "'j db \<Rightarrow> 'j account_row list \<times> 'j team_row list" where
  "who db \<equiv> (db_accounts db, db_teams db)"

lemma keys_of_who: "who s' = who s \<Longrightarrow> keys_unique s' \<longleftrightarrow> keys_unique s"
proof -
  assume w: "who s' = who s"
  then have "team_exists s' = team_exists s" by (auto simp: fun_eq_iff team_exists_iff split: option.split)
  with w show ?thesis by (simp add: keys_unique_def)
qed

lemma keeps_who: "keeps tables_of m \<Longrightarrow> keeps who m"
  by (erule keeps_through [where w = who]) (simp add: tables_of_def)

lemma row_saves_keep_who: "keeps who (pg_submission_save x)" "keeps who (pg_hint_save u)"
  unfolding pg_submission_save_def pg_hint_save_def Let_def
  by (rule change_keeps [where w = who]; auto simp: checked_Inr tables_of_def)+

interpretation who_submit: submit_frame "pg_solve_service J" who for J
  by unfold_locales
     (simp_all add: pg_repos pg_solve_service_def row_saves_keep_who keeps_who pg_reads_keep pg_active_flag_keeps)

interpretation who_unlock: unlock_frame "pg_hint_service J mode" who for J mode
  by unfold_locales
     (simp_all add: pg_repos pg_hint_service_def row_saves_keep_who keeps_who pg_reads_keep)

lemma step_keys: "step X J mode s s' \<Longrightarrow> keys_unique s \<Longrightarrow> keys_unique s'"
proof (induction rule: step.induct)
  case (submit nid now cid tm acct flag ip s r s')
  then show ?case using keys_of_who keepsD [OF who_submit.submit_flag_keeps submit(1)] by metis
next
  case (unlock nid cid i tm acct now admin s r' s')
  then show ?case using keys_of_who keepsD [OF who_unlock.unlock_hint_keeps unlock(1)] by metis
next
  case (account_save a s u s')
  then show ?case using staysD [OF account_save_upholds] by blast
next
  case (account_update a s u s')
  then show ?case using staysD [OF account_update_upholds] by blast
next
  case (team_save tm s u s')
  then show ?case using staysD [OF team_writes_uphold(1)] by blast
next
  case (team_update tm s u s')
  then show ?case using staysD [OF team_writes_uphold(2)] by blast
next
  case (clock s t)
  then show ?case using keys_of_who [of "s\<lparr>db_clock := t\<rparr>" s] by simp
qed simp

lemma run_keys: "run X J mode s s' \<Longrightarrow> keys_unique s \<Longrightarrow> keys_unique s'"
  by (induction rule: run.induct) (blast dest: step_keys)+


text \<open>The row of a user name is the only one.\<close>

lemma find_unique:
  assumes "x \<in> set xs" "P x" "\<And>y. y \<in> set xs \<Longrightarrow> P y \<Longrightarrow> y = x"
  shows "find P xs = Some x"
proof -
  have "find P xs \<noteq> None" using assms(1,2) by (auto simp: find_None_iff)
  then obtain y where y: "find P xs = Some y" by blast
  then have "y \<in> set xs" "P y" by (auto simp: find_Some_iff)
  then have "y = x" by (rule assms(3))
  with y show ?thesis by simp
qed

lemma keys_unique_find:
  assumes "keys_unique s" "row \<in> set (db_accounts s)"
  shows "find (\<lambda>r. arow_username r = arow_username row) (db_accounts s) = Some row"
proof (rule find_unique)
  fix r assume r: "r \<in> set (db_accounts s)" "arow_username r = arow_username row"
  then have "account_clash r row" by (simp add: account_clash_def)
  with assms r have "arow_id r = arow_id row" by (simp add: keys_unique_def unique_rows_def)
  moreover have "inj_on arow_id (set (db_accounts s))"
    using assms(1) by (simp add: keys_unique_def unique_rows_def distinct_map)
  ultimately show "r = row" using assms(2) r(1) by (simp add: inj_on_def)
qed (use assms in simp_all)

end
