(* ===== verification/Schema.thy ===== *)
theory Schema
  imports Keys
begin

text \<open>
  What the tables hold, as a type: every value fits its column, every reference points to a
  stored row, and every account and team is read back by the mappers, which refuse what they
  cannot decode. Each request keeps it, so reading fails only when the driver does.
\<close>

section \<open>Typed rows\<close>

definition account_typed :: "'j serde \<Rightarrow> 'j account_row \<Rightarrow> bool" where
  "account_typed J r \<longleftrightarrow> account_row_ok r \<and> \<not> isl (map_account J r)"

definition team_typed :: "'j serde \<Rightarrow> 'j team_row \<Rightarrow> bool" where
  "team_typed J r \<longleftrightarrow> team_row_ok r \<and> \<not> isl (fields_from J (trow_fields r))"

definition refers :: "'j db \<Rightarrow> string option \<Rightarrow> string \<Rightarrow> bool" where
  "refers s t a \<longleftrightarrow> team_exists s t \<and> account_exists s a"

definition well_typed :: "'j serde \<Rightarrow> 'j db \<Rightarrow> bool" where
  "well_typed J s \<longleftrightarrow>
     (\<forall>r \<in> set (db_accounts s). account_typed J r) \<and>
     (\<forall>r \<in> set (db_teams s). team_typed J r) \<and>
     (\<forall>r \<in> set (db_submissions s). submission_row_ok r \<and> refers s (srow_team_id r) (srow_account_id r)) \<and>
     (\<forall>r \<in> set (db_hint_unlocks s). hint_row_ok r \<and> refers s (hrow_team_id r) (hrow_account_id r))"

text \<open>\<open>serde\<close> decodes what it encoded.\<close>

definition lawful_fields :: "'j serde \<Rightarrow> bool" where
  "lawful_fields J \<longleftrightarrow> (\<forall>fields. fields_from J (fields_to J fields) = Inr fields)"

lemma row_typed [simp]:
  assumes "lawful_fields J"
  shows "account_typed J (account_row_of J a) \<longleftrightarrow> account_row_ok (account_row_of J a)"
    "team_typed J (PgRepos.team_row_of J tm) \<longleftrightarrow> team_row_ok (PgRepos.team_row_of J tm)"
  using assms
  by (simp_all add: account_typed_def team_typed_def lawful_fields_def map_account_def account_row_of_def
      PgRepos.team_row_of_def)

lemma account_typed_team:
  "account_typed J r \<Longrightarrow> varchar_opt 64 t \<Longrightarrow> account_typed J (r\<lparr>arow_team_id := t\<rparr>)"
  by (auto simp: account_typed_def account_row_ok_def map_account_def) (cases "fields_from J (arow_fields r)"; simp)

lemma account_exists_iff: "account_exists s a \<longleftrightarrow> a \<in> arow_id ` set (db_accounts s)"
  by (auto simp: account_exists_def list_ex_iff)

text \<open>Changing one table keeps the type when its rows are typed and no referenced key goes away.\<close>

lemma refers_mono:
  assumes "refers s t a" "arow_id ` set (db_accounts s) \<subseteq> arow_id ` set (db_accounts s')"
    "trow_id ` set (db_teams s) \<subseteq> trow_id ` set (db_teams s')"
  shows "refers s' t a"
  using assms by (auto simp: refers_def account_exists_iff team_exists_iff split: option.splits)

lemma well_typed_accounts:
  assumes "well_typed J s" "\<And>r. r \<in> set rows \<Longrightarrow> account_typed J r"
    "arow_id ` set (db_accounts s) \<subseteq> arow_id ` set rows"
  shows "well_typed J (s\<lparr>db_accounts := rows\<rparr>)"
  using assms refers_mono [of s _ _ "s\<lparr>db_accounts := rows\<rparr>"] by (simp add: well_typed_def)

lemma well_typed_teams:
  assumes "well_typed J s" "\<And>r. r \<in> set rows \<Longrightarrow> team_typed J r"
    "trow_id ` set (db_teams s) \<subseteq> trow_id ` set rows"
  shows "well_typed J (s\<lparr>db_teams := rows\<rparr>)"
  using assms refers_mono [of s _ _ "s\<lparr>db_teams := rows\<rparr>"] by (simp add: well_typed_def)

lemma well_typed_map:
  assumes "well_typed J s"
  shows "(\<And>r. account_typed J r \<Longrightarrow> account_typed J (f r)) \<Longrightarrow> (\<And>r. arow_id (f r) = arow_id r) \<Longrightarrow>
      well_typed J (s\<lparr>db_accounts := map f (db_accounts s)\<rparr>)"
    "(\<And>q. team_typed J q \<Longrightarrow> team_typed J (g q)) \<Longrightarrow> (\<And>q. trow_id (g q) = trow_id q) \<Longrightarrow>
      well_typed J (s\<lparr>db_teams := map g (db_teams s)\<rparr>)"
proof -
  have key: "k ` A \<subseteq> k ` f ` A" if "\<And>x. k (f x) = k x" for k :: "'b \<Rightarrow> string" and f A
    using that by (auto simp: image_image)
  show "(\<And>r. account_typed J r \<Longrightarrow> account_typed J (f r)) \<Longrightarrow> (\<And>r. arow_id (f r) = arow_id r) \<Longrightarrow>
      well_typed J (s\<lparr>db_accounts := map f (db_accounts s)\<rparr>)"
    by (rule well_typed_accounts [OF assms]) (use assms key [of arow_id f] in \<open>auto simp: well_typed_def\<close>)
  show "(\<And>q. team_typed J q \<Longrightarrow> team_typed J (g q)) \<Longrightarrow> (\<And>q. trow_id (g q) = trow_id q) \<Longrightarrow>
      well_typed J (s\<lparr>db_teams := map g (db_teams s)\<rparr>)"
    by (rule well_typed_teams [OF assms]) (use assms key [of trow_id g] in \<open>auto simp: well_typed_def\<close>)
qed

lemma refers_other [simp]:
  "refers (s\<lparr>db_submissions := xs\<rparr>) = refers s" "refers (s\<lparr>db_hint_unlocks := us\<rparr>) = refers s"
  "refers (s\<lparr>db_faults := fs\<rparr>) = refers s" "refers (s\<lparr>db_clock := t\<rparr>) = refers s"
  by (simp_all add: fun_eq_iff refers_def account_exists_def team_exists_def split: option.split)

lemma well_typed_faults [simp]:
  "well_typed J (s\<lparr>db_faults := fs\<rparr>) \<longleftrightarrow> well_typed J s" "well_typed J (s\<lparr>db_clock := t\<rparr>) \<longleftrightarrow> well_typed J s"
  by (simp_all add: well_typed_def)

lemma well_typed_tables: "tables_of s' = tables_of s \<Longrightarrow> well_typed J s' \<longleftrightarrow> well_typed J s"
  by (metis tables_of_def well_typed_faults(1))

section \<open>Statements\<close>

lemma row_saves_typed: "upholds (well_typed J) (pg_submission_save x)" "upholds (well_typed J) (pg_hint_save u)"
  unfolding pg_submission_save_def pg_hint_save_def Let_def
  by (rule upholds_change; auto simp: checked_Inr well_typed_def refers_def [symmetric])+

lemma typed_rows:
  "well_typed J s \<Longrightarrow> r \<in> set (db_accounts s) \<Longrightarrow> account_typed J r"
  "well_typed J s \<Longrightarrow> q \<in> set (db_teams s) \<Longrightarrow> team_typed J q"
  by (simp_all add: well_typed_def)

lemma account_save_typed: "lawful_fields J \<Longrightarrow> upholds (well_typed J) (pg_account_save J a)"
  unfolding pg_account_save_def Let_def
  by (rule upholds_change) (auto simp: checked_Inr intro!: well_typed_accounts dest: typed_rows)

lemma account_update_typed: "lawful_fields J \<Longrightarrow> upholds (well_typed J) (pg_account_update J a)"
  unfolding pg_account_update_def Let_def
  by (rule upholds_change)
     (auto simp: checked_Inr split: if_splits intro!: well_typed_map(1))

lemma account_team_typed:
  assumes "well_typed J s" "varchar_opt 64 t"
  shows "well_typed J (s\<lparr>db_accounts := map (\<lambda>q. if P q then q\<lparr>arow_team_id := t\<rparr> else q) (db_accounts s)\<rparr>)"
  using assms
  by (intro well_typed_map(1)) (auto intro: account_typed_team)

lemma team_key: "well_typed J s \<Longrightarrow> team_exists s (Some t) \<Longrightarrow> varchar_opt 64 (Some t)"
  by (auto simp: team_exists_iff varchar_opt_def team_typed_def team_row_ok_def dest!: typed_rows(2))

lemma set_account_team_typed: "upholds (well_typed J) (set_account_team t a)"
  unfolding set_account_team_def
proof (rule upholds_change)
  fix db db' :: "'a db"
  let ?rows = "map (\<lambda>q. if arow_id q = acc_str a then q\<lparr>arow_team_id := Some (team_str t)\<rparr> else q) (db_accounts db)"
  assume f: "(if account_exists db (acc_str a) \<and> \<not> team_exists db (Some (team_str t)) then Inl constraint_error
      else Inr (db\<lparr>db_accounts := ?rows\<rparr>)) = Inr db'" and I: "well_typed J db"
  show "well_typed J db'"
  proof (cases "account_exists db (acc_str a)")
    case True
    with f have "team_exists db (Some (team_str t))" "db' = db\<lparr>db_accounts := ?rows\<rparr>" by (simp_all split: if_splits)
    with account_team_typed [OF I team_key [OF I]] show ?thesis by simp
  next
    case False
    then have "?rows = db_accounts db" by (auto simp: account_exists_def list_ex_iff intro!: map_idI)
    with False f I show ?thesis by simp
  qed
qed simp

lemma clear_members_typed: "upholds (well_typed J) (clear_team_members t)"
  unfolding clear_team_members_def
  by (rule upholds_change) (auto intro!: account_team_typed simp: varchar_opt_def)

lemma insert_team_typed: "lawful_fields J \<Longrightarrow> upholds (well_typed J) (insert_team J tm)"
  unfolding insert_team_def Let_def
  by (rule upholds_change) (auto simp: checked_Inr intro!: well_typed_teams dest: typed_rows)

lemma update_team_row_typed: "lawful_fields J \<Longrightarrow> upholds (well_typed J) (update_team_row J tm)"
  unfolding update_team_row_def Let_def
  by (rule upholds_change)
     (auto simp: checked_Inr split: if_splits intro!: well_typed_map(2))

lemmas typed_rules = stays_try_await stays_each stays_map_err stays_case_option stays_if stays_ret stays_fail
  upholds_rel row_saves_typed set_account_team_typed clear_members_typed

lemma team_writes_typed:
  assumes "lawful_fields J"
  shows "upholds (well_typed J) (pg_team_save J tm)" "upholds (well_typed J) (pg_team_update J tm)"
  unfolding pg_team_save_def pg_team_update_def set_members_def
  by (intro typed_rules insert_team_typed update_team_row_typed assms)+

section \<open>Requests\<close>

lemma reads_typed: "keeps tables_of m \<Longrightarrow> upholds (well_typed J) m"
  by (erule upholds_keeps [where J = "well_typed J"], rule well_typed_tables) (simp add: tables_of_def)

interpretation typed_reads: solve_reads "pg_solve_service J" tables_of for J
  by unfold_locales (simp_all add: pg_repos pg_solve_service_def pg_reads_keep pg_active_flag_keeps)

lemma submit_typed: "upholds (well_typed J) (submit_flag X (pg_solve_service J) nid now cid tm acct f ip)"
proof -
  have save: "sr_save (sv_submission_repo (pg_solve_service J)) = pg_submission_save"
    by (simp add: pg_repos pg_solve_service_def)
  show ?thesis
    unfolding submit_flag_def grade_and_record_def record_submission_def Let_def repo_call_def save
    by (intro typed_rules)
       (intro reads_typed typed_reads.challenge_find_keeps typed_reads.active_flag_keeps typed_reads.max_attempts_keeps
         typed_reads.requirements_keeps typed_reads.existing_keeps typed_reads.solve_count_keeps typed_reads.consensus_keeps)+
qed

lemma unlock_typed: "upholds (well_typed J) (unlock_hint X (pg_hint_service J mode) nid cid i tm acct now admin)"
proof -
  have calls: "cr_find_by_id (hs_challenge_repo (pg_hint_service J mode)) = pg_challenge_by_id J"
    "cr_find_all (hs_challenge_repo (pg_hint_service J mode)) = pg_challenges_all J"
    "sr_find_all (hs_submission_repo (pg_hint_service J mode)) = pg_submissions_all"
    "tr_find_by_id (hs_team_repo (pg_hint_service J mode)) = pg_team_by_id J"
    "hr_find_all (hs_hint_unlock_repo (pg_hint_service J mode)) = pg_hints_all"
    "hr_find_for (hs_hint_unlock_repo (pg_hint_service J mode)) = pg_hints_for"
    "hr_save (hs_hint_unlock_repo (pg_hint_service J mode)) = pg_hint_save"
    by (simp_all add: pg_repos pg_hint_service_def)
  show ?thesis
    unfolding unlock_hint_def serve_hint_def charge_hint_def afford_hint_def authorize_hint_def Let_def repo_call_def calls
    by (intro typed_rules pg_reads_keep [THEN reads_typed])
qed

lemma step_typed: "step X J mode s s' \<Longrightarrow> lawful_fields J \<Longrightarrow> well_typed J s \<Longrightarrow> well_typed J s'"
proof (induction rule: step.induct)
  case (submit nid now cid tm acct flag ip s r s')
  then show ?case using staysD [OF submit_typed] by blast
next
  case (unlock nid cid i tm acct now admin s r' s')
  then show ?case using staysD [OF unlock_typed] by blast
next
  case (account_save a s u s')
  then show ?case using staysD [OF account_save_typed] by blast
next
  case (account_update a s u s')
  then show ?case using staysD [OF account_update_typed] by blast
next
  case (team_save tm s u s')
  then show ?case using staysD [OF team_writes_typed(1)] by blast
next
  case (team_update tm s u s')
  then show ?case using staysD [OF team_writes_typed(2)] by blast
qed simp_all

lemma run_typed: "run X J mode s s' \<Longrightarrow> lawful_fields J \<Longrightarrow> well_typed J s \<Longrightarrow> well_typed J s'"
  by (induction rule: run.induct) (blast dest: step_typed)+

section \<open>Reading\<close>

lemma decoded_each:
  "(\<And>r. r \<in> set rows \<Longrightarrow> \<not> isl (f r)) \<Longrightarrow>
    each (\<lambda>r. decoded (f r)) rows s = (Inr (map (\<lambda>r. projr (f r)) rows), s)"
proof (induction rows)
  case (Cons r rows)
  then obtain x where "f r = Inr x" by (metis list.set_intros(1) sum.collapse(2))
  with Cons show ?case by (simp add: try_await_def decoded_def)
qed simp

lemma accounts_read:
  assumes "well_typed J s" "db_faults s = []"
  shows "pg_accounts_all J s = (Inr (map (\<lambda>r. projr (map_account J r)) (db_accounts s)), s)"
proof -
  have "\<not> isl (map_account J r)" if "r \<in> set (db_accounts s)" for r
    using typed_rows(1) [OF assms(1) that] by (simp add: account_typed_def)
  with assms(2) show ?thesis by (simp add: pg_accounts_all_def try_await_def fetch_no_fault decoded_each)
qed

lemma teams_read:
  assumes "well_typed J s" "db_faults s = []"
  shows "pg_teams_all J s = (Inr (map (\<lambda>r. projr (team_of_row J r (member_rows s r))) (db_teams s)), s)"
proof -
  have "each (map_team J) rows s = (Inr (map (\<lambda>r. projr (team_of_row J r (member_rows s r))) rows), s)"
    if "\<And>r. r \<in> set rows \<Longrightarrow> team_typed J r" for rows
    using that
  proof (induction rows)
    case (Cons r rows)
    then obtain fs where "fields_from J (trow_fields r) = Inr fs"
      by (metis list.set_intros(1) sum.collapse(2) team_typed_def)
    with Cons assms(2) show ?case
      by (simp add: try_await_def map_team_def fetch_no_fault decoded_def team_of_row_def member_rows_def)
  qed simp
  with typed_rows(2) [OF assms(1)] assms(2) show ?thesis
    by (simp add: pg_teams_all_def try_await_def fetch_no_fault)
qed


end
