(* ===== verification/Text.thy ===== *)
theory Text
  imports Strings "HOL-Library.Sublist"
begin

text \<open>
  Searching and replacing in strings: \<open>str::contains\<close>, \<open>str::replace\<close>, \<open>str::find\<close>,
  \<open>str::split_once\<close>, \<open>str::lines\<close>, \<open>trim_end_matches\<close>, and \<open>chars()\<close> as the list of the
  characters' encodings. A pattern is matched byte by byte, which on UTF-8 is character by
  character.
\<close>

section \<open>Searching and replacing\<close>

abbreviation contains :: "string \<Rightarrow> string \<Rightarrow> bool" where
  "contains s pat \<equiv> sublist pat s"

text \<open>\<open>replace\<close>: from left to right, without overlaps.\<close>

function replace_all :: "string \<Rightarrow> string \<Rightarrow> string \<Rightarrow> string" where
  "replace_all pat rep s =
     (if pat = [] \<or> s = [] then s
      else if prefix pat s then rep @ replace_all pat rep (drop (length pat) s)
      else hd s # replace_all pat rep (tl s))"
  by pat_completeness auto
termination
  by (relation "measure (\<lambda>(pat, rep, s). length s)") auto

declare replace_all.simps [simp del]

text \<open>\<open>find(c)\<close> with the byte index, and the parts around a separator.\<close>

fun find_char :: "(char \<Rightarrow> bool) \<Rightarrow> string \<Rightarrow> nat option" where
  "find_char p [] = None"
| "find_char p (c # s) = (if p c then Some 0 else map_option Suc (find_char p s))"

fun split_once :: "string \<Rightarrow> string \<Rightarrow> (string \<times> string) option" where
  "split_once pat [] = (if pat = [] then Some ([], []) else None)"
| "split_once pat (c # s) =
     (if prefix pat (c # s) then Some ([], drop (length pat) (c # s))
      else map_option (\<lambda>(a, b). (c # a, b)) (split_once pat s))"

definition strip_prefix :: "string \<Rightarrow> string \<Rightarrow> string option" where
  "strip_prefix pat s = (if prefix pat s then Some (drop (length pat) s) else None)"

fun trim_end_of :: "char set \<Rightarrow> string \<Rightarrow> string" where
  "trim_end_of cs s = rev (dropWhile (\<lambda>c. c \<in> cs) (rev s))"

declare trim_end_of.simps [simp del]

text \<open>A string stands apart from a pattern when no occurrence of the pattern can overlap it.\<close>

lemma replace_all_Nil [simp]: "replace_all pat rep [] = []"
  by (subst replace_all.simps) simp

lemma replace_all_hit:
  "pat \<noteq> [] \<Longrightarrow> replace_all pat rep (pat @ s) = rep @ replace_all pat rep s"
  by (subst replace_all.simps) simp

lemma replace_all_miss:
  "\<not> prefix pat (c # s) \<Longrightarrow> pat \<noteq> [] \<Longrightarrow> replace_all pat rep (c # s) = c # replace_all pat rep s"
  by (subst replace_all.simps) simp

lemma replace_all_none: "\<not> contains s pat \<Longrightarrow> replace_all pat rep s = s"
proof (induction s)
  case (Cons c s)
  then have "pat \<noteq> []" "\<not> prefix pat (c # s)" "\<not> contains s pat"
    by (auto simp: sublist_Cons_right dest: prefix_imp_sublist)
  with Cons.IH show ?case by (simp add: replace_all_miss)
qed simp

text \<open>Where the pattern occurs its replacement occurs in the result.\<close>

lemma replace_all_contains: "contains s pat \<Longrightarrow> pat \<noteq> [] \<Longrightarrow> contains (replace_all pat rep s) rep"
proof (induction "length s" arbitrary: s rule: less_induct)
  case less
  from less.prems obtain c t where s: "s = c # t" by (cases s) auto
  show ?case
  proof (cases "prefix pat s")
    case True
    then show ?thesis
      using less.prems(2) by (subst replace_all.simps) (auto simp: s intro: prefix_imp_sublist)
  next
    case False
    with less.prems s have "contains t pat" by (auto simp: sublist_Cons_right)
    with less s have "contains (replace_all pat rep t) rep" by simp
    with False less.prems(2) s show ?thesis
      by (simp add: replace_all_miss sublist_Cons_right)
  qed
qed

text \<open>
  A piece of text that shares no character with the ends of a pattern and is longer than the
  pattern survives every replacement of it.
\<close>

definition apart :: "string \<Rightarrow> string \<Rightarrow> bool" where
  "apart r pat \<longleftrightarrow> pat \<noteq> [] \<and> length pat \<le> length r \<and> hd pat \<notin> set r \<and> last pat \<notin> set r"

lemma apart_no_match_inside:
  assumes "apart r pat" "r = x @ y" "y \<noteq> []"
  shows "\<not> prefix pat (y @ b)"
  using assms by (cases pat; cases y) (auto simp: apart_def)

lemma apart_no_match_across:
  assumes "apart r pat" "length a < length pat" "a \<noteq> []"
  shows "\<not> prefix pat (a @ r @ b)"
proof
  assume p: "prefix pat (a @ r @ b)"
  let ?i = "length pat - 1"
  obtain zs where "a @ r @ b = pat @ zs" using p by (auto simp: prefix_def)
  then have "pat ! ?i = (a @ r @ b) ! ?i" using assms(1) by (simp add: nth_append apart_def)
  also have "\<dots> = r ! (?i - length a)"
    using assms by (auto simp: nth_append apart_def)
  finally have "last pat = r ! (?i - length a)" using assms(1) by (simp add: last_conv_nth apart_def)
  moreover have "?i - length a < length r" using assms by (cases a) (auto simp: apart_def)
  ultimately show False using assms(1) by (metis apart_def nth_mem)
qed

lemma replace_all_inside:
  assumes "apart r pat" "r = x @ y"
  shows "replace_all pat rep (y @ b) = y @ replace_all pat rep b"
  using assms(2)
proof (induction y arbitrary: x)
  case (Cons c y)
  have "\<not> prefix pat ((c # y) @ b)" by (rule apart_no_match_inside [OF assms(1) Cons.prems]) simp
  moreover have "replace_all pat rep (y @ b) = y @ replace_all pat rep b"
    by (rule Cons.IH [of "x @ [c]"]) (simp add: Cons.prems)
  ultimately show ?case using assms(1) by (simp add: replace_all_miss apart_def)
qed simp

lemma replace_all_around:
  assumes "apart r pat"
  shows "\<exists>a'. replace_all pat rep (a @ r @ b) = a' @ r @ replace_all pat rep b"
proof (induction "length a" arbitrary: a rule: less_induct)
  case less
  show ?case
  proof (cases "a = []")
    case True
    then show ?thesis using replace_all_inside [OF assms, of "[]" r] by (metis append_Nil)
  next
    case False
    show ?thesis
    proof (cases "prefix pat (a @ r @ b)")
      case True
      with apart_no_match_across [OF assms _ False] have "length pat \<le> length a" by (meson not_le)
      with True have "a = pat @ drop (length pat) a"
        by (metis append_eq_append_conv_if append_take_drop_id prefix_def take_all_iff take_append)
      moreover obtain a' where "replace_all pat rep (drop (length pat) a @ r @ b) = a' @ r @ replace_all pat rep b"
        using less [of "drop (length pat) a"] False assms by (auto simp: apart_def)
      ultimately show ?thesis
        using assms replace_all_hit [of pat rep "drop (length pat) a @ r @ b"]
        by (metis apart_def append.assoc)
    next
      case miss: False
      obtain c t where a: "a = c # t" using False by (cases a) auto
      obtain a' where "replace_all pat rep (t @ r @ b) = a' @ r @ replace_all pat rep b"
        using less [of t] a by auto
      with miss a assms have "replace_all pat rep (a @ r @ b) = (c # a') @ r @ replace_all pat rep b"
        by (simp add: replace_all_miss apart_def)
      then show ?thesis by blast
    qed
  qed
qed

lemma replace_all_keeps:
  "apart r pat \<Longrightarrow> contains s r \<Longrightarrow> contains (replace_all pat rep s) r"
  unfolding sublist_def using replace_all_around by metis

section \<open>Characters, words and lines\<close>

text \<open>\<open>chars()\<close>: a byte that continues an encoding belongs to the character before it.\<close>

definition continues :: "char \<Rightarrow> bool" where
  "continues c \<longleftrightarrow> 128 \<le> byte c \<and> byte c < 192"

fun chars_of :: "string \<Rightarrow> string list" where
  "chars_of [] = []"
| "chars_of (c # s) =
     (case chars_of s of
        [] \<Rightarrow> [[c]]
      | x # xs \<Rightarrow> if continues (hd x) then (c # x) # xs else [c] # x # xs)"

text \<open>Slicing at a byte index panics inside a character.\<close>

definition boundary :: "nat \<Rightarrow> string \<Rightarrow> bool" where
  "boundary n s \<longleftrightarrow> n = length s \<or> (n < length s \<and> \<not> continues (s ! n))"

text \<open>\<open>from_utf8\<close>: the length of the well-formed encoding a string starts with, 0 if none.\<close>

definition seq2 :: "char \<Rightarrow> char \<Rightarrow> bool" where
  "seq2 c d \<longleftrightarrow> 194 \<le> byte c \<and> byte c < 224 \<and> continues d"

definition seq3 :: "char \<Rightarrow> char \<Rightarrow> char \<Rightarrow> bool" where
  "seq3 c d e \<longleftrightarrow> 224 \<le> byte c \<and> byte c < 240 \<and> continues d \<and> continues e \<and>
     (byte c = 224 \<longrightarrow> 160 \<le> byte d) \<and> (byte c = 237 \<longrightarrow> byte d < 160)"

definition seq4 :: "char \<Rightarrow> char \<Rightarrow> char \<Rightarrow> char \<Rightarrow> bool" where
  "seq4 c d e f \<longleftrightarrow> 240 \<le> byte c \<and> byte c \<le> 244 \<and> continues d \<and> continues e \<and> continues f \<and>
     (byte c = 240 \<longrightarrow> 144 \<le> byte d) \<and> (byte c = 244 \<longrightarrow> byte d < 144)"

definition enc_len :: "string \<Rightarrow> nat" where
  "enc_len s =
     (let n = length s
      in if s = [] then 0
         else if byte (s ! 0) < 128 then 1
         else if 2 \<le> n \<and> seq2 (s ! 0) (s ! 1) then 2
         else if 3 \<le> n \<and> seq3 (s ! 0) (s ! 1) (s ! 2) then 3
         else if 4 \<le> n \<and> seq4 (s ! 0) (s ! 1) (s ! 2) (s ! 3) then 4 else 0)"

lemma enc_len_le: "enc_len s \<le> length s"
  by (cases s) (auto simp: enc_len_def Let_def)

function utf8_valid :: "string \<Rightarrow> bool" where
  "utf8_valid s =
     (if s = [] then True else if enc_len s = 0 then False else utf8_valid (drop (enc_len s) s))"
  by pat_completeness auto
termination
  by (relation "measure length") auto

declare utf8_valid.simps [simp del]

lemma continues_not_ascii: "byte c < 128 \<Longrightarrow> \<not> continues c"
  by (simp add: continues_def)

lemma seqs_disjoint:
  "seq2 c d \<Longrightarrow> \<not> byte c < 128" "seq3 c d e \<Longrightarrow> \<not> byte c < 128 \<and> \<not> seq2 c d'"
  "seq4 c d e f \<Longrightarrow> \<not> byte c < 128 \<and> \<not> seq2 c d' \<and> \<not> seq3 c d' e'"
  by (auto simp: seq2_def seq3_def seq4_def)

lemma enc_len_iff:
  "enc_len s = 1 \<longleftrightarrow> s \<noteq> [] \<and> byte (s ! 0) < 128"
  "enc_len s = 2 \<longleftrightarrow> 2 \<le> length s \<and> seq2 (s ! 0) (s ! 1)"
  "enc_len s = 3 \<longleftrightarrow> 3 \<le> length s \<and> seq3 (s ! 0) (s ! 1) (s ! 2)"
  "enc_len s = 4 \<longleftrightarrow> 4 \<le> length s \<and> seq4 (s ! 0) (s ! 1) (s ! 2) (s ! 3)"
  by (cases "s = []"; simp add: enc_len_def Let_def; auto dest: seqs_disjoint)+

lemma enc_len_cases:
  assumes "0 < enc_len s"
  obtains "enc_len s = 1" | "enc_len s = 2" | "enc_len s = 3" | "enc_len s = 4"
  using assms that by (auto simp: enc_len_def Let_def split: if_splits)

text \<open>The encoding depends on its own bytes only, and all but the first continue it.\<close>

lemma enc_len_take:
  assumes "0 < enc_len s" "enc_len s \<le> n"
  shows "enc_len (take n s) = enc_len s"
  using assms(1)
proof (cases rule: enc_len_cases)
  case 1
  with assms(2) have "enc_len (take n s) = 1" by (cases s; cases n) (simp_all add: enc_len_iff(1) [unfolded One_nat_def])
  with 1 show ?thesis by simp
next
  case 2
  with assms(2) have "2 \<le> n" by simp
  with 2 have "enc_len (take n s) = 2" by (simp add: enc_len_iff)
  with 2 show ?thesis by simp
next
  case 3
  with assms(2) have "3 \<le> n" by simp
  with 3 have "enc_len (take n s) = 3" by (simp add: enc_len_iff)
  with 3 show ?thesis by simp
next
  case 4
  with assms(2) have "4 \<le> n" by simp
  with 4 have "enc_len (take n s) = 4" by (simp add: enc_len_iff)
  with 4 show ?thesis by simp
qed

lemma enc_len_append:
  assumes "0 < enc_len a"
  shows "enc_len (a @ b) = enc_len a"
  using assms
proof (cases rule: enc_len_cases)
  case 1
  then have "enc_len (a @ b) = 1" by (cases a) (simp_all add: enc_len_iff(1) [unfolded One_nat_def])
  with 1 show ?thesis by simp
next
  case 2
  then have "enc_len (a @ b) = 2" by (auto simp: enc_len_iff nth_append)
  with 2 show ?thesis by simp
next
  case 3
  then have "enc_len (a @ b) = 3" by (auto simp: enc_len_iff nth_append)
  with 3 show ?thesis by simp
next
  case 4
  then have "enc_len (a @ b) = 4" by (auto simp: enc_len_iff nth_append)
  with 4 show ?thesis by simp
qed

lemma enc_len_inside:
  assumes "i < enc_len s" "0 < i"
  shows "continues (s ! i)"
proof -
  from assms(1) have "0 < enc_len s" by simp
  then show ?thesis
  proof (cases rule: enc_len_cases)
    case 2
    with assms have "i = 1" by simp
    with 2 show ?thesis unfolding enc_len_iff by (simp add: seq2_def)
  next
    case 3
    with assms have "i = 1 \<or> i = 2" by auto
    with 3 show ?thesis unfolding enc_len_iff by (auto simp: seq3_def)
  next
    case 4
    with assms have "i = 1 \<or> i = 2 \<or> i = 3" by auto
    with 4 show ?thesis unfolding enc_len_iff by (auto simp: seq4_def)
  qed (use assms in simp)
qed

lemma enc_len_cut:
  assumes "0 < enc_len (a @ c # b)" "byte c < 128" "a \<noteq> []"
  shows "enc_len a = enc_len (a @ c # b)"
proof -
  have "enc_len (a @ c # b) \<le> length a"
    using enc_len_inside [of "length a" "a @ c # b"] continues_not_ascii [OF assms(2)] assms(3) by fastforce
  from enc_len_take [OF assms(1) this] show ?thesis by simp
qed

lemma utf8_step: "s \<noteq> [] \<Longrightarrow> utf8_valid s \<longleftrightarrow> 0 < enc_len s \<and> utf8_valid (drop (enc_len s) s)"
  by (simp add: utf8_valid.simps [of s])

lemma utf8_Nil [simp]: "utf8_valid []"
  by (simp add: utf8_valid.simps)

lemma utf8_ascii_Cons [simp]: "byte c < 128 \<Longrightarrow> utf8_valid (c # s) \<longleftrightarrow> utf8_valid s"
  by (subst utf8_valid.simps) (simp add: enc_len_def Let_def)

lemma utf8_append: "utf8_valid a \<Longrightarrow> utf8_valid (a @ b) \<longleftrightarrow> utf8_valid b"
proof (induction a rule: utf8_valid.induct)
  case (1 s)
  show ?case
  proof (cases "s = []")
    case False
    with "1.prems" have s: "0 < enc_len s" "utf8_valid (drop (enc_len s) s)" by (simp_all add: utf8_step)
    have "utf8_valid (s @ b) \<longleftrightarrow> utf8_valid (drop (enc_len s) s @ b)"
      using utf8_step [of "s @ b"] s(1) enc_len_le [of s] False by (simp add: enc_len_append)
    also have "\<dots> \<longleftrightarrow> utf8_valid b" using "1.IH" False s by simp
    finally show ?thesis .
  qed simp
qed

text \<open>Cutting at an ASCII character leaves two well-formed halves.\<close>

lemma utf8_cut:
  assumes "byte c < 128"
  shows "utf8_valid (a @ c # b) \<longleftrightarrow> utf8_valid a \<and> utf8_valid b"
proof (induction a rule: utf8_valid.induct)
  case (1 s)
  show ?case
  proof (cases "s = []")
    case False
    show ?thesis
    proof (cases "0 < enc_len (s @ c # b)")
      case True
      from enc_len_cut [OF True assms False] have eq: "enc_len (s @ c # b) = enc_len s" by simp
      have "utf8_valid (s @ c # b) \<longleftrightarrow> utf8_valid (drop (enc_len s) s @ c # b)"
        using utf8_step [of "s @ c # b"] True enc_len_le [of s] by (simp add: eq)
      also have "\<dots> \<longleftrightarrow> utf8_valid (drop (enc_len s) s) \<and> utf8_valid b"
        using "1.IH" False True eq by simp
      also have "\<dots> \<longleftrightarrow> utf8_valid s \<and> utf8_valid b"
        using utf8_step [OF False] True eq by simp
      finally show ?thesis .
    next
      case no: False
      then have "\<not> 0 < enc_len s" using enc_len_append [of s "c # b"] by (metis append_is_Nil_conv)
      with no show ?thesis using utf8_step [OF False] utf8_step [of "s @ c # b"] by simp
    qed
  qed (simp add: assms)
qed

text \<open>\<open>str::lines\<close>, \<open>eq_ignore_ascii_case\<close>, \<open>split_whitespace\<close>, \<open>[String]::join\<close>.\<close>

definition strip_cr :: "string \<Rightarrow> string" where
  "strip_cr s = (if s \<noteq> [] \<and> last s = CHR 0x0D then butlast s else s)"

definition lines_of :: "string \<Rightarrow> string list" where
  "lines_of s =
     (let ps = split_on (CHR 0x0A) s
      in map strip_cr (butlast ps) @ (if last ps = [] then [] else [last ps]))"

definition ascii_lower :: "string \<Rightarrow> string" where
  "ascii_lower s = map (\<lambda>c. if 65 \<le> byte c \<and> byte c \<le> 90 then char_of (byte c + 32) else c) s"

definition same_ignoring_case :: "string \<Rightarrow> string \<Rightarrow> bool" where
  "same_ignoring_case a b \<longleftrightarrow> ascii_lower a = ascii_lower b"

text \<open>The byte index of the first White_Space character.\<close>

fun find_ws :: "string \<Rightarrow> nat option" where
  "find_ws [] = None"
| "find_ws (c # s) = (if 0 < ws_len (c # s) then Some 0 else map_option Suc (find_ws s))"

lemma find_ws_Some: "find_ws s = Some i \<Longrightarrow> i < length s \<and> 0 < ws_len (drop i s)"
  by (induction s arbitrary: i) (auto split: if_splits)

lemma trim_start_le: "length (trim_start s) \<le> length s"
  by (induction s rule: trim_start.induct) (subst trim_start.simps, auto)

function split_whitespace :: "string \<Rightarrow> string list" where
  "split_whitespace s =
     (let t = trim_start s
      in if t = [] then []
         else case find_ws t of
           None \<Rightarrow> [t]
         | Some i \<Rightarrow> take i t # split_whitespace (drop (i + ws_len (drop i t)) t))"
  by pat_completeness auto
termination
proof (relation "measure length")
  fix s t :: string and i
  assume "t = trim_start s" "t \<noteq> []" "find_ws t = Some i"
  then show "(drop (i + ws_len (drop i t)) t, s) \<in> measure length"
    using trim_start_le [of s] find_ws_Some [of t i] by simp linarith
qed simp

declare split_whitespace.simps [simp del]

definition join_with :: "string \<Rightarrow> string list \<Rightarrow> string" where
  "join_with sep ps =
     (case ps of [] \<Rightarrow> [] | p # rest \<Rightarrow> p @ concat (map (\<lambda>q. sep @ q) rest))"

end
