(* ===== verification/Instances.thy ===== *)
theory Instances
  imports Text PgStore
begin

text \<open>
  Per-player challenge instances, \<open>src/src/libs/services/instancer.rs\<close>: rendering the flag of
  an instance, spawning its pod and service, destroying, renewing and reaping it. The
  Kubernetes client is the record \<open>kube\<close> over a cluster state of its own. A spawned task that
  sleeps and then destroys an instance is a pending timer, a deadline and an identifier; the
  theorems say when timers fire.
\<close>

section \<open>Flags of instances\<close>

definition nth_char :: "string \<Rightarrow> nat \<Rightarrow> string option" where
  "nth_char s n = (if n < length (chars_of s) then Some (chars_of s ! n) else None)"

definition insert_str :: "nat \<Rightarrow> string \<Rightarrow> string \<Rightarrow> string" where
  "insert_str pos ins s = take pos s @ ins @ drop pos s"

definition render_instanced_flag :: "string \<Rightarrow> string \<Rightarrow> string \<Rightarrow> string" where
  "render_instanced_flag template challenge_id random_part =
     (let rendered =
            (if contains template ''{{random}}'' \<or> contains template ''{{uuid}}'' then
               replace_all ''{{uuid}}'' random_part (replace_all ''{{random}}'' random_part template)
             else if suffix ''}'' template \<and> length template > 1 then
               (let pos = length template - 1
                in if nth_char template (pos - 1) = Some ''{''
                   then insert_str pos random_part template
                   else insert_str pos (CHR ''_'' # random_part) template)
             else template @ random_part)
      in replace_all ''{{challenge}}'' challenge_id rendered)"

lemma apart_random:
  assumes "13 \<le> length r" "CHR ''{'' \<notin> set r" "CHR ''}'' \<notin> set r"
  shows "apart r ''{{random}}''" "apart r ''{{uuid}}''" "apart r ''{{challenge}}''"
  using assms by (simp_all add: apart_def)

text \<open>However the template places it, the flag of an instance carries the instance's random part:
  the identifiers drawn by the code have 32 hexadecimal digits.\<close>

theorem instance_flag_carries_the_random_part:
  assumes "13 \<le> length r" "CHR ''{'' \<notin> set r" "CHR ''}'' \<notin> set r"
  shows "contains (render_instanced_flag template cid r) r"
proof -
  note apart = apart_random [OF assms]
  have "contains (replace_all ''{{uuid}}'' r (replace_all ''{{random}}'' r template)) r"
    if "contains template ''{{random}}'' \<or> contains template ''{{uuid}}''"
  proof (cases "contains template ''{{random}}''")
    case True
    then have "contains (replace_all ''{{random}}'' r template) r"
      by (rule replace_all_contains) simp
    then show ?thesis by (rule replace_all_keeps [OF apart(2)])
  next
    case False
    with that have "contains template ''{{uuid}}''" by simp
    then show ?thesis by (simp add: replace_all_none [OF False] replace_all_contains)
  qed
  moreover have "contains (insert_str pos (x @ r) template) r" for pos x
    unfolding insert_str_def sublist_def by (metis append.assoc)
  from this [of _ "[]"] this [of _ "[CHR ''_'']"]
  have "contains (insert_str pos r template) r" "contains (insert_str pos (CHR ''_'' # r) template) r" for pos
    by simp_all
  moreover have "contains (template @ r) r" by simp
  ultimately show ?thesis
    unfolding render_instanced_flag_def Let_def
    by (intro replace_all_keeps [OF apart(3)]) (simp split: if_splits)
qed

text \<open>
  The position of the closing brace is a byte index, the character before it is looked up by
  that number: after a letter that takes two bytes the empty braces are not recognised, and
  the flag gets an underscore its template does not have.
\<close>

theorem empty_braces_after_two_byte_letter:
  "render_instanced_flag ''fl{}'' ''web'' ''r'' = ''fl{r}'' \<and>
   render_instanced_flag (CHR 0xC3 # CHR 0xA9 # ''{}'') ''web'' ''r'' = CHR 0xC3 # CHR 0xA9 # ''{_r}''"
  by code_simp

section \<open>The fleet\<close>

record pod =
  pod_name :: string
  pod_labels :: "(string \<times> string) list"
  pod_container :: string
  pod_image :: string
  pod_port :: i32
  pod_env :: "(string \<times> string) list"

record kube_service =
  ksv_name :: string
  ksv_labels :: "(string \<times> string) list"
  ksv_selector :: "(string \<times> string) list"
  ksv_port :: i32
  ksv_target_port :: i32

text \<open>
  \<open>kube::Api\<close> of pods and services in the service's namespace; creating a service returns the
  cluster address of what was created, if it has one.
\<close>

record 'k kube =
  create_pod :: "pod \<Rightarrow> ('k, string, unit) act"
  create_service :: "kube_service \<Rightarrow> ('k, string, string option) act"
  delete_service :: "string \<Rightarrow> ('k, string, unit) act"
  delete_pod :: "string \<Rightarrow> ('k, string, unit) act"

record ('j, 'k) fleet =
  fl_db :: "'j db"
  fl_cluster :: 'k
  fl_timers :: "(int \<times> string) list"

definition on_rows :: "('j db, 'e, 'a) act \<Rightarrow> (('j, 'k) fleet, 'e, 'a) act" where
  "on_rows m = (\<lambda>w. case m (fl_db w) of (r, s) \<Rightarrow> (r, w\<lparr>fl_db := s\<rparr>))"

definition on_cluster :: "('k, string, 'a) act \<Rightarrow> (('j, 'k) fleet, service_error, 'a) act" where
  "on_cluster m = (\<lambda>w. case m (fl_cluster w) of
     (Inl e, k) \<Rightarrow> (Inl (Kube e), w\<lparr>fl_cluster := k\<rparr>)
   | (Inr x, k) \<Rightarrow> (Inr x, w\<lparr>fl_cluster := k\<rparr>))"

definition fleet_now :: "(('j, 'k) fleet, 'e, i64) act" where
  "fleet_now = (\<lambda>w. (Inr (db_clock (fl_db w)), w))"

text \<open>A task that sleeps \<open>delay\<close> seconds, an unsigned number, and then destroys the instance.\<close>

definition schedule_reap :: "string \<Rightarrow> u64 \<Rightarrow> (('j, 'k) fleet, 'e, unit) act" where
  "schedule_reap instance_id delay_seconds = (\<lambda>w.
     (Inr (), w\<lparr>fl_timers := fl_timers w @ [(db_clock (fl_db w) + uint delay_seconds, instance_id)]\<rparr>))"

definition instance_pod :: "string \<Rightarrow> string \<Rightarrow> string \<Rightarrow> i32 \<Rightarrow> string \<Rightarrow> pod" where
  "instance_pod instance_id challenge_id image_ref container_port flag =
     \<lparr>pod_name = instance_id, pod_labels = [(''app'', instance_id), (''challenge'', challenge_id)],
      pod_container = ''challenge'', pod_image = image_ref, pod_port = container_port,
      pod_env = [(''FLAG'', flag)]\<rparr>"

definition instance_service :: "string \<Rightarrow> string \<Rightarrow> i32 \<Rightarrow> kube_service" where
  "instance_service instance_id challenge_id container_port =
     (let labels = [(''app'', instance_id), (''challenge'', challenge_id)]
      in \<lparr>ksv_name = instance_id, ksv_labels = labels, ksv_selector = labels,
          ksv_port = container_port, ksv_target_port = container_port\<rparr>)"

definition instance_row_ok :: "instance_row \<Rightarrow> bool" where
  "instance_row_ok r \<longleftrightarrow>
     varchar 64 (irow_id r) \<and> varchar 64 (irow_challenge_id r) \<and> varchar_opt 64 (irow_team_id r) \<and>
     varchar 64 (irow_account_id r) \<and> varchar 255 (irow_flag r) \<and> varchar 45 (irow_cluster_ip r)"

definition insert_instance :: "instance_row \<Rightarrow> ('j db, repo_error, unit) act" where
  "insert_instance r =
     change (\<lambda>db.
       checked (instance_row_ok r) (list_ex (\<lambda>q. irow_id q = irow_id r) (db_instances db))
         (list_ex (\<lambda>c. crow_id c = irow_challenge_id r) (db_challenges db) \<and>
          team_exists db (irow_team_id r) \<and> account_exists db (irow_account_id r))
         (db\<lparr>db_instances := db_instances db @ [r]\<rparr>))"

definition spawn_instance ::
    "'k kube \<Rightarrow> string \<Rightarrow> string \<Rightarrow> string \<Rightarrow> string \<Rightarrow> i32 \<Rightarrow> string option \<Rightarrow> string \<Rightarrow> string \<Rightarrow> i64 \<Rightarrow>
     (('j, 'k) fleet, service_error, string) act" where
  "spawn_instance C uuid random_part challenge_id image_ref container_port tm account flag_template
     lifespan_seconds =
     (let instance_id = ''inst-'' @ uuid;
          generated_flag = render_instanced_flag flag_template challenge_id random_part
      in
      try_await (on_cluster (create_pod C
        (instance_pod instance_id challenge_id image_ref container_port generated_flag))) (\<lambda>_.
      try_await (on_cluster (create_service C
        (instance_service instance_id challenge_id container_port))) (\<lambda>created.
      case created of
        None \<Rightarrow> fail (Kube ''service-cluster-ip-missing'')
      | Some cluster_ip \<Rightarrow>
          try_await fleet_now (\<lambda>created_at.
          try_await (repo_call (on_rows (insert_instance
            \<lparr>irow_id = instance_id, irow_challenge_id = challenge_id, irow_team_id = tm,
             irow_account_id = account, irow_flag = generated_flag, irow_cluster_ip = cluster_ip,
             irow_created_at = created_at,
             irow_expires_at = wrap_i64 (created_at + lifespan_seconds)\<rparr>))) (\<lambda>_.
          try_await (schedule_reap instance_id (of_int lifespan_seconds)) (\<lambda>_.
          ret instance_id))))))"

definition delete_instance_row :: "string \<Rightarrow> ('j db, repo_error, unit) act" where
  "delete_instance_row i =
     change (\<lambda>db. Inr (db\<lparr>db_instances := filter (\<lambda>r. irow_id r \<noteq> i) (db_instances db)\<rparr>))"

definition destroy_instances :: "'k kube \<Rightarrow> string \<Rightarrow> (('j, 'k) fleet, service_error, unit) act" where
  "destroy_instances C i =
     try_await (attempt (on_cluster (delete_service C i))) (\<lambda>_ :: service_error + unit.
     try_await (attempt (on_cluster (delete_pod C i))) (\<lambda>_ :: service_error + unit.
     repo_call (on_rows (delete_instance_row i))))"

text \<open>\<open>UPDATE ... WHERE id = $2 AND expires_at > $3\<close> with the number of rows it touched.\<close>

definition extend_row :: "string \<Rightarrow> i64 \<Rightarrow> i64 \<Rightarrow> ('j db, repo_error, nat) act" where
  "extend_row i now expires =
     statement (\<lambda>db.
       (Inr (length (filter (\<lambda>r. irow_id r = i \<and> irow_expires_at r > now) (db_instances db))),
        db\<lparr>db_instances := map (\<lambda>r. if irow_id r = i \<and> irow_expires_at r > now
             then r\<lparr>irow_expires_at := expires\<rparr> else r) (db_instances db)\<rparr>))"

definition renew_instance :: "string \<Rightarrow> i64 \<Rightarrow> (('j, 'k) fleet, service_error, unit) act" where
  "renew_instance i duration_seconds =
     try_await fleet_now (\<lambda>now.
     try_await (repo_call (on_rows (extend_row i now (wrap_i64 (now + duration_seconds))))) (\<lambda>rows_affected.
     if rows_affected = 0 then fail (InvalidRequest ''ctf-instance-expired-or-not-found'') else ret ()))"

definition reap_expired_instances :: "'k kube \<Rightarrow> (('j, 'k) fleet, service_error, unit) act" where
  "reap_expired_instances C =
     try_await fleet_now (\<lambda>now.
     try_await (repo_call (on_rows (fetch_all db_instances (\<lambda>r. irow_expires_at r \<le> now)))) (\<lambda>rows.
     try_await (each (\<lambda>r. attempt (destroy_instances C (irow_id r)) ::
         (('j, 'k) fleet, service_error, service_error + unit) act) rows) (\<lambda>_. ret ())))"

definition init_reaper_schedules :: "'k kube \<Rightarrow> (('j, 'k) fleet, service_error, unit) act" where
  "init_reaper_schedules C =
     try_await fleet_now (\<lambda>now.
     try_await (repo_call (on_rows (fetch_all db_instances (\<lambda>r. irow_expires_at r > now)))) (\<lambda>active.
     try_await (each (\<lambda>r. schedule_reap (irow_id r)
         (of_int (max 0 (wrap_i64 (irow_expires_at r - now))))) active) (\<lambda>_.
     reap_expired_instances C)))"

text \<open>The runtime wakes the tasks whose sleep is over: each destroys its instance, errors are printed.\<close>

definition wake_timers :: "'k kube \<Rightarrow> (('j, 'k) fleet, service_error, unit) act" where
  "wake_timers C = (\<lambda>w.
     let due = filter (\<lambda>(d, _). d \<le> db_clock (fl_db w)) (fl_timers w);
         later = filter (\<lambda>(d, _). d > db_clock (fl_db w)) (fl_timers w)
     in try_await (each (\<lambda>(_, i). attempt (destroy_instances C i) ::
            (('j, 'k) fleet, service_error, service_error + unit) act) due) (\<lambda>_. ret ())
          (w\<lparr>fl_timers := later\<rparr>))"

section \<open>What the steps do\<close>

lemma on_rows_cases:
  assumes "on_rows m w = (r, w')"
  obtains s where "m (fl_db w) = (r, s)" "w' = w\<lparr>fl_db := s\<rparr>"
  using assms by (auto simp: on_rows_def split: prod.splits)

lemma on_cluster_cases:
  assumes "on_cluster m w = (r, w')"
  obtains k where "w' = w\<lparr>fl_cluster := k\<rparr>" "m (fl_cluster w) = (case r of Inl (Kube e) \<Rightarrow> Inl e | Inr x \<Rightarrow> Inr x, k)"
    "\<And>e. r = Inl e \<Longrightarrow> \<exists>msg. e = Kube msg"
  using assms by (auto simp: on_cluster_def split: prod.splits sum.splits)

text \<open>
  The database of a fleet whose driver does not fail: statements take effect. Destroying an
  instance deletes its rows and asks the cluster to delete its pod and service.
\<close>

lemma on_cluster_rest: "on_cluster m w = (r, w') \<Longrightarrow> fl_db w' = fl_db w \<and> fl_timers w' = fl_timers w"
  by (auto simp: on_cluster_def split: prod.splits sum.splits)

definition live_rows :: "('j, 'k) fleet \<Rightarrow> instance_row list" where
  "live_rows w = db_instances (fl_db w)"

lemma destroy_ok:
  assumes "db_faults (fl_db w) = []"
  shows "\<exists>k. destroy_instances C i w = (Inr (), w\<lparr>fl_cluster := k,
    fl_db := (fl_db w)\<lparr>db_instances := filter (\<lambda>r. irow_id r \<noteq> i) (live_rows w)\<rparr>\<rparr>)"
proof -
  obtain r1 k1 where 1: "delete_service C i (fl_cluster w) = (r1, k1)" by (cases "delete_service C i (fl_cluster w)")
  obtain r2 k2 where 2: "delete_pod C i k1 = (r2, k2)" by (cases "delete_pod C i k1")
  have "destroy_instances C i w = (Inr (), w\<lparr>fl_cluster := k2,
    fl_db := (fl_db w)\<lparr>db_instances := filter (\<lambda>r. irow_id r \<noteq> i) (live_rows w)\<rparr>\<rparr>)"
    using assms 1 2
    by (cases r1; cases r2; cases w)
       (simp_all add: destroy_instances_def try_await_def attempt_def on_cluster_def on_rows_def repo_call_def
          map_err_def delete_instance_row_def change_def statement_def live_rows_def)
  then show ?thesis by blast
qed

text \<open>Destroying a list of instances, one after the other.\<close>

lemma destroy_each:
  assumes "db_faults (fl_db w) = []"
  shows "\<exists>k xs. each (\<lambda>x. attempt (destroy_instances C (f x)) ::
        (('j, 'k) fleet, service_error, service_error + unit) act) ys w =
      (Inr xs, w\<lparr>fl_cluster := k, fl_db := (fl_db w)\<lparr>db_instances := filter (\<lambda>r. irow_id r \<notin> f ` set ys) (live_rows w)\<rparr>\<rparr>)"
  using assms
proof (induction ys arbitrary: w)
  case Nil
  show ?case by (cases w) (auto simp: live_rows_def)
next
  case (Cons y ys)
  obtain k where d: "destroy_instances C (f y) w = (Inr (), w\<lparr>fl_cluster := k,
      fl_db := (fl_db w)\<lparr>db_instances := filter (\<lambda>r. irow_id r \<noteq> f y) (live_rows w)\<rparr>\<rparr>)" (is "_ = (_, ?w1)")
    using destroy_ok [OF Cons.prems] by blast
  have "db_faults (fl_db ?w1) = []" using Cons.prems by simp
  from Cons.IH [OF this] obtain k2 xs where
    "each (\<lambda>x. attempt (destroy_instances C (f x)) ::
        (('j, 'k) fleet, service_error, service_error + unit) act) ys ?w1 =
      (Inr xs, ?w1\<lparr>fl_cluster := k2, fl_db := (fl_db ?w1)\<lparr>db_instances := filter (\<lambda>r. irow_id r \<notin> f ` set ys) (live_rows ?w1)\<rparr>\<rparr>)"
    by blast
  then show ?case
    by (auto simp: d try_await_def attempt_def live_rows_def filter_filter intro!: exI [of _ k2] filter_cong)
qed

lemma find_append_fresh: "(\<And>x. x \<in> set xs \<Longrightarrow> \<not> P x) \<Longrightarrow> P y \<Longrightarrow> find P (xs @ [y]) = Some y"
  by (induction xs) auto

text \<open>The row a spawn stores.\<close>

definition spawned_row ::
    "string \<Rightarrow> string \<Rightarrow> string \<Rightarrow> string option \<Rightarrow> string \<Rightarrow> string \<Rightarrow> i64 \<Rightarrow> string \<Rightarrow> i64 \<Rightarrow> instance_row" where
  "spawned_row uuid rnd cid tm acct template lifespan ip now =
     \<lparr>irow_id = ''inst-'' @ uuid, irow_challenge_id = cid, irow_team_id = tm, irow_account_id = acct,
      irow_flag = render_instanced_flag template cid rnd, irow_cluster_ip = ip, irow_created_at = now,
      irow_expires_at = wrap_i64 (now + lifespan)\<rparr>"

lemma insert_instance_cases:
  assumes "insert_instance r s = (x, s')"
  obtains (failed) e fs where "x = Inl e" "s' = s\<lparr>db_faults := fs\<rparr>"
  | (stored) fs where "x = Inr ()" "instance_row_ok r" "\<forall>q \<in> set (db_instances s). irow_id q \<noteq> irow_id r"
      "s' = s\<lparr>db_faults := fs, db_instances := db_instances s @ [r]\<rparr>"
  using assms unfolding insert_instance_def
proof (cases rule: change_cases)
  case (failed fs e)
  then show ?thesis by (intro that(1))
next
  case (applied fs)
  then show ?thesis by (intro that(2) [of fs]) (auto simp: checked_Inr list_ex_iff)
qed

lemma spawn_cases:
  assumes "spawn_instance C uuid rnd cid image_ref port tm acct template lifespan w = (r, w')"
  obtains (failed) e where "r = Inl e" "fl_timers w' = fl_timers w" "tables_of (fl_db w') = tables_of (fl_db w)"
  | (spawned) k1 k2 ip fs where "r = Inr (''inst-'' @ uuid)"
      "create_pod C (instance_pod (''inst-'' @ uuid) cid image_ref port (render_instanced_flag template cid rnd))
         (fl_cluster w) = (Inr (), k1)"
      "create_service C (instance_service (''inst-'' @ uuid) cid port) k1 = (Inr (Some ip), k2)"
      "\<forall>q \<in> set (live_rows w). irow_id q \<noteq> ''inst-'' @ uuid"
      "w' = w\<lparr>fl_cluster := k2, fl_timers := fl_timers w @ [(db_clock (fl_db w) + uint (of_int lifespan :: u64), ''inst-'' @ uuid)],
         fl_db := (fl_db w)\<lparr>db_faults := fs, db_instances :=
           live_rows w @ [spawned_row uuid rnd cid tm acct template lifespan ip (db_clock (fl_db w))]\<rparr>\<rparr>"
proof -
  let ?pod = "instance_pod (''inst-'' @ uuid) cid image_ref port (render_instanced_flag template cid rnd)"
  obtain r1 k1 where 1: "create_pod C ?pod (fl_cluster w) = (r1, k1)" by (cases "create_pod C ?pod (fl_cluster w)")
  obtain r2 k2 where 2: "create_service C (instance_service (''inst-'' @ uuid) cid port) k1 = (r2, k2)"
    by (cases "create_service C (instance_service (''inst-'' @ uuid) cid port) k1")
  note run = assms [unfolded spawn_instance_def Let_def]
  show thesis
  proof (cases r1)
    case (Inl e)
    with run 1 show ?thesis by (intro failed [of "Kube e"]) (auto simp: try_await_def on_cluster_def)
  next
    case pod: (Inr u)
    show ?thesis
    proof (cases r2)
      case (Inl e)
      with run 1 2 pod show ?thesis by (intro failed [of "Kube e"]) (auto simp: try_await_def on_cluster_def)
    next
      case svc: (Inr addr)
      show ?thesis
      proof (cases addr)
        case None
        with run 1 2 pod svc show ?thesis
          by (intro failed [of "Kube ''service-cluster-ip-missing''"]) (auto simp: try_await_def on_cluster_def)
      next
        case (Some ip)
        let ?row = "spawned_row uuid rnd cid tm acct template lifespan ip (db_clock (fl_db w))"
        obtain x s where ins: "insert_instance ?row (fl_db w) = (x, s)" by (cases "insert_instance ?row (fl_db w)")
        then show ?thesis
        proof (cases rule: insert_instance_cases)
          case (failed e fs)
          with run 1 2 pod svc Some ins show ?thesis
            by (intro that(1) [of "Repo e"])
               (auto simp: try_await_def on_cluster_def fleet_now_def repo_call_def map_err_def on_rows_def spawned_row_def)
        next
          case (stored fs)
          with run 1 2 pod svc Some ins show ?thesis
            by (intro that(2) [of k1 ip k2 fs])
               (auto simp: try_await_def on_cluster_def fleet_now_def repo_call_def map_err_def on_rows_def spawned_row_def
                  schedule_reap_def live_rows_def)
        qed
      qed
    qed
  qed
qed


text \<open>A spawn whose row the database refuses, for a flag of more than 255 characters say, leaves the
  pod and the service running: no row and no timer names them, and nothing deletes them.\<close>

theorem refused_row_leaves_the_pod_running:
  assumes "create_pod C (instance_pod (''inst-'' @ uuid) cid image_ref port (render_instanced_flag template cid rnd))
      (fl_cluster w) = (Inr (), k1)"
    and "create_service C (instance_service (''inst-'' @ uuid) cid port) k1 = (Inr (Some ip), k2)"
    and "255 < utf8_chars (render_instanced_flag template cid rnd)" "db_faults (fl_db w) = []"
  shows "\<exists>msg. spawn_instance C uuid rnd cid image_ref port tm acct template lifespan w =
    (Inl (Repo (Internal msg)), w\<lparr>fl_cluster := k2\<rparr>)"
proof -
  let ?row = "spawned_row uuid rnd cid tm acct template lifespan ip (db_clock (fl_db w))"
  have "\<not> instance_row_ok ?row" using assms(3) by (simp add: instance_row_ok_def spawned_row_def varchar_def)
  then have "\<exists>msg. insert_instance ?row (fl_db w) = (Inl (Internal msg), fl_db w)"
    using assms(4)
    by (simp add: insert_instance_def change_def statement_def checked_def constraint_error_def repo_error_of_sqlx_def)
  with assms(1,2) show ?thesis
    by (auto simp: spawn_instance_def Let_def try_await_def on_cluster_def fleet_now_def repo_call_def map_err_def
        on_rows_def spawned_row_def)
qed

section \<open>Renewal\<close>

definition at_time :: "i64 \<Rightarrow> ('j, 'k) fleet \<Rightarrow> ('j, 'k) fleet" where
  "at_time t w = w\<lparr>fl_db := (fl_db w)\<lparr>db_clock := t\<rparr>\<rparr>"

lemma at_time_sel [simp]:
  "db_clock (fl_db (at_time t w)) = t" "live_rows (at_time t w) = live_rows w"
  "fl_timers (at_time t w) = fl_timers w" "db_faults (fl_db (at_time t w)) = db_faults (fl_db w)"
  by (simp_all add: at_time_def live_rows_def)

lemma renew_cases:
  assumes "renew_instance i d w = (r, w')"
  obtains (failed) e where "r = Inl e" "fl_timers w' = fl_timers w" "live_rows w' = live_rows w" "db_faults (fl_db w) = [] \<Longrightarrow> db_faults (fl_db w') = []"
  | (renewed) "r = Inr ()" "fl_timers w' = fl_timers w"
      "\<exists>q \<in> set (live_rows w'). irow_id q = i \<and> irow_expires_at q = wrap_i64 (db_clock (fl_db w) + d)"
      "live_rows w' = map (\<lambda>q. if irow_id q = i \<and> irow_expires_at q > db_clock (fl_db w)
        then q\<lparr>irow_expires_at := wrap_i64 (db_clock (fl_db w) + d)\<rparr> else q) (live_rows w)"
      "db_faults (fl_db w) = [] \<Longrightarrow> db_faults (fl_db w') = []"
proof -
  let ?P = "\<lambda>q. irow_id q = i \<and> irow_expires_at q > db_clock (fl_db w)"
  obtain x s where e: "extend_row i (db_clock (fl_db w)) (wrap_i64 (db_clock (fl_db w) + d)) (fl_db w) = (x, s)"
    by (cases "extend_row i (db_clock (fl_db w)) (wrap_i64 (db_clock (fl_db w) + d)) (fl_db w)")
  note run = assms [unfolded renew_instance_def]
  show thesis
  proof (cases x)
    case (Inl err)
    with e have "live_rows (w\<lparr>fl_db := s\<rparr>) = live_rows w" "db_faults (fl_db w) \<noteq> []"
      by (cases "fl_db w" rule: fault_cases; auto simp: extend_row_def statement_def live_rows_def Let_def)+
    with run e Inl show ?thesis
      by (intro failed [of "Repo err"]) (auto simp: try_await_def fleet_now_def repo_call_def map_err_def on_rows_def)
  next
    case (Inr n)
    with e have n: "n = length (filter ?P (live_rows w))" and s: "live_rows (w\<lparr>fl_db := s\<rparr>) = map (\<lambda>q. if ?P q
        then q\<lparr>irow_expires_at := wrap_i64 (db_clock (fl_db w) + d)\<rparr> else q) (live_rows w)"
      and f: "db_faults (fl_db w) = [] \<Longrightarrow> db_faults s = []"
      by (cases "fl_db w" rule: fault_cases; auto simp: extend_row_def statement_def live_rows_def Let_def)+
    show ?thesis
    proof (cases "n = 0")
      case True
      then have "map (\<lambda>q. if ?P q then q\<lparr>irow_expires_at := wrap_i64 (db_clock (fl_db w) + d)\<rparr> else q) (live_rows w) = live_rows w"
        using n by (intro map_idI) (auto simp: filter_empty_conv)
      with run e Inr True s f show ?thesis
        by (intro failed [of "InvalidRequest ''ctf-instance-expired-or-not-found''"])
           (auto simp: try_await_def fleet_now_def repo_call_def map_err_def on_rows_def)
    next
      case False
      with n obtain q where q: "q \<in> set (live_rows w)" "?P q" by (auto simp: filter_empty_conv)
      have "q\<lparr>irow_expires_at := wrap_i64 (db_clock (fl_db w) + d)\<rparr> \<in> set (live_rows (w\<lparr>fl_db := s\<rparr>))"
        unfolding s set_map by (rule image_eqI [OF _ q(1)]) (use q(2) in simp)
      then have "\<exists>q \<in> set (live_rows (w\<lparr>fl_db := s\<rparr>)). irow_id q = i \<and> irow_expires_at q = wrap_i64 (db_clock (fl_db w) + d)"
        using q(2) by (intro bexI [of _ "q\<lparr>irow_expires_at := wrap_i64 (db_clock (fl_db w) + d)\<rparr>"]) simp_all
      moreover have "r = Inr ()" "w' = w\<lparr>fl_db := s\<rparr>"
        using run e Inr False by (simp_all add: try_await_def fleet_now_def repo_call_def map_err_def on_rows_def)
      ultimately show ?thesis using s f by (intro renewed) simp_all
    qed
  qed
qed

lemma wake_ok:
  assumes "db_faults (fl_db w) = []"
  shows "\<exists>k. wake_timers C w = (Inr (), w\<lparr>fl_timers := filter (\<lambda>(d, _). d > db_clock (fl_db w)) (fl_timers w),
    fl_cluster := k, fl_db := (fl_db w)\<lparr>db_instances :=
      filter (\<lambda>q. irow_id q \<notin> snd ` set (filter (\<lambda>(d, _). d \<le> db_clock (fl_db w)) (fl_timers w))) (live_rows w)\<rparr>\<rparr>)"
proof -
  let ?w = "w\<lparr>fl_timers := filter (\<lambda>(d, _). d > db_clock (fl_db w)) (fl_timers w)\<rparr>"
    and ?due = "filter (\<lambda>(d, _). d \<le> db_clock (fl_db w)) (fl_timers w)"
  have "db_faults (fl_db ?w) = []" using assms by simp
  from destroy_each [OF this, of C snd ?due] show ?thesis
    by (auto simp: wake_timers_def Let_def case_prod_unfold try_await_def live_rows_def)
qed

lemma wake_effect:
  assumes "wake_timers C w = (r, w')" "db_faults (fl_db w) = []"
  shows "db_faults (fl_db w') = []" "fl_timers w' = filter (\<lambda>(d, _). d > db_clock (fl_db w)) (fl_timers w)"
    "live_rows w' =
      filter (\<lambda>q. irow_id q \<notin> snd ` set (filter (\<lambda>(d, _). d \<le> db_clock (fl_db w)) (fl_timers w))) (live_rows w)"
  using wake_ok [OF assms(2), of C] assms by (auto simp: live_rows_def)

text \<open>C28: Renewing an instance does not stop the timer set when it was spawned: whatever the renewal
  said, the instance is destroyed when its first life span is over.\<close>

theorem renewed_instance_dies_at_its_first_deadline:
  assumes "spawn_instance C uuid rnd cid image_ref port tm acct template lifespan w = (Inr i, w1)"
    and "0 \<le> lifespan" "lifespan < 2 ^ 63"
    and "renew_instance i extension (at_time t1 w1) = (Inr (), w2)"
    and "db_clock (fl_db w) + lifespan \<le> t2" "db_faults (fl_db w2) = []"
    and "wake_timers C (at_time t2 w2) = (r, w3)"
  shows "(\<exists>q \<in> set (live_rows w2). irow_id q = i \<and> irow_expires_at q = wrap_i64 (t1 + extension)) \<and>
    (\<forall>q \<in> set (live_rows w3). irow_id q \<noteq> i)"
proof -
  have timer: "(db_clock (fl_db w) + lifespan, i) \<in> set (fl_timers w1)"
    using assms(1)
  proof (cases rule: spawn_cases)
    case (spawned k1 k2 ip fs)
    have "uint (of_int lifespan :: u64) = lifespan"
      using assms(2,3) by (simp add: uint_word_of_int_eq take_bit_int_eq_self)
    with spawned(1,5) show ?thesis by simp
  qed simp
  from assms(4) have renewed: "fl_timers w2 = fl_timers w1 \<and>
      (\<exists>q \<in> set (live_rows w2). irow_id q = i \<and> irow_expires_at q = wrap_i64 (t1 + extension))"
    by (cases rule: renew_cases) simp_all
  have "live_rows w3 =
      filter (\<lambda>q. irow_id q \<notin> snd ` set (filter (\<lambda>(d, _). d \<le> t2) (fl_timers w2))) (live_rows w2)"
    using wake_effect(3) [OF assms(7)] assms(6) by simp
  moreover have "i \<in> snd ` set (filter (\<lambda>(d, _). d \<le> t2) (fl_timers w2))"
    using timer renewed assms(5) by force
  ultimately show ?thesis using renewed by auto
qed

section \<open>Every instance ends\<close>

text \<open>Steps of the fleet: requests, timers, the passing of time, and a restart, which forgets the timers.\<close>

inductive fleet_step :: "'k kube \<Rightarrow> ('j, 'k) fleet \<Rightarrow> ('j, 'k) fleet \<Rightarrow> bool" for C where
  spawn: "spawn_instance C uuid rnd cid image_ref port tm acct template lifespan w = (r, w') \<Longrightarrow> fleet_step C w w'"
| destroy: "destroy_instances C i w = (r', w') \<Longrightarrow> fleet_step C w w'"
| renew: "renew_instance i d w = (r', w') \<Longrightarrow> fleet_step C w w'"
| wake: "wake_timers C w = (r', w') \<Longrightarrow> fleet_step C w w'"
| restart: "init_reaper_schedules C (w\<lparr>fl_timers := []\<rparr>) = (r', w') \<Longrightarrow> fleet_step C w w'"
| time: "db_clock (fl_db w) \<le> t \<Longrightarrow> fleet_step C w (at_time t w)"

inductive_cases fleet_step_cases [consumes 1, case_names spawn destroy renew wake restart time]: "fleet_step C w w'"

text \<open>Every stored instance has a pending timer, and the driver has no faults coming.\<close>

definition watched :: "('j, 'k) fleet \<Rightarrow> bool" where
  "watched w \<longleftrightarrow> db_faults (fl_db w) = [] \<and> irow_id ` set (live_rows w) \<subseteq> snd ` set (fl_timers w)"

lemma schedule_each:
  "each (\<lambda>q. schedule_reap (f q) (g q)) qs w =
     (Inr (map (\<lambda>_. ()) qs), w\<lparr>fl_timers := fl_timers w @ map (\<lambda>q. (db_clock (fl_db w) + uint (g q), f q)) qs\<rparr>)"
  by (induction qs arbitrary: w) (simp_all add: try_await_def schedule_reap_def)

lemma init_effect:
  assumes "init_reaper_schedules C w = (r, w')" "db_faults (fl_db w) = []" "fl_timers w = []"
  shows "db_faults (fl_db w') = []"
    "snd ` set (fl_timers w') = irow_id ` {q \<in> set (live_rows w). irow_expires_at q > db_clock (fl_db w)}"
    "live_rows w' = filter (\<lambda>q. irow_id q \<notin> irow_id ` {q \<in> set (live_rows w). irow_expires_at q \<le> db_clock (fl_db w)}) (live_rows w)"
proof -
  let ?now = "db_clock (fl_db w)"
  let ?w = "w\<lparr>fl_timers := map (\<lambda>q. (?now + uint (of_int (max 0 (wrap_i64 (irow_expires_at q - ?now))) :: u64), irow_id q))
      (filter (\<lambda>q. irow_expires_at q > ?now) (live_rows w))\<rparr>"
  have "init_reaper_schedules C w = reap_expired_instances C ?w"
    using assms(2,3)
    by (simp add: init_reaper_schedules_def try_await_def fleet_now_def repo_call_def map_err_def on_rows_def
        fetch_no_fault schedule_each live_rows_def)
  moreover have f: "db_faults (fl_db ?w) = []" using assms(2) by simp
  obtain k xs where "each (\<lambda>q. attempt (destroy_instances C (irow_id q)) ::
        (('a, 'b) fleet, service_error, service_error + unit) act) (filter (\<lambda>q. irow_expires_at q \<le> ?now) (live_rows w)) ?w =
      (Inr xs, ?w\<lparr>fl_cluster := k, fl_db := (fl_db ?w)\<lparr>db_instances :=
        filter (\<lambda>q. irow_id q \<notin> irow_id ` set (filter (\<lambda>q. irow_expires_at q \<le> ?now) (live_rows w))) (live_rows ?w)\<rparr>\<rparr>)"
    using destroy_each [OF f] by blast
  then have "reap_expired_instances C ?w = (Inr (), ?w\<lparr>fl_cluster := k, fl_db := (fl_db ?w)\<lparr>db_instances :=
        filter (\<lambda>q. irow_id q \<notin> irow_id ` set (filter (\<lambda>q. irow_expires_at q \<le> ?now) (live_rows w))) (live_rows ?w)\<rparr>\<rparr>)"
    using assms(2)
    by (simp add: reap_expired_instances_def try_await_def fleet_now_def repo_call_def map_err_def on_rows_def
        fetch_no_fault live_rows_def)
  ultimately have "w' = ?w\<lparr>fl_cluster := k, fl_db := (fl_db ?w)\<lparr>db_instances :=
        filter (\<lambda>q. irow_id q \<notin> irow_id ` set (filter (\<lambda>q. irow_expires_at q \<le> ?now) (live_rows w))) (live_rows ?w)\<rparr>\<rparr>"
    using assms(1) by simp
  then show "db_faults (fl_db w') = []"
    "snd ` set (fl_timers w') = irow_id ` {q \<in> set (live_rows w). irow_expires_at q > ?now}"
    "live_rows w' = filter (\<lambda>q. irow_id q \<notin> irow_id ` {q \<in> set (live_rows w). irow_expires_at q \<le> ?now}) (live_rows w)"
    using assms(2) by (simp_all add: live_rows_def image_image)
qed

lemma change_no_faults:
  assumes "\<And>db db'. f db = Inr db' \<Longrightarrow> db_faults db' = db_faults db"
  shows "upholds (\<lambda>s. db_faults s = []) (change f)"
proof (rule staysI, rule impI)
  fix s r s' assume "change f s = (r, s')" "db_faults s = []"
  then show "db_faults s' = []"
    using assms [of "s\<lparr>db_faults := tl (db_faults s)\<rparr>"]
    by (auto simp: change_def statement_def Let_def split: sum.splits)
qed

lemma spawn_faults:
  assumes "spawn_instance C uuid rnd cid image_ref port tm acct template lifespan w = (r, w')" "db_faults (fl_db w) = []"
  shows "db_faults (fl_db w') = []"
proof -
  let ?I = "\<lambda>w. db_faults (fl_db w) = []"
  have rows: "upholds ?I (on_rows (insert_instance q))" for q
  proof -
    have "upholds (\<lambda>s. db_faults s = []) (insert_instance q)"
      unfolding insert_instance_def by (rule change_no_faults) (auto simp: checked_Inr)
    then show ?thesis by (auto simp: stays_def on_rows_def split: prod.split)
  qed
  have cluster: "upholds ?I (on_cluster m)" for m
    by (rule staysI) (auto dest: on_cluster_rest)
  have now: "upholds ?I fleet_now" and sched: "upholds ?I (schedule_reap i d)" for i d
    by (simp_all add: stays_def fleet_now_def schedule_reap_def)
  have "upholds ?I (spawn_instance C uuid rnd cid image_ref port tm acct template lifespan)"
    unfolding spawn_instance_def Let_def repo_call_def
    by (intro stays_try_await stays_map_err stays_case_option stays_ret stays_fail upholds_rel rows cluster now sched)
  with assms show ?thesis by (auto dest: staysD)
qed

lemma step_watched:
  assumes "fleet_step C w w'" "watched w"
  shows "watched w'"
  using assms(1)
proof (cases rule: fleet_step_cases)
  case (spawn uuid rnd cid image_ref port tm acct template lifespan r)
  have f: "db_faults (fl_db w') = []" using spawn_faults [OF spawn] assms(2) by (simp add: watched_def)
  from spawn show ?thesis
  proof (cases rule: spawn_cases)
    case (failed e)
    then have "live_rows w' = live_rows w" by (auto simp: live_rows_def tables_of_def dest: arg_cong [where f = db_instances])
    with failed f assms(2) show ?thesis by (simp add: watched_def)
  next
    case (spawned k1 k2 ip fs)
    with f assms(2) show ?thesis by (auto simp: watched_def live_rows_def spawned_row_def)
  qed
next
  case (destroy i r')
  have "db_faults (fl_db w) = []" using assms(2) by (simp add: watched_def)
  then obtain k where "w' = w\<lparr>fl_cluster := k,
      fl_db := (fl_db w)\<lparr>db_instances := filter (\<lambda>r. irow_id r \<noteq> i) (live_rows w)\<rparr>\<rparr>"
    using destroy_ok [of w C i] destroy by auto
  then have "set (live_rows w') \<subseteq> set (live_rows w)" "fl_timers w' = fl_timers w" "db_faults (fl_db w') = db_faults (fl_db w)"
    by (auto simp: live_rows_def)
  with assms(2) show ?thesis unfolding watched_def by (metis (no_types, lifting) image_mono order_trans)
next
  case (renew i d r')
  then show ?thesis
  proof (cases rule: renew_cases)
    case (failed e)
    then show ?thesis using assms(2) by (simp add: watched_def)
  next
    case renewed
    have "map irow_id (live_rows w') = map irow_id (live_rows w)"
      unfolding renewed(4) map_map by (rule map_cong) simp_all
    then have "irow_id ` set (live_rows w') = irow_id ` set (live_rows w)" by (metis set_map)
    then show ?thesis
      using assms(2) renewed(2,5) unfolding watched_def by simp
  qed
next
  case (wake r')
  have f: "db_faults (fl_db w) = []" using assms(2) by (simp add: watched_def)
  have "irow_id q \<in> snd ` set (fl_timers w')" if "q \<in> set (live_rows w')" for q
  proof -
    from that have q: "q \<in> set (live_rows w)"
      and spared: "irow_id q \<notin> snd ` set (filter (\<lambda>(d, _). d \<le> db_clock (fl_db w)) (fl_timers w))"
      unfolding wake_effect(3) [OF wake f] by simp_all
    from assms(2) q have "irow_id q \<in> snd ` set (fl_timers w)" unfolding watched_def by blast
    then obtain d where d: "(d, irow_id q) \<in> set (fl_timers w)" by (metis imageE prod.collapse)
    have "(d, irow_id q) \<in> set (filter (\<lambda>(d, _). d > db_clock (fl_db w)) (fl_timers w))"
    proof (rule ccontr)
      assume "\<not> ?thesis"
      with d have "(d, irow_id q) \<in> set (filter (\<lambda>(d, _). d \<le> db_clock (fl_db w)) (fl_timers w))" by simp
      with spared show False by (metis imageI snd_conv)
    qed
    then show ?thesis unfolding wake_effect(2) [OF wake f] by (metis imageI snd_conv)
  qed
  with wake_effect(1) [OF wake f] show ?thesis unfolding watched_def by blast
next
  case (restart r')
  let ?w = "w\<lparr>fl_timers := []\<rparr>"
  have "db_faults (fl_db ?w) = []" "fl_timers ?w = []" "live_rows ?w = live_rows w"
    using assms(2) by (simp_all add: watched_def live_rows_def)
  with init_effect [OF restart] show ?thesis by (force simp: watched_def)
next
  case (time t)
  then show ?thesis using assms(2) by (simp add: watched_def)
qed

text \<open>C17: Every stored instance has a pending timer, through spawns, renewals, timers and restarts, as
  long as the database does not fail; once the clock is past every deadline no instance is left.\<close>

theorem every_instance_ends:
  assumes "(fleet_step C)\<^sup>*\<^sup>* w w1" "watched w"
    and "\<forall>(d, i) \<in> set (fl_timers w1). d \<le> t" "wake_timers C (at_time t w1) = (r, w2)"
  shows "watched w1 \<and> live_rows w2 = [] \<and> fl_timers w2 = []"
proof -
  have w1: "watched w1"
    using assms(1,2) by (induction rule: rtranclp_induct) (blast intro: step_watched)+
  have "filter (\<lambda>(d, _). d \<le> t) (fl_timers w1) = fl_timers w1" "filter (\<lambda>(d, _). d > t) (fl_timers w1) = []"
    using assms(3) by (auto simp: filter_id_conv filter_empty_conv)
  with w1 wake_effect [OF assms(4)] show ?thesis by (auto simp: watched_def filter_empty_conv)
qed

end
