(* ===== verification/Accounts.thy ===== *)
theory Accounts
  imports Handlers Keys
begin

text \<open>
  Registration, login and the CTFtime login, \<open>src/src/libs/services/auth.rs\<close>, with their
  handlers, \<open>src/src/libs/api/auth.rs\<close>. The \<open>argon2\<close> crate is the record \<open>argon\<close>, the
  CTFtime server the record \<open>ctftime_server\<close>: what it answers is unconstrained. The search
  for a free user name is a loop without a bound in the code; here it has fuel, and
  \<open>search_ends\<close> shows how much is enough.
\<close>

section \<open>Passwords\<close>

text \<open>
  \<open>argon_hash salt password\<close> is \<open>hash_password\<close> as a PHC string, \<open>None\<close> on an error;
  \<open>argon_parse\<close> is \<open>PasswordHash::new\<close> succeeding, \<open>argon_check\<close> is \<open>verify_password\<close>.
\<close>

record argon =
  argon_hash :: "string \<Rightarrow> string \<Rightarrow> string option"
  argon_parse :: "string \<Rightarrow> bool"
  argon_check :: "string \<Rightarrow> string \<Rightarrow> bool"

text \<open>The documented behaviour: a hash parses, and the password it was made from verifies.\<close>

definition lawful_argon :: "argon \<Rightarrow> bool" where
  "lawful_argon G \<longleftrightarrow>
     (\<forall>salt pw phc. argon_hash G salt pw = Some phc \<longrightarrow> argon_parse G phc \<and> argon_check G pw phc)"

definition hash_password :: "argon \<Rightarrow> string \<Rightarrow> string \<Rightarrow> ('s, service_error, string) act" where
  "hash_password G salt password =
     (case argon_hash G salt password of
        Some h \<Rightarrow> ret h | None \<Rightarrow> fail (InvalidRequest ''auth-hash-failed''))"

definition verify_password :: "argon \<Rightarrow> string \<Rightarrow> string \<Rightarrow> bool" where
  "verify_password G password stored_hash =
     (if argon_parse G stored_hash then argon_check G password stored_hash else False)"

section \<open>Registration and login\<close>

definition register ::
    "argon \<Rightarrow> 's account_repo \<Rightarrow> string \<Rightarrow> string \<Rightarrow> i64 \<Rightarrow> string \<Rightarrow> string option \<Rightarrow> string \<Rightarrow>
     ('s, service_error, account) act" where
  "register G AR new_id salt now username email password =
     (let name = AccountName username in
      try_await (repo_call (ar_find_by_username AR name)) (\<lambda>found.
      if found \<noteq> None then fail (InvalidRequest ''auth-username-taken'')
      else
        try_await (hash_password G salt password) (\<lambda>hashed.
        let account =
              \<lparr>acc_id = AccountId new_id, acc_username = name,
               acc_email = map_option AccountEmail email, acc_password_hash = Some hashed,
               acc_role = Player, acc_team_id = None, acc_ctftime_id = None,
               acc_fields = Map.empty, acc_created_at = now\<rparr>
        in try_await (repo_call (ar_save AR account)) (\<lambda>_. ret account))))"

definition login ::
    "argon \<Rightarrow> crypto \<Rightarrow> string \<Rightarrow> i64 \<Rightarrow> 's account_repo \<Rightarrow> string \<Rightarrow> string \<Rightarrow>
     ('s, service_error, string) act" where
  "login G K secret now AR username password =
     try_await (repo_call (ar_find_by_username AR (AccountName username))) (\<lambda>found.
     case found of
       None \<Rightarrow> fail (InvalidRequest ''auth-invalid-credentials'')
     | Some account \<Rightarrow>
         (case acc_password_hash account of
            None \<Rightarrow> fail (InvalidRequest ''auth-invalid-credentials'')
          | Some stored_hash \<Rightarrow>
              if \<not> verify_password G password stored_hash
              then fail (InvalidRequest ''auth-invalid-credentials'')
              else ret (jwt_issue K now (acc_str (acc_id account)) (24 * 3600) secret)))"

section \<open>The CTFtime login\<close>

record oauth_config =
  oa_client_id :: string
  oa_client_secret :: string
  oa_redirect_uri :: string

record ctftime_team_info =
  cti_id :: u32
  cti_name :: string

record ctftime_profile =
  ctp_id :: u32
  ctp_username :: string
  ctp_email :: "string option"
  ctp_team :: "ctftime_team_info option"

text \<open>
  A reply: no reply, a body that does not parse, or a parsed body. \<open>post_token form\<close> is the
  token request with the \<open>access_token\<close> member of its body if that is a string,
  \<open>get_user token\<close> the profile request.
\<close>

datatype 'a reply = SendFailed | ParseFailed | Body 'a

record ctftime_server =
  post_token :: "(string \<times> string) list \<Rightarrow> string option reply"
  get_user :: "string \<Rightarrow> ctftime_profile reply"

definition get_authorize_url :: "oauth_config \<Rightarrow> string" where
  "get_authorize_url cfg =
     ''https://oauth.ctftime.org/authorize?client_id='' @ oa_client_id cfg @
     ''&redirect_uri='' @ oa_redirect_uri cfg @ ''&response_type=code&scope=profile+team''"

definition fetch_profile ::
    "ctftime_server \<Rightarrow> oauth_config \<Rightarrow> string \<Rightarrow> ('s, service_error, ctftime_profile) act" where
  "fetch_profile H cfg code =
     (case post_token H
             [(''client_id'', oa_client_id cfg), (''client_secret'', oa_client_secret cfg),
              (''redirect_uri'', oa_redirect_uri cfg), (''grant_type'', ''authorization_code''),
              (''code'', code)] of
        SendFailed \<Rightarrow> fail (OAuth ''auth-oauth-token-failed'')
      | ParseFailed \<Rightarrow> fail (OAuth ''auth-oauth-token-parse-failed'')
      | Body None \<Rightarrow> fail (OAuth ''auth-oauth-token-missing'')
      | Body (Some access_token) \<Rightarrow>
          (case get_user H access_token of
             SendFailed \<Rightarrow> fail (OAuth ''auth-oauth-profile-failed'')
           | ParseFailed \<Rightarrow> fail (OAuth ''auth-oauth-profile-parse-failed'')
           | Body profile \<Rightarrow> ret profile))"

text \<open>The search for a free name; \<open>None\<close> is a search that used up its fuel.\<close>

fun free_name ::
    "nat \<Rightarrow> 's account_repo \<Rightarrow> string \<Rightarrow> i32 \<Rightarrow> string \<Rightarrow> ('s, service_error, account_name option) act" where
  "free_name 0 AR base_name suffix check_name = ret None"
| "free_name (Suc n) AR base_name suffix check_name =
     try_await (repo_call (ar_find_by_username AR (AccountName check_name))) (\<lambda>found.
     case found of
       None \<Rightarrow> ret (Some (AccountName check_name))
     | Some _ \<Rightarrow> free_name n AR base_name (suffix + 1) (base_name @ show_i64 (sint suffix)))"

text \<open>The profile's team: the stored one with its CTFtime id, or a new one.\<close>

definition ctftime_team ::
    "'s team_repo \<Rightarrow> string \<Rightarrow> i64 \<Rightarrow> account_id \<Rightarrow> ctftime_team_info \<Rightarrow> ('s, service_error, team) act" where
  "ctftime_team TR new_team_id now captain info =
     try_await (repo_call (tr_find_by_ctftime_id TR (cti_id info))) (\<lambda>found.
     case found of
       Some t \<Rightarrow> ret t
     | None \<Rightarrow>
         let new_team =
               \<lparr>team_id = TeamId new_team_id, team_name = TeamName (cti_name info),
                team_ctftime_id = Some (cti_id info), team_invite_code = None,
                team_captain_id = captain, team_member_ids = [captain],
                team_bracket = ''Open'', team_fields = Map.empty, team_create_at = now\<rparr>
         in try_await (repo_call (tr_save TR new_team)) (\<lambda>_. ret new_team))"

definition enrol_member ::
    "'s team_repo \<Rightarrow> account_id \<Rightarrow> team_id option \<Rightarrow> ('s, service_error, unit) act" where
  "enrol_member TR member local_team =
     (case local_team of
        None \<Rightarrow> ret ()
      | Some t \<Rightarrow>
          try_await (repo_call (tr_find_by_id TR t)) (\<lambda>found.
          case found of
            None \<Rightarrow> ret ()
          | Some team \<Rightarrow>
              if member \<in> set (team_member_ids team) then ret ()
              else repo_call (tr_update TR (team\<lparr>team_member_ids := team_member_ids team @ [member]\<rparr>))))"

definition profile_team ::
    "'s team_repo \<Rightarrow> string \<Rightarrow> i64 \<Rightarrow> account_id \<Rightarrow> ctftime_profile \<Rightarrow> ('s, service_error, team_id option) act" where
  "profile_team TR new_team_id now acct profile =
     (case ctp_team profile of
        None \<Rightarrow> ret None
      | Some info \<Rightarrow>
          try_await (ctftime_team TR new_team_id now acct info) (\<lambda>team. ret (Some (team_id team))))"

definition new_ctftime_account ::
    "nat \<Rightarrow> 's account_repo \<Rightarrow> 's team_repo \<Rightarrow> string \<Rightarrow> string \<Rightarrow> i64 \<Rightarrow> ctftime_profile \<Rightarrow>
     ('s, service_error, account option) act" where
  "new_ctftime_account fuel AR TR new_id new_team_id now profile =
     try_await (free_name fuel AR (ctp_username profile) 1 (ctp_username profile)) (\<lambda>name.
     case name of
       None \<Rightarrow> ret None
     | Some check_name \<Rightarrow>
         let acct = AccountId new_id in
         try_await (profile_team TR new_team_id now acct profile) (\<lambda>local_team.
         let new_account =
               \<lparr>acc_id = acct, acc_username = check_name, acc_email = None,
                acc_password_hash = None, acc_role = Player, acc_team_id = local_team,
                acc_ctftime_id = Some (ctp_id profile), acc_fields = Map.empty,
                acc_created_at = now\<rparr>
         in
         try_await (repo_call (ar_save AR new_account)) (\<lambda>_.
         try_await (enrol_member TR acct local_team) (\<lambda>_. ret (Some new_account)))))"

definition handle_callback ::
    "nat \<Rightarrow> crypto \<Rightarrow> string \<Rightarrow> ctftime_server \<Rightarrow> oauth_config \<Rightarrow> 's account_repo \<Rightarrow> 's team_repo \<Rightarrow>
     string \<Rightarrow> string \<Rightarrow> i64 \<Rightarrow> string \<Rightarrow> ('s, service_error, string option) act" where
  "handle_callback fuel K secret H cfg AR TR new_id new_team_id now code =
     try_await (fetch_profile H cfg code) (\<lambda>profile.
     try_await (repo_call (ar_find_by_ctftime_id AR (ctp_id profile))) (\<lambda>found.
     try_await
       (case found of
          Some acc \<Rightarrow> ret (Some acc)
        | None \<Rightarrow> new_ctftime_account fuel AR TR new_id new_team_id now profile)
       (\<lambda>account.
        ret (map_option (\<lambda>a. jwt_issue K now (acc_str (acc_id a)) (24 * 3600) secret) account))))"

section \<open>Handlers\<close>

definition api_register ::
    "argon \<Rightarrow> 'j app \<Rightarrow> string \<Rightarrow> string \<Rightarrow> string \<Rightarrow> string \<Rightarrow> string option \<Rightarrow> string \<Rightarrow>
     ('j world, localized_error, account) act" where
  "api_register G A new_id salt ip username email password =
     try_await (limit_call (''auth-ip:'' @ ip) 5) (\<lambda>_.
     try_await now_is (\<lambda>now.
     localized (on_db (register G (pg_account_repo (ap_serde A)) new_id salt now username email password))))"

definition api_login ::
    "argon \<Rightarrow> 'j app \<Rightarrow> string \<Rightarrow> string \<Rightarrow> string \<Rightarrow> ('j world, localized_error, string) act" where
  "api_login G A ip username password =
     try_await (limit_call (''auth-ip:'' @ ip) 5) (\<lambda>_.
     try_await now_is (\<lambda>now.
     localized (on_db (login G (ap_crypto A) (ap_jwt_secret A) now (pg_account_repo (ap_serde A))
       username password))))"

definition api_oauth_url :: "oauth_config \<Rightarrow> ('s, 'e, string) act" where
  "api_oauth_url cfg = ret (get_authorize_url cfg)"

definition api_oauth_callback ::
    "nat \<Rightarrow> ctftime_server \<Rightarrow> oauth_config \<Rightarrow> 'j app \<Rightarrow> string \<Rightarrow> string \<Rightarrow> string \<Rightarrow>
     ('j world, localized_error, string option) act" where
  "api_oauth_callback fuel H cfg A new_id new_team_id code =
     try_await now_is (\<lambda>now.
     localized (on_db (handle_callback fuel (ap_crypto A) (ap_jwt_secret A) H cfg
       (pg_account_repo (ap_serde A)) (pg_team_repo (ap_serde A)) new_id new_team_id now code)))"

section \<open>Accounts in the database\<close>

lemma pg_account_reads_keep [frame]:
  "keeps tables_of (pg_account_by_username J n)" "keeps tables_of (pg_account_by_ctftime J i)"
  "keeps tables_of (pg_team_by_ctftime J i)" "keeps tables_of (pg_team_by_name J tn)"
  unfolding pg_account_by_username_def pg_account_by_ctftime_def pg_team_by_ctftime_def
    pg_team_by_name_def map_team_opt_def
  by (intro keeps_try_await keeps_case_option keeps_ret fetch_optional_keeps decoded_opt_keeps map_team_keeps)+

lemma read_unchanged: "repo_call m s = (r, s') \<Longrightarrow> keeps tables_of m \<Longrightarrow> tables_of s' = tables_of s"
  by (rule keepsD [OF keeps_repo_call])

lemma accounts_of_tables: "tables_of s' = tables_of s \<Longrightarrow> db_accounts s' = db_accounts s"
  by (auto simp: tables_of_def dest: arg_cong [where f = db_accounts])

lemma teams_of_tables: "tables_of s' = tables_of s \<Longrightarrow> db_teams s' = db_teams s"
  by (auto simp: tables_of_def dest: arg_cong [where f = db_teams])

lemma tables_of_accounts: "tables_of (s\<lparr>db_accounts := rows\<rparr>) = (tables_of s)\<lparr>db_accounts := rows\<rparr>"
  by (simp add: tables_of_def)

lemma decoded_opt_Inr:
  "decoded_opt f row s = (Inr x, s') \<longleftrightarrow>
     s' = s \<and> (case row of None \<Rightarrow> x = None | Some r \<Rightarrow> (\<exists>y. f r = Inr y \<and> x = Some y))"
  by (auto simp: decoded_opt_def try_await_def decoded_def split: option.splits sum.splits prod.splits)

lemma fetch_account_result:
  assumes "try_await (fetch_optional db_accounts P) (decoded_opt (map_account J)) s = (Inr x, s')"
  shows "case x of None \<Rightarrow> \<forall>row \<in> set (db_accounts s). \<not> P row
    | Some a \<Rightarrow> \<exists>row. find P (db_accounts s) = Some row \<and> map_account J row = Inr a"
proof -
  from assms obtain row s1 where f: "fetch_optional db_accounts P s = (Inr row, s1)"
    and d: "decoded_opt (map_account J) row s1 = (Inr x, s')"
    by (auto elim: try_await_ok_cases)
  have "find P (db_accounts s) = row" using fetch_optional_ok [OF f] by auto
  with d show ?thesis by (auto simp: decoded_opt_Inr find_None_iff split: option.splits)
qed

lemmas by_username_result = fetch_account_result [of "\<lambda>r. arow_username r = acc_name_str n" for n, folded pg_account_by_username_def]
lemmas by_ctftime_result = fetch_account_result [of "\<lambda>r. arow_ctftime_id r = Some i" for i, folded pg_account_by_ctftime_def]

lemma pg_account_save_cases:
  assumes "pg_account_save J a s = (r, s')"
  obtains (failed) e where "r = Inl e" "tables_of s' = tables_of s"
  | (saved) "r = Inr ()" "account_row_ok (account_row_of J a)"
      "\<forall>q \<in> set (db_accounts s). arow_id q \<noteq> acc_str (acc_id a) \<and> \<not> account_clash (account_row_of J a) q"
      "team_exists s (map_option team_str (acc_team_id a))"
      "tables_of s' = tables_of (s\<lparr>db_accounts := db_accounts s @ [account_row_of J a]\<rparr>)"
  using assms unfolding pg_account_save_def Let_def
proof (cases rule: change_cases)
  case (failed fs e)
  then show ?thesis by (intro that(1)) simp_all
next
  case (applied fs)
  then show ?thesis
    by (intro that(2)) (auto simp: checked_Inr list_ex_iff team_exists_def tables_of_def account_row_of_def split: option.splits)
qed

lemma account_row_fields [simp]:
  "arow_id (account_row_of J a) = acc_str (acc_id a)"
  "arow_username (account_row_of J a) = acc_name_str (acc_username a)"
  "arow_ctftime_id (account_row_of J a) = acc_ctftime_id a"
  "arow_team_id (account_row_of J a) = map_option team_str (acc_team_id a)"
  "arow_role (account_row_of J a) = role_str (acc_role a)"
  by (simp_all add: account_row_of_def)

text \<open>A registration errs and stores nothing, or stores one player's account under a user name nobody
  had, with a hash of the password and no team.\<close>

lemma registration_cases:
  assumes "register G (pg_account_repo J) nid salt now u e pw s = (r, s')"
  shows "(\<exists>err. r = Inl err \<and> tables_of s' = tables_of s) \<or>
    (\<exists>a h. r = Inr a \<and> argon_hash G salt pw = Some h \<and>
       a = \<lparr>acc_id = AccountId nid, acc_username = AccountName u, acc_email = map_option AccountEmail e,
            acc_password_hash = Some h, acc_role = Player, acc_team_id = None, acc_ctftime_id = None,
            acc_fields = Map.empty, acc_created_at = now\<rparr> \<and>
       (\<forall>q \<in> set (db_accounts s). arow_id q \<noteq> nid \<and> arow_username q \<noteq> u) \<and>
       tables_of s' = tables_of (s\<lparr>db_accounts := db_accounts s @ [account_row_of J a]\<rparr>))"
  using assms unfolding register_def Let_def pg_account_repo_def account_repo.simps
proof (cases rule: try_await_cases)
  case (err e)
  then show ?thesis by (simp add: read_unchanged [OF err(1) pg_account_reads_keep(1)])
next
  case (ok found s1)
  note s1 = read_unchanged [OF ok(1) pg_account_reads_keep(1)]
  note same = accounts_of_tables [OF s1]
  show ?thesis
  proof (cases "found \<noteq> None")
    case True
    with ok(2) s1 show ?thesis by auto
  next
    case fresh: False
    show ?thesis
    proof (cases "argon_hash G salt pw")
      case None
      with ok(2) s1 fresh show ?thesis by (auto simp: hash_password_def)
    next
      case (Some h)
      let ?a = "\<lparr>acc_id = AccountId nid, acc_username = AccountName u, acc_email = map_option AccountEmail e,
            acc_password_hash = Some h, acc_role = Player, acc_team_id = None, acc_ctftime_id = None,
            acc_fields = Map.empty, acc_created_at = now\<rparr>"
      from ok(2) fresh Some have "try_await (repo_call (pg_account_save J ?a)) (\<lambda>_. ret ?a) s1 = (r, s')"
        by (simp add: hash_password_def)
      then show ?thesis
      proof (cases rule: try_await_cases)
        case (err e)
        then show ?thesis
          by (auto simp: repo_call_Inl s1 elim!: pg_account_save_cases)
      next
        case (ok done_save s2)
        then have "pg_account_save J ?a s1 = (Inr done_save, s2)" "r = Inr ?a" "s' = s2"
          by (simp_all add: repo_call_Inr)
        from this(1) show ?thesis
        proof (cases rule: pg_account_save_cases)
          case (failed e)
          then show ?thesis by simp
        next
          case saved
          have "\<forall>q \<in> set (db_accounts s). arow_id q \<noteq> nid \<and> arow_username q \<noteq> u"
            using saved(3) unfolding same account_clash_def account_row_fields by simp
          moreover have "tables_of s' = tables_of (s\<lparr>db_accounts := db_accounts s @ [account_row_of J ?a]\<rparr>)"
            using saved(5) unfolding tables_of_accounts same s1 \<open>s' = s2\<close> .
          ultimately show ?thesis using Some \<open>r = Inr ?a\<close> by blast
        qed
      qed
    qed
  qed
qed

section \<open>Registration and login are runs of the platform\<close>

lemma unchanged_run: "tables_of s' = tables_of s \<Longrightarrow> run X J mode s s'"
proof -
  assume "tables_of s' = tables_of s"
  then have "s' = s\<lparr>db_faults := db_faults s'\<rparr>"
    by (cases s; cases s') (simp add: tables_of_def)
  then show ?thesis by (metis run.more run.start step.faults)
qed

lemma run_rel [simp, intro]: "reflp (run X J mode)" "transp (run X J mode)"
  by (auto simp: reflp_def transp_def intro: start run_trans)

lemma reads_run: "keeps tables_of m \<Longrightarrow> stays (run X J mode) m"
  by (rule staysI) (auto intro: unchanged_run dest: keepsD)

lemma writes_run:
  "stays (run X J mode) (pg_account_save J a)" "stays (run X J mode) (pg_team_save J tm)"
  "stays (run X J mode) (pg_team_update J tm)"
  by (rule staysI; rule more [OF start]; erule step.intros)+

lemma pg_account_repo_sel:
  "ar_find_by_id (pg_account_repo J) = pg_account_by_id J"
  "ar_find_by_username (pg_account_repo J) = pg_account_by_username J"
  "ar_find_by_ctftime_id (pg_account_repo J) = pg_account_by_ctftime J"
  "ar_save (pg_account_repo J) = pg_account_save J"
  "tr_find_by_id (pg_team_repo J) = pg_team_by_id J"
  "tr_find_by_ctftime_id (pg_team_repo J) = pg_team_by_ctftime J"
  "tr_save (pg_team_repo J) = pg_team_save J" "tr_update (pg_team_repo J) = pg_team_update J"
  by (simp_all add: pg_account_repo_def pg_team_repo_def)

lemmas run_rules = stays_try_await stays_map_err stays_case_option stays_if stays_ret stays_fail
  run_rel writes_run pg_account_reads_keep [THEN reads_run] pg_reads_keep [THEN reads_run]

lemma register_run: "stays (run X J mode) (register G (pg_account_repo J) nid salt now u e pw)"
  unfolding register_def hash_password_def repo_call_def Let_def pg_account_repo_sel
  by (intro run_rules)

lemma free_name_run: "stays (run X J mode) (free_name n (pg_account_repo J) b k c)"
proof (induction n arbitrary: k c)
  case (Suc n)
  then show ?case
    unfolding free_name.simps repo_call_def pg_account_repo_sel by (intro run_rules Suc.IH)
qed (simp add: stays_ret)

lemma fetch_profile_run: "stays (run X J mode) (fetch_profile H cfg code)"
  unfolding fetch_profile_def by (auto split: reply.split option.split)

lemma profile_team_run: "stays (run X J mode) (profile_team (pg_team_repo J) tid now acct profile)"
  unfolding profile_team_def ctftime_team_def repo_call_def Let_def pg_account_repo_sel
  by (intro run_rules)

lemma enrol_member_run: "stays (run X J mode) (enrol_member (pg_team_repo J) acct t)"
  unfolding enrol_member_def repo_call_def pg_account_repo_sel by (intro run_rules)

lemma new_account_run: "stays (run X J mode)
    (new_ctftime_account fuel (pg_account_repo J) (pg_team_repo J) nid tid now profile)"
  unfolding new_ctftime_account_def Let_def repo_call_def pg_account_repo_sel
  by (intro run_rules free_name_run profile_team_run enrol_member_run)

lemma callback_run: "stays (run X J mode)
    (handle_callback fuel K secret H cfg (pg_account_repo J) (pg_team_repo J) nid tid now code)"
  unfolding handle_callback_def repo_call_def pg_account_repo_sel
  by (intro run_rules fetch_profile_run new_account_run)

text \<open>Registering and signing in with CTFtime are runs of the platform, so every invariant of
  runs holds through them.\<close>

theorem signing_up_is_a_run:
  "stays (run X J mode) (register G (pg_account_repo J) nid salt now u e pw) \<and>
   stays (run X J mode) (handle_callback fuel K secret H cfg (pg_account_repo J) (pg_team_repo J) nid tid now code)"
  by (intro conjI register_run callback_run)

text \<open>C24: Whoever registered signs in with that password, at any later time as long as the account is
  stored as it was: the token names the new account until a day later; a password the stored
  hash refuses is refused.\<close>

theorem registered_player_signs_in:
  assumes "lawful_argon G" "lawful_crypto K" "fields_from J (fields_to J Map.empty) = Inr Map.empty"
    and "register G (pg_account_repo J) nid salt now u e pw s = (Inr a, s1)"
    and "keys_unique s" "run X J mode s1 t" "account_row_of J a \<in> set (db_accounts t)" "db_faults t = []"
    and "i64_range (later + 24 * 3600)"
  shows "\<exists>h. acc_password_hash a = Some h \<and>
    (\<forall>guess. login G K secret later (pg_account_repo J) u guess t =
       (if guess = pw \<or> argon_check G guess h then Inr (jwt_issue K later nid (24 * 3600) secret)
        else Inl (InvalidRequest ''auth-invalid-credentials''), t)) \<and>
    (\<forall>n. jwt_decode K n (jwt_issue K later nid (24 * 3600) secret) secret =
       (if n < later + 24 * 3600
        then Inr (hs256_header, \<lparr>cl_sub = nid, cl_iat = later, cl_exp = later + 24 * 3600\<rparr>)
        else Inl Expired))"
proof -
  from registration_cases [OF assms(4)] obtain h where h: "argon_hash G salt pw = Some h"
    and a: "a = \<lparr>acc_id = AccountId nid, acc_username = AccountName u, acc_email = map_option AccountEmail e,
            acc_password_hash = Some h, acc_role = Player, acc_team_id = None, acc_ctftime_id = None,
            acc_fields = Map.empty, acc_created_at = now\<rparr>"
    by blast
  have "keys_unique t"
    using run_keys [OF assms(6)] run_keys [OF staysD [OF register_run assms(4)]] assms(5) by blast
  with assms(7) have find: "find (\<lambda>r. arow_username r = u) (db_accounts t) = Some (account_row_of J a)"
    using keys_unique_find [of t "account_row_of J a"] a by simp
  have map: "map_account J (account_row_of J a) = Inr a"
    using assms(3) a by (cases e) (simp_all add: map_account_def account_row_of_def)
  have check: "argon_parse G h" "argon_check G pw h"
    using assms(1) h by (simp_all add: lawful_argon_def)
  have read: "pg_account_by_username J (AccountName u) t = (Inr (Some a), t)"
    using find map assms(8)
    by (simp add: pg_account_by_username_def fetch_optional_def select_def statement_def try_await_def
        decoded_opt_def decoded_def Let_def)
  have "login G K secret later (pg_account_repo J) u guess t =
       (if guess = pw \<or> argon_check G guess h then Inr (jwt_issue K later nid (24 * 3600) secret)
        else Inl (InvalidRequest ''auth-invalid-credentials''), t)" for guess
    using read check a
    by (simp add: login_def pg_account_repo_def try_await_def repo_call_def map_err_def verify_password_def)
  then show ?thesis using jwt_issued [OF assms(2,9)] a by simp
qed

section \<open>The search for a user name\<close>

text \<open>The names the search tries, in order.\<close>

definition candidate :: "string \<Rightarrow> nat \<Rightarrow> string" where
  "candidate base i = (if i = 0 then base else base @ show_i64 (int i))"

lemma candidate_inj: "inj_on (candidate base) {..<2 ^ 31}"
proof (rule inj_onI)
  fix i j :: nat
  assume "i \<in> {..<2 ^ 31}" "j \<in> {..<2 ^ 31}" "candidate base i = candidate base j"
  moreover have "parse_i64 (show_i64 (int k)) = Some (int k)" if "k < 2 ^ 31" for k :: nat
    by (rule parse_show_i64) (use that in \<open>simp add: i64_range_def\<close>)
  moreover have "show_i64 (int k) \<noteq> []" for k by (simp add: show_i64_def)
  ultimately show "i = j"
    by (auto simp: candidate_def split: if_splits) (metis of_nat_eq_iff option.inject)+
qed

lemma suffix_sint: "i < 2 ^ 31 \<Longrightarrow> sint (of_nat i :: i32) = int i"
  by (simp add: signed_of_nat signed_take_bit_int_eq_self)

text \<open>A search that used up its fuel has found every name it tried taken.\<close>

lemma free_name_exhausted:
  assumes "free_name n (pg_account_repo J) base (of_nat (Suc i)) (candidate base i) s = (Inr None, s')"
    and "i + n < 2 ^ 31"
  shows "candidate base ` {i..<i + n} \<subseteq> set (map arow_username (db_accounts s))"
  using assms
proof (induction n arbitrary: i s)
  case (Suc n)
  from Suc.prems(1) obtain found s1 where
    look: "pg_account_by_username J (AccountName (candidate base i)) s = (Inr (Some found), s1)"
    and rest: "free_name n (pg_account_repo J) base (of_nat (Suc i) + 1) (base @ show_i64 (sint (of_nat (Suc i) :: i32))) s1 = (Inr None, s')"
    by (auto simp: repo_call_Inr pg_account_repo_sel elim!: try_await_ok_cases split: option.splits)
  have s1: "db_accounts s1 = db_accounts s"
    using keepsD [OF pg_account_reads_keep(1) look] by (rule accounts_of_tables)
  have "candidate base (Suc i) = base @ show_i64 (sint (of_nat (Suc i) :: i32))"
    using Suc.prems(2) suffix_sint [of "Suc i"] by (simp add: candidate_def)
  with rest have "free_name n (pg_account_repo J) base (of_nat (Suc (Suc i))) (candidate base (Suc i)) s1 = (Inr None, s')"
    by (simp add: add.commute)
  from Suc.IH [OF this] Suc.prems(2)
  have "candidate base ` {Suc i..<Suc i + n} \<subseteq> set (map arow_username (db_accounts s))" by (simp add: s1)
  moreover have "candidate base i \<in> set (map arow_username (db_accounts s))"
    using by_username_result [OF look] by (auto simp: find_Some_iff image_iff) (metis nth_mem)
  moreover have "{i..<i + Suc n} = insert i {Suc i..<Suc i + n}" by auto
  ultimately show ?case by simp
qed simp

lemma search_ends:
  assumes "length (db_accounts s) < fuel" "fuel < 2 ^ 31"
  shows "free_name fuel (pg_account_repo J) base 1 base s \<noteq> (Inr None, s')"
proof
  assume "free_name fuel (pg_account_repo J) base 1 base s = (Inr None, s')"
  then have "candidate base ` {0..<0 + fuel} \<subseteq> set (map arow_username (db_accounts s))"
    using assms(2) by (intro free_name_exhausted [where s' = s' and J = J]) (simp_all add: candidate_def)
  then have "card (candidate base ` {0..<fuel}) \<le> length (db_accounts s)"
    using card_mono [of "set (map arow_username (db_accounts s))"] card_length [of "map arow_username (db_accounts s)"]
    by (metis (no_types, lifting) List.finite_set add_0 le_trans length_map)
  moreover have "card (candidate base ` {0..<fuel}) = fuel"
    using card_image [OF inj_on_subset [OF candidate_inj]] assms(2) by (simp add: subset_iff)
  ultimately show False using assms(1) by simp
qed

lemma new_account_exhausted:
  assumes "new_ctftime_account fuel AR TR nid tid now profile s = (Inr None, s')"
  shows "free_name fuel AR (ctp_username profile) 1 (ctp_username profile) s = (Inr None, s')"
  using assms unfolding new_ctftime_account_def
proof (cases rule: try_await_ok_cases)
  case (1 name s1)
  show ?thesis
  proof (cases name)
    case None
    with 1 show ?thesis by simp
  next
    case (Some n)
    from 1(2) have False unfolding Some option.case Let_def by (elim try_await_ok_cases) simp
    then show ?thesis ..
  qed
qed

text \<open>C25: The CTFtime login never searches for a user name forever: with more fuel than there are
  accounts the search has ended, whatever the server answers.\<close>

theorem ctftime_login_ends:
  assumes "length (db_accounts s) < fuel" "fuel < 2 ^ 31"
  shows "fst (handle_callback fuel K secret H cfg (pg_account_repo J) (pg_team_repo J) nid tid now code s) \<noteq> Inr None"
proof
  assume "fst (handle_callback fuel K secret H cfg (pg_account_repo J) (pg_team_repo J) nid tid now code s) = Inr None"
  then obtain s' where "handle_callback fuel K secret H cfg (pg_account_repo J) (pg_team_repo J) nid tid now code s = (Inr None, s')"
    by (metis prod.collapse)
  then obtain profile s1 where f: "fetch_profile H cfg code s = (Inr profile, s1)"
    and r1: "try_await (repo_call (ar_find_by_ctftime_id (pg_account_repo J) (ctp_id profile))) (\<lambda>found.
      try_await
       (case found of
          Some acc \<Rightarrow> ret (Some acc)
        | None \<Rightarrow> new_ctftime_account fuel (pg_account_repo J) (pg_team_repo J) nid tid now profile)
       (\<lambda>account. ret (map_option (\<lambda>a. jwt_issue K now (acc_str (acc_id a)) (24 * 3600) secret) account))) s1 = (Inr None, s')"
    unfolding handle_callback_def by (rule try_await_ok_cases)
  from r1 obtain found s2 where c: "pg_account_by_ctftime J (ctp_id profile) s1 = (Inr found, s2)"
    and r2: "try_await
       (case found of
          Some acc \<Rightarrow> ret (Some acc)
        | None \<Rightarrow> new_ctftime_account fuel (pg_account_repo J) (pg_team_repo J) nid tid now profile)
       (\<lambda>account. ret (map_option (\<lambda>a. jwt_issue K now (acc_str (acc_id a)) (24 * 3600) secret) account)) s2 = (Inr None, s')"
    unfolding pg_account_repo_sel by (rule try_await_ok_cases) (simp only: repo_call_Inr)
  from r2 have n: "new_ctftime_account fuel (pg_account_repo J) (pg_team_repo J) nid tid now profile s2 = (Inr None, s')"
    by (rule try_await_ok_cases) (cases found; simp)
  have "s1 = s" using f by (auto simp: fetch_profile_def split: reply.splits option.splits)
  then have "db_accounts s2 = db_accounts s"
    using accounts_of_tables [OF keepsD [OF pg_account_reads_keep(2) c]] by simp
  moreover obtain s4 where "free_name fuel (pg_account_repo J) (ctp_username profile) 1 (ctp_username profile) s2 = (Inr None, s4)"
    using new_account_exhausted [OF n] by blast
  ultimately show False using search_ends [of s2 fuel] assms by metis
qed

section \<open>Whom the CTFtime login lets in\<close>

lemma insert_team_taken:
  assumes "insert_team J tm s = (r, s')" "q \<in> set (db_teams s)" "trow_name q = team_name_str (team_name tm)"
  shows "(\<exists>e. r = Inl e) \<and> tables_of s' = tables_of s"
  using assms(1) unfolding insert_team_def Let_def
proof (cases rule: change_cases)
  case (failed fs e)
  then show ?thesis by simp
next
  case (applied fs)
  from applied(2) have "\<not> team_clash (team_row_of J tm) q"
    using assms(2) by (simp add: checked_Inr list_ex_iff)
  with assms(3) show ?thesis by (simp add: team_clash_def team_row_of_def)
qed

lemma team_by_ctftime_none:
  assumes "pg_team_by_ctftime J i s = (Inr found, s')" "\<forall>q \<in> set (db_teams s). trow_ctftime_id q \<noteq> Some i"
  shows "found = None"
proof -
  obtain row s1 where f: "fetch_optional db_teams (\<lambda>r. trow_ctftime_id r = Some i) s = (Inr row, s1)"
    and m: "map_team_opt J row s1 = (Inr found, s')"
    using assms(1) by (auto simp: pg_team_by_ctftime_def elim!: try_await_ok_cases)
  have "find (\<lambda>r. trow_ctftime_id r = Some i) (db_teams s) = row" using fetch_optional_ok [OF f] by auto
  moreover have "find (\<lambda>r. trow_ctftime_id r = Some i) (db_teams s) = None"
    using assms(2) by (simp add: find_None_iff)
  ultimately show ?thesis using m by (simp add: map_team_opt_def)
qed

lemma ctftime_team_taken:
  assumes "ctftime_team (pg_team_repo J) tid now captain info s = (r, s')"
    and "q \<in> set (db_teams s)" "trow_name q = cti_name info"
    and "\<forall>q \<in> set (db_teams s). trow_ctftime_id q \<noteq> Some (cti_id info)"
  shows "(\<exists>e. r = Inl e) \<and> tables_of s' = tables_of s"
  using assms(1) unfolding ctftime_team_def pg_account_repo_sel
proof (cases rule: try_await_cases)
  case (err e)
  then show ?thesis using read_unchanged [OF err(1) pg_account_reads_keep(3)] by blast
next
  case (ok found s1)
  note s1 = read_unchanged [OF ok(1) pg_account_reads_keep(3)]
  have "found = None" using ok(1) assms(4) by (auto simp: repo_call_Inr dest: team_by_ctftime_none)
  let ?t = "\<lparr>team_id = TeamId tid, team_name = TeamName (cti_name info), team_ctftime_id = Some (cti_id info),
     team_invite_code = None, team_captain_id = captain, team_member_ids = [captain], team_bracket = ''Open'',
     team_fields = Map.empty, team_create_at = now\<rparr>"
  from ok(2) \<open>found = None\<close> have "try_await (repo_call (pg_team_save J ?t)) (\<lambda>_. ret ?t) s1 = (r, s')"
    by (simp add: Let_def)
  moreover obtain r2 s2 where ins: "insert_team J ?t s1 = (r2, s2)" by (cases "insert_team J ?t s1")
  moreover have "q \<in> set (db_teams s1)" using assms(2) by (simp add: teams_of_tables [OF s1])
  with insert_team_taken [OF ins] assms(3) obtain e where "r2 = Inl e" "tables_of s2 = tables_of s1" by auto
  ultimately show ?thesis
    using s1 by (auto simp: pg_team_save_def try_await_def repo_call_def map_err_def)
qed

lemma free_name_keeps [frame]: "keeps tables_of (free_name n (pg_account_repo J) b k c)"
proof (induction n arbitrary: k c)
  case (Suc n)
  then show ?case
    unfolding free_name.simps pg_account_repo_sel
    by (intro keeps_try_await keeps_repo_call pg_account_reads_keep keeps_case_option keeps_ret)
qed simp

lemma new_account_locked_out:
  assumes "new_ctftime_account fuel (pg_account_repo J) (pg_team_repo J) nid tid now profile s = (r, s')"
    and "ctp_team profile = Some info" "q \<in> set (db_teams s)" "trow_name q = cti_name info"
    and "\<forall>q \<in> set (db_teams s). trow_ctftime_id q \<noteq> Some (cti_id info)"
  shows "tables_of s' = tables_of s \<and> (\<forall>a. r \<noteq> Inr (Some a))"
  using assms(1) unfolding new_ctftime_account_def
proof (cases rule: try_await_cases)
  case (err e)
  then show ?thesis using keepsD [OF free_name_keeps err(1)] by simp
next
  case (ok name s1)
  note s1 = keepsD [OF free_name_keeps ok(1)]
  show ?thesis
  proof (cases name)
    case None
    with ok(2) s1 show ?thesis by auto
  next
    case (Some n)
    obtain r1 s2 where team: "ctftime_team (pg_team_repo J) tid now (AccountId nid) info s1 = (r1, s2)"
      by (cases "ctftime_team (pg_team_repo J) tid now (AccountId nid) info s1")
    from ctftime_team_taken [OF team] assms(3-5) s1 obtain e where "r1 = Inl e" "tables_of s2 = tables_of s"
      by (auto simp: teams_of_tables [OF s1])
    with ok(2) Some team show ?thesis
      by (auto simp: Let_def profile_team_def assms(2) try_await_def)
  qed
qed

text \<open>A player whose CTFtime team is not stored but whose team's name is taken can never sign in
  with CTFtime: the login errs before an account is stored.\<close>

theorem taken_team_name_locks_out_ctftime:
  assumes "handle_callback fuel K secret H cfg (pg_account_repo J) (pg_team_repo J) nid tid now code s = (r, s')"
    and "fetch_profile H cfg code s = (Inr profile, s)" "ctp_team profile = Some info"
    and "\<forall>a \<in> set (db_accounts s). arow_ctftime_id a \<noteq> Some (ctp_id profile)"
    and "\<forall>q \<in> set (db_teams s). trow_ctftime_id q \<noteq> Some (cti_id info)"
    and "q \<in> set (db_teams s)" "trow_name q = cti_name info"
  shows "tables_of s' = tables_of s \<and> (\<forall>token. r \<noteq> Inr (Some token))"
proof -
  let ?rest = "\<lambda>found. try_await
       (case found of
          Some acc \<Rightarrow> ret (Some acc)
        | None \<Rightarrow> new_ctftime_account fuel (pg_account_repo J) (pg_team_repo J) nid tid now profile)
       (\<lambda>account. ret (map_option (\<lambda>a. jwt_issue K now (acc_str (acc_id a)) (24 * 3600) secret) account))"
  have "try_await (repo_call (pg_account_by_ctftime J (ctp_id profile))) ?rest s = (r, s')"
    using assms(1,2) by (simp add: handle_callback_def pg_account_repo_sel try_await_def [of "fetch_profile H cfg code"])
  then show ?thesis
  proof (cases rule: try_await_cases)
    case (err e)
    then show ?thesis using read_unchanged [OF err(1) pg_account_reads_keep(2)] by simp
  next
    case (ok found s1)
    note s1 = read_unchanged [OF ok(1) pg_account_reads_keep(2)]
    have none: "found = None"
    proof (rule ccontr)
      assume "found \<noteq> None"
      then obtain a where "pg_account_by_ctftime J (ctp_id profile) s = (Inr (Some a), s1)"
        using ok(1) by (auto simp: repo_call_Inr)
      from by_ctftime_result [OF this] have "\<exists>row \<in> set (db_accounts s). arow_ctftime_id row = Some (ctp_id profile)"
        by (auto simp: find_Some_iff)
      with assms(4) show False by blast
    qed
    from ok(2) have "try_await (new_ctftime_account fuel (pg_account_repo J) (pg_team_repo J) nid tid now profile)
        (\<lambda>account. ret (map_option (\<lambda>a. jwt_issue K now (acc_str (acc_id a)) (24 * 3600) secret) account)) s1 = (r, s')"
      by (simp add: none)
    then obtain r1 where new: "new_ctftime_account fuel (pg_account_repo J) (pg_team_repo J) nid tid now profile s1 = (r1, s')"
      and r1: "(\<exists>token. r = Inr (Some token)) \<longrightarrow> (\<exists>a. r1 = Inr (Some a))"
      by (cases rule: try_await_cases) auto
    have "tables_of s' = tables_of s1 \<and> (\<forall>a. r1 \<noteq> Inr (Some a))"
      using new_account_locked_out [OF new] assms(3,5-7) by (simp add: teams_of_tables [OF s1])
    with r1 s1 show ?thesis by metis
  qed
qed

text \<open>What team changes leave of an account: everything but its team.\<close>

definition people :: "'j db \<Rightarrow> 'j account_row list" where
  "people s = map (\<lambda>a. a\<lparr>arow_team_id := None\<rparr>) (db_accounts s)"

lemma people_tables: "people s = people (tables_of s)"
  by (simp add: people_def tables_of_def)

lemma keeps_people: "keeps tables_of m \<Longrightarrow> keeps people m"
  by (erule keeps_through [where w = people]) (rule people_tables)

lemma change_keeps_people: "(\<And>db db'. f db = Inr db' \<Longrightarrow> people db' = people db) \<Longrightarrow> keeps people (change f)"
  by (erule change_keeps [where w = people]) (rule people_tables)

lemma team_update_keeps_people: "keeps people (pg_team_update J tm)"
proof -
  have "keeps people (update_team_row J tm)" "keeps people (clear_team_members (team_id tm))"
    "keeps people (set_account_team (team_id tm) a)" for a
    unfolding update_team_row_def clear_team_members_def set_account_team_def Let_def
    by (rule change_keeps_people; auto simp: checked_Inr people_def comp_def split: if_splits)+
  then show ?thesis
    unfolding pg_team_update_def set_members_def by (intro keeps_try_await keeps_each keeps_ret)
qed

lemma enrol_member_keeps_people: "keeps people (enrol_member (pg_team_repo J) acct t)"
proof -
  have "keeps people (pg_team_by_id J x)" for x
    by (rule keeps_people [OF pg_reads_keep(5)])
  then show ?thesis
    unfolding enrol_member_def pg_account_repo_sel
    by (intro keeps_case_option keeps_ret keeps_try_await keeps_repo_call keeps_if team_update_keeps_people)
qed

lemma people_row:
  assumes "people s' = people s" "row \<in> set (db_accounts s)"
  shows "\<exists>row' \<in> set (db_accounts s'). arow_id row' = arow_id row \<and> arow_ctftime_id row' = arow_ctftime_id row \<and>
    arow_role row' = arow_role row \<and> arow_password_hash row' = arow_password_hash row"
proof -
  from assms have "row\<lparr>arow_team_id := None\<rparr> \<in> (\<lambda>a. a\<lparr>arow_team_id := None\<rparr>) ` set (db_accounts s')"
    unfolding people_def by (metis imageI set_map)
  then obtain row' where "row' \<in> set (db_accounts s')" "row\<lparr>arow_team_id := None\<rparr> = row'\<lparr>arow_team_id := None\<rparr>" by blast
  moreover from this(2) have "arow_id row' = arow_id row" "arow_ctftime_id row' = arow_ctftime_id row"
    "arow_role row' = arow_role row" "arow_password_hash row' = arow_password_hash row"
    by (cases row; cases row'; simp)+
  ultimately show ?thesis by blast
qed

lemma new_account_stored:
  assumes "new_ctftime_account fuel (pg_account_repo J) (pg_team_repo J) nid tid now profile s = (Inr (Some a), s')"
  shows "acc_id a = AccountId nid \<and> (\<exists>row \<in> set (db_accounts s'). arow_id row = nid \<and>
    arow_ctftime_id row = Some (ctp_id profile) \<and> arow_role row = ''Player'' \<and> arow_password_hash row = None)"
proof -
  obtain n team s1 s2 s3 where save: "pg_account_save J a s2 = (Inr (), s3)"
    and enrol: "enrol_member (pg_team_repo J) (AccountId nid) team s3 = (Inr (), s')"
    and a: "a = \<lparr>acc_id = AccountId nid, acc_username = n, acc_email = None, acc_password_hash = None,
       acc_role = Player, acc_team_id = team, acc_ctftime_id = Some (ctp_id profile), acc_fields = Map.empty,
       acc_created_at = now\<rparr>"
    using assms unfolding new_ctftime_account_def Let_def pg_account_repo_sel
    by (elim try_await_ok_cases) (auto simp: repo_call_Inr elim!: try_await_ok_cases split: option.splits)
  from save have "account_row_of J a \<in> set (db_accounts s3)"
  proof (cases rule: pg_account_save_cases)
    case saved
    from accounts_of_tables [OF saved(5)] show ?thesis by simp
  qed simp
  from people_row [OF keepsD [OF enrol_member_keeps_people enrol] this]
  show ?thesis by (simp add: a account_row_of_def role_str_def)
qed

text \<open>C26: A CTFtime login gives a token for an account stored with the profile's CTFtime identity; an
  account that did not exist before is a player's without a password.\<close>

theorem ctftime_login_signs_in:
  assumes "handle_callback fuel K secret H cfg (pg_account_repo J) (pg_team_repo J) nid tid now code s = (Inr (Some token), s')"
    and "lawful_crypto K" "i64_range (now + 24 * 3600)"
  shows "\<exists>profile row. fetch_profile H cfg code s = (Inr profile, s) \<and> row \<in> set (db_accounts s') \<and>
    arow_ctftime_id row = Some (ctp_id profile) \<and>
    (\<forall>n. jwt_decode K n token secret =
       (if n < now + 24 * 3600
        then Inr (hs256_header, \<lparr>cl_sub = arow_id row, cl_iat = now, cl_exp = now + 24 * 3600\<rparr>)
        else Inl Expired)) \<and>
    (row \<in> set (db_accounts s) \<or> arow_role row = ''Player'' \<and> arow_password_hash row = None)"
proof -
  from assms(1) obtain profile s1 where f: "fetch_profile H cfg code s = (Inr profile, s1)"
    and r1: "try_await (repo_call (ar_find_by_ctftime_id (pg_account_repo J) (ctp_id profile))) (\<lambda>found.
      try_await
       (case found of
          Some acc \<Rightarrow> ret (Some acc)
        | None \<Rightarrow> new_ctftime_account fuel (pg_account_repo J) (pg_team_repo J) nid tid now profile)
       (\<lambda>account. ret (map_option (\<lambda>a. jwt_issue K now (acc_str (acc_id a)) (24 * 3600) secret) account))) s1 = (Inr (Some token), s')"
    unfolding handle_callback_def by (rule try_await_ok_cases)
  have s1: "s1 = s" using f by (auto simp: fetch_profile_def split: reply.splits option.splits)
  from r1 obtain found s2 where c: "pg_account_by_ctftime J (ctp_id profile) s = (Inr found, s2)"
    and r2: "try_await
       (case found of
          Some acc \<Rightarrow> ret (Some acc)
        | None \<Rightarrow> new_ctftime_account fuel (pg_account_repo J) (pg_team_repo J) nid tid now profile)
       (\<lambda>account. ret (map_option (\<lambda>a. jwt_issue K now (acc_str (acc_id a)) (24 * 3600) secret) account)) s2 = (Inr (Some token), s')"
    unfolding pg_account_repo_sel s1 by (rule try_await_ok_cases) (simp only: repo_call_Inr)
  from r2 obtain account where token: "token = jwt_issue K now (acc_str (acc_id account)) (24 * 3600) secret"
    and acc: "(case found of
          Some acc \<Rightarrow> ret (Some acc)
        | None \<Rightarrow> new_ctftime_account fuel (pg_account_repo J) (pg_team_repo J) nid tid now profile) s2 = (Inr (Some account), s')"
    by (rule try_await_ok_cases) auto
  have "\<exists>row. row \<in> set (db_accounts s') \<and> arow_id row = acc_str (acc_id account) \<and>
      arow_ctftime_id row = Some (ctp_id profile) \<and>
      (row \<in> set (db_accounts s) \<or> arow_role row = ''Player'' \<and> arow_password_hash row = None)"
  proof (cases found)
    case None
    with acc new_account_stored [of fuel J nid tid now profile s2 account s'] show ?thesis by auto
  next
    case (Some a)
    with acc c have "a = account" "s' = s2" by simp_all
    from by_ctftime_result [OF c] Some obtain row where row: "find (\<lambda>r. arow_ctftime_id r = Some (ctp_id profile)) (db_accounts s) = Some row"
      and m: "map_account J row = Inr a"
      by auto
    have "acc_str (acc_id a) = arow_id row" using m by (auto simp: map_account_def and_then_Inr)
    moreover have "row \<in> set (db_accounts s)" "arow_ctftime_id row = Some (ctp_id profile)"
      using row by (auto simp: find_Some_iff)
    moreover have "db_accounts s' = db_accounts s"
      unfolding \<open>s' = s2\<close> by (rule accounts_of_tables [OF keepsD [OF pg_account_reads_keep(2) c]])
    ultimately show ?thesis using \<open>a = account\<close> by metis
  qed
  then show ?thesis using f jwt_issued [OF assms(2,3)] unfolding token s1 by metis
qed

end
