(* ===== verification/Notices.thy ===== *)
theory Notices
  imports Handlers Persistence Board Schema
begin

text \<open>
  Notifications, \<open>src/src/libs/services/notifications.rs\<close> and \<open>src/src/libs/api/notifications.rs\<close>:
  announcing, resolving a filter to the accounts it selects, who is shown what in the list and
  in the event stream. Then the small services and handlers over the configuration and the
  scoreboard: \<open>src/src/libs/services/config.rs\<close>, \<open>src/src/libs/api/scoreboard.rs\<close>.
\<close>

section \<open>The service\<close>

text \<open>\<open>sender.send\<close> errs only when nobody listens, and its result is dropped.\<close>

definition announce ::
    "'j app \<Rightarrow> string \<Rightarrow> string \<Rightarrow> html_string \<Rightarrow> notification_target \<Rightarrow> i64 \<Rightarrow>
     ('j world, service_error, notification) act" where
  "announce A new_id title message target now =
     (let n = \<lparr>nt_id = NotificationId new_id, nt_kind = Announcement, nt_title = title,
               nt_message = message, nt_target = target, nt_created_at = now\<rparr>
      in try_await (repo_call (on_db (nr_save (pg_notification_repo (ap_serde A)) n))) (\<lambda>_.
         try_await (broadcast n) (\<lambda>_. ret n)))"

definition list_recent :: "'j app \<Rightarrow> i64 \<Rightarrow> ('j world, service_error, notification list) act" where
  "list_recent A limit = repo_call (on_db (nr_list_recent (pg_notification_repo (ap_serde A)) limit))"

section \<open>The handlers\<close>

record announce_payload =
  ap_title :: string
  ap_message :: html_string
  ap_target :: "notification_target option" \<comment> \<open>absent in the JSON: the serde default\<close>

definition everyone :: notification_target where
  "everyone = Everyone"

definition target_visible :: "notification_target \<Rightarrow> account_id option \<Rightarrow> team_id option \<Rightarrow> bool" where
  "target_visible t acct tm =
     (case acct of Some a \<Rightarrow> target_matches t a tm | None \<Rightarrow> t = Everyone)"

definition kind_event :: "notification_kind \<Rightarrow> string" where
  "kind_event k =
     (case k of Announcement \<Rightarrow> ''announcement'' | SolveKind \<Rightarrow> ''solve'' | FirstBlood \<Rightarrow> ''first_blood'')"

definition viewer_identity ::
    "'j app \<Rightarrow> account_id option \<Rightarrow> ('j world, 'e, account_id option \<times> team_id option) act" where
  "viewer_identity A acct =
     (case acct of
        Some a \<Rightarrow> try_await (find_account A a) (\<lambda>found. ret (Some a, team_of_found found))
      | None \<Rightarrow> ret (None, None))"

definition filter_scope :: "submission list \<Rightarrow> account \<Rightarrow> (string \<times> rhai_value) list" where
  "filter_scope subs a =
     [(''solved'', RArr (map (\<lambda>s. RStr (sub_challenge_id s))
        (filter (\<lambda>s. sub_is_correct s \<and> viewer_made (acc_team_id a) (acc_id a) s) subs))),
      (''username'', RStr (acc_name_str (acc_username a))),
      (''email'', RStr (case acc_email a of Some e \<Rightarrow> email_str e | None \<Rightarrow> []))]"

definition filter_selects :: "ext \<Rightarrow> submission list \<Rightarrow> string \<Rightarrow> account \<Rightarrow> bool" where
  "filter_selects X subs expr a =
     (case rhai_bool X sandboxed_engine (filter_scope subs a) expr of Some b \<Rightarrow> b | None \<Rightarrow> False)"

definition resolve_target ::
    "'j app \<Rightarrow> notification_target \<Rightarrow> ('j world, 'e, notification_target) act" where
  "resolve_target A t =
     (case t of
        Filter expr \<Rightarrow>
          try_await (attempt (on_db (pg_accounts_all (ap_serde A)))) (\<lambda>accounts.
          try_await (attempt (on_db pg_submissions_all)) (\<lambda>subs.
          ret (Accounts (map acc_id
            (filter (filter_selects (ap_ext A) (or_empty subs) expr) (or_empty accounts))))))
      | _ \<Rightarrow> ret t)"

definition api_create_notification ::
    "'j app \<Rightarrow> string \<Rightarrow> announce_payload \<Rightarrow> ('j world, localized_error, notification) act" where
  "api_create_notification A new_id p =
     try_await (resolve_target A (case ap_target p of Some t \<Rightarrow> t | None \<Rightarrow> everyone)) (\<lambda>target.
     try_await now_is (\<lambda>now.
     localized (announce A new_id (ap_title p) (ap_message p) target now)))"

definition auth_missing :: "'j app \<Rightarrow> account_id option \<Rightarrow> bool" where
  "auth_missing A viewer \<longleftrightarrow> require_auth (ap_notifications A) \<and> viewer = None"

definition api_list_notifications ::
    "'j app \<Rightarrow> account_id option \<Rightarrow> ('j world, localized_error, notification list) act" where
  "api_list_notifications A viewer =
     (if auth_missing A viewer then fail (map_localized Unauthorized)
      else
        try_await (viewer_identity A viewer) (\<lambda>(acct, tm).
        try_await (localized (list_recent A 100)) (\<lambda>ns.
        ret (filter (\<lambda>n. target_visible (nt_target n) acct tm) ns))))"

text \<open>
  The event stream: what the subscription yields, \<open>None\<close> where the receiver lagged behind the
  channel, goes through the same filter; \<open>json\<close> is the encoding of a message, which may err.
\<close>

definition stream_event ::
    "(notification \<Rightarrow> string option) \<Rightarrow> account_id option \<Rightarrow> team_id option \<Rightarrow> notification option \<Rightarrow>
     (string \<times> string) option" where
  "stream_event json acct tm received =
     (case received of
        None \<Rightarrow> None
      | Some n \<Rightarrow>
          if \<not> target_visible (nt_target n) acct tm then None
          else map_option (\<lambda>data. (kind_event (nt_kind n), data)) (json n))"

definition api_notifications_stream ::
    "(notification \<Rightarrow> string option) \<Rightarrow> 'j app \<Rightarrow> account_id option \<Rightarrow> notification option list \<Rightarrow>
     ('j world, localized_error, (string \<times> string) list) act" where
  "api_notifications_stream json A viewer received =
     (if auth_missing A viewer then fail (map_localized Unauthorized)
      else
        try_await (viewer_identity A viewer) (\<lambda>(acct, tm).
        ret (List.map_filter (stream_event json acct tm) received)))"

section \<open>Who sees what\<close>

lemma viewer_identity_cases:
  assumes "viewer_identity A viewer w = (r, w')"
  obtains (anonymous) "viewer = None" "r = Inr (None, None)" "w' = w"
  | (known) a found db' where "viewer = Some a" "pg_account_by_id (ap_serde A) a (w_db w) = (found, db')"
      "r = Inr (Some a, team_of_found found)" "w' = w\<lparr>w_db := db'\<rparr>"
proof (cases viewer)
  case None
  with assms anonymous show thesis by (simp add: viewer_identity_def)
next
  case (Some a)
  obtain found db' where f: "pg_account_by_id (ap_serde A) a (w_db w) = (found, db')"
    by (cases "pg_account_by_id (ap_serde A) a (w_db w)")
  with assms Some known [OF Some f] show thesis
    by (simp add: viewer_identity_def try_await_def find_account_eq)
qed

lemma listed_cases:
  assumes "api_list_notifications A viewer w = (Inr ns, w')"
  obtains acct tm w1 all where "\<not> auth_missing A viewer"
    "viewer_identity A viewer w = (Inr (acct, tm) :: localized_error + _, w1)"
    "localized (list_recent A 100) w1 = (Inr all, w')"
    "ns = filter (\<lambda>n. target_visible (nt_target n) acct tm) all"
proof -
  have "\<not> auth_missing A viewer" using assms by (auto simp: api_list_notifications_def)
  moreover from this assms obtain x w1 where v: "viewer_identity A viewer w = (Inr x :: localized_error + _, w1)"
    and k: "(\<lambda>(acct, tm). try_await (localized (list_recent A 100)) (\<lambda>ns. ret (filter (\<lambda>n. target_visible (nt_target n) acct tm) ns))) x w1 = (Inr ns, w')"
    by (simp add: api_list_notifications_def) (erule try_await_ok_cases)
  moreover obtain acct tm where x: "x = (acct, tm)" by (cases x)
  moreover from k x obtain all where "localized (list_recent A 100) w1 = (Inr all, w')"
    "ns = filter (\<lambda>n. target_visible (nt_target n) acct tm) all"
    by (auto elim!: try_await_ok_cases)
  ultimately show thesis using that by blast
qed

text \<open>C32: Nobody is shown what is not addressed to them: a listed notification is addressed to everyone,
  or to the viewer's account, or to a team the viewer is in; an anonymous viewer sees only what
  is addressed to everyone, and nothing where authentication is required. A filter that was
  never resolved is shown to no one.\<close>

theorem notifications_reach_only_their_target:
  assumes "api_list_notifications A viewer w = (Inr ns, w')" "n \<in> set ns"
  shows "\<not> (require_auth (ap_notifications A) \<and> viewer = None) \<and>
    (case nt_target n of
       Everyone \<Rightarrow> True
     | Accounts ids \<Rightarrow> (\<exists>a. viewer = Some a \<and> a \<in> set ids)
     | Teams ts \<Rightarrow> (\<exists>a acct db'. viewer = Some a \<and>
         pg_account_by_id (ap_serde A) a (w_db w) = (Inr (Some acct), db') \<and>
         (\<exists>t. acc_team_id acct = Some t \<and> t \<in> set ts))
     | Filter _ \<Rightarrow> False)"
  using assms(1)
proof (cases rule: listed_cases)
  case (1 acct tm w1 all)
  then have auth: "\<not> (require_auth (ap_notifications A) \<and> viewer = None)" by (simp add: auth_missing_def)
  from 1(4) assms(2) have vis: "target_visible (nt_target n) acct tm" by simp
  from 1(2) show ?thesis
  proof (cases rule: viewer_identity_cases)
    case anonymous
    with auth vis show ?thesis by (auto simp: target_visible_def)
  next
    case (known a found db')
    then have "target_matches (nt_target n) a (team_of_found found)" using vis by (simp add: target_visible_def)
    with auth known(1,2) show ?thesis
      by (auto simp: target_matches_def team_of_found_def split: notification_target.splits sum.splits option.splits)
  qed
qed

section \<open>What an announcement does\<close>

lemma pg_notification_save_ok:
  "pg_notification_save J n s = (Inr u, s') \<Longrightarrow>
     \<exists>fs. s' = s\<lparr>db_faults := fs, db_notifications := db_notifications s @ [notification_row_of J n]\<rparr>"
  by (auto simp: pg_notification_save_def Let_def checked_Inr elim!: change_cases)

lemma announce_ok:
  assumes "announce A i title msg t now w = (Inr n, w')"
  shows "n = \<lparr>nt_id = NotificationId i, nt_kind = Announcement, nt_title = title, nt_message = msg,
      nt_target = t, nt_created_at = now\<rparr> \<and>
    db_notifications (w_db w') = db_notifications (w_db w) @ [notification_row_of (ap_serde A) n] \<and>
    w_sent w' = w_sent w @ [n]"
  using assms
  by (auto simp: announce_def Let_def repo_call_Inr broadcast_def pg_notification_repo_def
      elim!: try_await_ok_cases on_db_cases dest!: pg_notification_save_ok)

text \<open>A filter asks its question of every stored account, over the stored submissions.\<close>

definition selected :: "'j app \<Rightarrow> 'j db \<Rightarrow> string \<Rightarrow> account_id set" where
  "selected A db expr =
     {acc_id x | x r. r \<in> set (db_accounts db) \<and> map_account (ap_serde A) r = Inr x \<and>
        filter_selects (ap_ext A) (map map_submission (db_submissions db)) expr x}"

lemma resolve_filter:
  assumes "well_typed (ap_serde A) (w_db w)" "db_faults (w_db w) = []"
  obtains ids where "resolve_target A (Filter expr) w = (Inr (Accounts ids), w)"
    "set ids = selected A (w_db w) expr"
proof -
  let ?sel = "filter_selects (ap_ext A) (map map_submission (db_submissions (w_db w))) expr"
  let ?ids = "map acc_id (filter ?sel (map (\<lambda>r. projr (map_account (ap_serde A) r)) (db_accounts (w_db w))))"
  have "pg_submissions_all (w_db w) = (Inr (map map_submission (db_submissions (w_db w))), w_db w)"
    using assms(2) by (simp add: pg_submissions_all_def try_await_def fetch_no_fault)
  then have "resolve_target A (Filter expr) w = (Inr (Accounts ?ids), w)"
    using accounts_read [OF assms] by (simp add: resolve_target_def try_await_def attempt_def on_db_def or_empty_def)
  moreover have "(map_account (ap_serde A) r = Inr x) = (projr (map_account (ap_serde A) r) = x)"
    if "r \<in> set (db_accounts (w_db w))" for r x
    using typed_rows(1) [OF assms(1) that] by (auto simp: account_typed_def sum.collapse(2) dest!: sym [of _ x])
  then have "set ?ids = selected A (w_db w) expr" by (auto simp: selected_def)
  ultimately show thesis by (rule that)
qed

lemma created_from_filter:
  assumes "api_create_notification A i p w = (Inr n, w')" "ap_target p = Some (Filter expr)"
    "well_typed (ap_serde A) (w_db w)" "db_faults (w_db w) = []"
  obtains ids where "nt_target n = Accounts ids" "set ids = selected A (w_db w) expr" "nt_kind n = Announcement"
    "db_notifications (w_db w') = db_notifications (w_db w) @ [notification_row_of (ap_serde A) n]"
    "w_sent w' = w_sent w @ [n]"
proof -
  obtain ids where r: "resolve_target A (Filter expr) w = (Inr (Accounts ids) :: localized_error + _, w)"
    and ids: "set ids = selected A (w_db w) expr"
    by (rule resolve_filter [OF assms(3,4)])
  from assms(1,2) r have "announce A i (ap_title p) (ap_message p) (Accounts ids) (db_clock (w_db w)) w = (Inr n, w')"
    by (auto simp: api_create_notification_def localized_def map_err_Inr elim!: try_await_ok_cases)
  from announce_ok [OF this] ids show thesis by (intro that [of ids]) simp_all
qed

lemma map_eq_someD: "map f xs = map Some ys \<Longrightarrow> \<forall>x \<in> set xs. \<exists>y \<in> set ys. f x = Some y"
  by (metis (no_types, lifting) ex_map_conv list.set_map imageE image_eqI)

text \<open>A stored notification is listed to whoever may see it, as long as a hundred are not newer.\<close>

lemma listed_when_visible:
  assumes "api_list_notifications A viewer w = (Inr ns, w')"
    and "length (db_notifications (w_db w)) \<le> 100"
    and "notification_row_of (ap_serde A) n \<in> set (db_notifications (w_db w))"
    and "kind_from (ap_serde A) (kind_to (ap_serde A) (nt_kind n)) = Inr (nt_kind n)"
    and "target_from (ap_serde A) (target_to (ap_serde A) (nt_target n)) = Inr (nt_target n)"
    and "nt_target n = Accounts ids"
  shows "n \<in> set ns \<longleftrightarrow> (\<exists>a. viewer = Some a \<and> a \<in> set ids)"
  using assms(1)
proof (cases rule: listed_cases)
  case (1 acct tm w1 all)
  have id: "acct = viewer" "tables_of (w_db w1) = tables_of (w_db w)"
    using 1(2) by (auto elim!: viewer_identity_cases dest: keepsD [OF account_by_id_keeps])
  have rows: "db_notifications (w_db w1) = db_notifications (w_db w)"
    using arg_cong [OF id(2), of db_notifications] by (simp add: tables_of_def)
  obtain db' where rec: "pg_notifications_recent (ap_serde A) 100 (w_db w1) = (Inr all, db')"
    using 1(3) by (auto simp: localized_def list_recent_def map_err_Inr repo_call_Inr pg_notification_repo_def elim!: on_db_cases)
  have "map (\<lambda>r. right (notification_of_row (ap_serde A) r)) (sort_by newest (db_notifications (w_db w))) = map Some all"
    using recent_rows [OF rec] assms(2) rows by simp
  from map_eq_someD [OF this]
  have "\<forall>r \<in> set (db_notifications (w_db w)). \<exists>x \<in> set all. notification_of_row (ap_serde A) r = Inr x"
    by (simp add: right_eq)
  with assms(3) obtain x where "x \<in> set all" "notification_of_row (ap_serde A) (notification_row_of (ap_serde A) n) = Inr x"
    by blast
  moreover have "notification_of_row (ap_serde A) (notification_row_of (ap_serde A) n) = Inr n"
  proof -
    have "NotificationId (case nt_id n of NotificationId i \<Rightarrow> i) = nt_id n" by (cases "nt_id n") simp
    with assms(4,5) show ?thesis by (simp add: notification_of_row_def notification_row_of_def and_then_def)
  qed
  ultimately have "n \<in> set all" by simp
  with 1(4) id(1) assms(6) show ?thesis
    by (auto simp: target_visible_def target_matches_def split: option.splits)
qed


section \<open>Configuration and scoreboard\<close>

definition config_get :: "'s config_repo \<Rightarrow> ('s, service_error, ctf_config) act" where
  "config_get CR = repo_call (gr_get CR)"

definition config_update :: "'s config_repo \<Rightarrow> ctf_config \<Rightarrow> ('s, service_error, unit) act" where
  "config_update CR cfg = try_await (repo_call (gr_set CR cfg)) (\<lambda>_. ret ())"

definition api_get_scoreboard ::
    "'j app \<Rightarrow> 'j db scoreboard_service \<Rightarrow> string option \<Rightarrow>
     ('j world, localized_error, scoreboard_entry list) act" where
  "api_get_scoreboard A svc bracket = localized (on_db (get_scoreboard (ap_ext A) svc bracket))"

definition api_export_scoreboard ::
    "'j app \<Rightarrow> 'j db scoreboard_service \<Rightarrow> ('j world, localized_error, ctftime_scoreboard_export) act" where
  "api_export_scoreboard A svc = localized (on_db (export_ctftime (ap_ext A) svc))"

end
