(* ===== verification/Storage.thy ===== *)
theory Storage
  imports Text Repos
begin

text \<open>
  File storage, \<open>src/src/libs/services/storage.rs\<close>: the check of identifiers, the directory on
  the local disk and the \<open>rclone\<close> remote. The disk is a map from paths to contents with a
  schedule of faults; a failed write may leave anything at the path it writes. Running
  \<open>rclone\<close> is the argument \<open>run\<close>: what the process does to the remote and prints.
\<close>

section \<open>Identifiers\<close>

datatype storage_error = StorageIo string | StorageNotFound | StorageInvalidId

definition id_char :: "char \<Rightarrow> bool" where
  "id_char c \<longleftrightarrow>
     (48 \<le> byte c \<and> byte c \<le> 57) \<or> (65 \<le> byte c \<and> byte c \<le> 90) \<or> (97 \<le> byte c \<and> byte c \<le> 122) \<or>
     c = CHR ''-'' \<or> c = CHR ''_'' \<or> c = CHR ''.''"

definition validate_id :: "string \<Rightarrow> ('s, storage_error, unit) act" where
  "validate_id i =
     (if i = [] \<or> length i > 128 \<or> prefix ''-'' i \<or> contains i ''..'' \<or> \<not> list_all id_char i
      then fail StorageInvalidId else ret ())"

definition valid_id :: "string \<Rightarrow> bool" where
  "valid_id i \<longleftrightarrow> i \<noteq> [] \<and> length i \<le> 128 \<and> \<not> prefix ''-'' i \<and> \<not> contains i ''..'' \<and> list_all id_char i"

lemma validate_id_eq: "validate_id i = (if valid_id i then ret () else fail StorageInvalidId)"
  by (auto simp: validate_id_def valid_id_def)

lemma valid_id_no_slash: "valid_id i \<Longrightarrow> CHR ''/'' \<notin> set i"
  by (auto simp: valid_id_def list_all_iff id_char_def)

section \<open>The storage trait\<close>

record 's file_storage =
  fs_store :: "string \<Rightarrow> string \<Rightarrow> ('s, storage_error, unit) act"
  fs_retrieve :: "string \<Rightarrow> ('s, storage_error, string) act"
  fs_delete :: "string \<Rightarrow> ('s, storage_error, unit) act"

text \<open>
  The contract: \<open>blobs\<close> is what the storage holds. A store, a retrieval and a deletion that
  succeed do what they say, none touches another identifier, and a missing blob is not found.
\<close>

locale blob_store =
  fixes FS :: "'s file_storage"
    and blobs :: "'s \<Rightarrow> string \<rightharpoonup> string"
  assumes store_ok: "fs_store FS i b s = (Inr u, s') \<Longrightarrow> blobs s' = (blobs s)(i \<mapsto> b)"
    and store_err: "fs_store FS i b s = (Inl e, s') \<Longrightarrow> j \<noteq> i \<Longrightarrow> blobs s' j = blobs s j"
    and retrieve_ok: "fs_retrieve FS i s = (Inr b, s') \<Longrightarrow> blobs s i = Some b"
    and retrieve_missing: "fs_retrieve FS i s = (Inl StorageNotFound, s') \<Longrightarrow> blobs s i = None"
    and retrieve_keeps: "keeps blobs (fs_retrieve FS i)"
    and delete_ok: "fs_delete FS i s = (Inr u, s') \<Longrightarrow> blobs s' = (blobs s)(i := None)"
    and delete_err: "fs_delete FS i s = (Inl e, s') \<Longrightarrow> j \<noteq> i \<Longrightarrow> blobs s' j = blobs s j"

section \<open>The local disk\<close>

text \<open>
  A fault is an error (of a kind other than not found, which the map decides) with what a
  failed write leaves at its path, if it touched it.
\<close>

record disk =
  dk_files :: "string \<rightharpoonup> string"
  dk_faults :: "(string \<times> string option) option list"

datatype io_error = IoMissing | IoOther string

definition io_text :: "io_error \<Rightarrow> string" where
  "io_text e = (case e of IoMissing \<Rightarrow> ''No such file or directory (os error 2)'' | IoOther msg \<Rightarrow> msg)"

text \<open>An operation of the file system; its first argument says what a fault that leaves something does.\<close>

definition disk_op ::
    "(string \<Rightarrow> disk \<Rightarrow> disk) \<Rightarrow> (disk \<Rightarrow> (io_error + 'a) \<times> disk) \<Rightarrow> (disk, io_error, 'a) act" where
  "disk_op torn f = (\<lambda>d.
     let d' = d\<lparr>dk_faults := tl (dk_faults d)\<rparr> in
     case dk_faults d of
       Some (msg, left) # _ \<Rightarrow> (Inl (IoOther msg), (case left of None \<Rightarrow> d' | Some b \<Rightarrow> torn b d'))
     | _ \<Rightarrow> f d')"

definition put_file :: "string \<Rightarrow> string \<Rightarrow> disk \<Rightarrow> disk" where
  "put_file path b d = d\<lparr>dk_files := (dk_files d)(path \<mapsto> b)\<rparr>"

text \<open>\<open>PathBuf::join\<close> of a relative path. A path whose last component is a dot names a directory.\<close>

definition path_join :: "string \<Rightarrow> string \<Rightarrow> string" where
  "path_join dir i = (if dir = [] \<or> last dir = CHR ''/'' then dir @ i else dir @ ''/'' @ i)"

definition is_a_directory :: io_error where
  "is_a_directory = IoOther ''Is a directory (os error 21)''"

definition names_directory :: "string \<Rightarrow> bool" where
  "names_directory path \<longleftrightarrow> path = ''.'' \<or> suffix ''/.'' path"

definition create_dir_all :: "(disk, io_error, unit) act" where
  "create_dir_all = disk_op (\<lambda>_. id) (\<lambda>d. (Inr (), d))"

definition write_file :: "string \<Rightarrow> string \<Rightarrow> (disk, io_error, unit) act" where
  "write_file path bytes =
     (if names_directory path then fail is_a_directory
      else disk_op (put_file path) (\<lambda>d. (Inr (), put_file path bytes d)))"

definition read_file :: "string \<Rightarrow> (disk, io_error, string) act" where
  "read_file path =
     (if names_directory path then fail is_a_directory
      else disk_op (\<lambda>_. id) (\<lambda>d.
        (case dk_files d path of None \<Rightarrow> Inl IoMissing | Some b \<Rightarrow> Inr b, d)))"

definition remove_file :: "string \<Rightarrow> (disk, io_error, unit) act" where
  "remove_file path =
     (if names_directory path then fail is_a_directory
      else disk_op (\<lambda>_. id) (\<lambda>d.
        (case dk_files d path of
           None \<Rightarrow> (Inl IoMissing, d)
         | Some _ \<Rightarrow> (Inr (), d\<lparr>dk_files := (dk_files d)(path := None)\<rparr>))))"

definition local_store :: "string \<Rightarrow> string \<Rightarrow> string \<Rightarrow> (disk, storage_error, unit) act" where
  "local_store dir i bytes =
     try_await (validate_id i) (\<lambda>_.
     try_await (map_err (\<lambda>e. StorageIo (io_text e)) create_dir_all) (\<lambda>_.
     map_err (\<lambda>e. StorageIo (io_text e)) (write_file (path_join dir i) bytes)))"

definition local_retrieve :: "string \<Rightarrow> string \<Rightarrow> (disk, storage_error, string) act" where
  "local_retrieve dir i =
     try_await (validate_id i) (\<lambda>_.
     map_err (\<lambda>e. case e of IoMissing \<Rightarrow> StorageNotFound | IoOther _ \<Rightarrow> StorageIo (io_text e))
       (read_file (path_join dir i)))"

definition local_delete :: "string \<Rightarrow> string \<Rightarrow> (disk, storage_error, unit) act" where
  "local_delete dir i =
     try_await (validate_id i) (\<lambda>_.
     try_await (attempt (remove_file (path_join dir i))) (\<lambda>removed.
     case removed of
       Inr _ \<Rightarrow> ret ()
     | Inl IoMissing \<Rightarrow> ret ()
     | Inl e \<Rightarrow> fail (StorageIo (io_text e))))"

definition local_storage :: "string \<Rightarrow> disk file_storage" where
  "local_storage dir =
     \<lparr>fs_store = local_store dir, fs_retrieve = local_retrieve dir, fs_delete = local_delete dir\<rparr>"

definition local_blobs :: "string \<Rightarrow> disk \<Rightarrow> string \<rightharpoonup> string" where
  "local_blobs dir d =
     (\<lambda>i. if valid_id i \<and> \<not> names_directory (path_join dir i) then dk_files d (path_join dir i) else None)"

lemma path_join_inj: "path_join dir i = path_join dir j \<longleftrightarrow> i = j"
  by (simp add: path_join_def)

lemma path_join_neq [simp]: "i \<noteq> j \<Longrightarrow> path_join dir i \<noteq> path_join dir j"
  by (simp add: path_join_inj)

lemma dk_files_put [simp]: "dk_files (put_file p b d) = (dk_files d)(p \<mapsto> b)"
  by (simp add: put_file_def)

text \<open>What one operation on the disk can do: nothing but at the one path it names.\<close>

lemma disk_op_cases:
  assumes "disk_op torn f d = (r, d')"
  obtains (worked) fs where "f (d\<lparr>dk_faults := fs\<rparr>) = (r, d')"
  | (failed) msg where "r = Inl (IoOther msg)" "dk_files d' = dk_files d"
  | (torn) msg b fs where "r = Inl (IoOther msg)" "d' = torn b (d\<lparr>dk_faults := fs\<rparr>)"
proof (cases "dk_faults d")
  case Nil
  with assms show thesis by (intro worked [of "[]"]) (simp add: disk_op_def Let_def)
next
  case (Cons x fs)
  show thesis
  proof (cases x)
    case None
    with assms Cons show thesis by (intro worked [of fs]) (simp add: disk_op_def Let_def)
  next
    case (Some fault)
    obtain msg left where fault: "fault = (msg, left)" by (cases fault)
    show thesis
    proof (cases left)
      case None
      with assms Cons Some fault show thesis by (intro failed [of msg]) (auto simp: disk_op_def Let_def)
    next
      case (Some b)
      with assms Cons \<open>x = Some fault\<close> fault show thesis
        by (intro torn [of msg b fs]) (auto simp: disk_op_def Let_def)
    qed
  qed
qed

lemma write_file_cases:
  assumes "write_file p b d = (r, d')"
  shows "(r = Inr () \<and> \<not> names_directory p \<and> dk_files d' = (dk_files d)(p \<mapsto> b)) \<or>
    (\<exists>e. r = Inl e \<and> (dk_files d' = dk_files d \<or> (\<exists>x. \<not> names_directory p \<and> dk_files d' = (dk_files d)(p \<mapsto> x))))"
  using assms by (auto simp: write_file_def split: if_splits elim!: disk_op_cases)

lemma read_file_cases:
  assumes "read_file p d = (r, d')"
  shows "dk_files d' = dk_files d \<and>
    (case r of Inr b \<Rightarrow> \<not> names_directory p \<and> dk_files d p = Some b
     | Inl IoMissing \<Rightarrow> \<not> names_directory p \<and> dk_files d p = None | Inl (IoOther _) \<Rightarrow> True)"
  using assms by (auto simp: read_file_def is_a_directory_def split: if_splits option.splits elim!: disk_op_cases)

lemma remove_file_cases:
  assumes "remove_file p d = (r, d')"
  shows "(\<exists>msg. r = Inl (IoOther msg) \<and> dk_files d' = dk_files d) \<or>
    ((r = Inr () \<or> r = Inl IoMissing) \<and> \<not> names_directory p \<and> dk_files d' = (dk_files d)(p := None))"
  using assms
  by (auto simp: remove_file_def is_a_directory_def fun_upd_idem split: if_splits option.splits elim!: disk_op_cases)

lemma local_store_cases:
  assumes "local_store dir i b d = (r, d')"
  obtains (stored) "r = Inr ()" "valid_id i" "\<not> names_directory (path_join dir i)" "dk_files d' = (dk_files d)(path_join dir i \<mapsto> b)"
  | (failed) e where "r = Inl e" "dk_files d' = dk_files d"
  | (torn) e x where "r = Inl e" "valid_id i" "\<not> names_directory (path_join dir i)" "dk_files d' = (dk_files d)(path_join dir i \<mapsto> x)"
proof (cases "valid_id i")
  case False
  with assms that(2) show thesis by (auto simp: local_store_def validate_id_eq)
next
  case valid: True
  with assms have "try_await (map_err (\<lambda>e. StorageIo (io_text e)) create_dir_all)
      (\<lambda>_. map_err (\<lambda>e. StorageIo (io_text e)) (write_file (path_join dir i) b)) d = (r, d')"
    by (simp add: local_store_def validate_id_eq)
  then show thesis
  proof (cases rule: try_await_cases)
    case (err e)
    then show thesis
      by (intro that(2) [of e]) (auto simp: map_err_Inl create_dir_all_def elim!: disk_op_cases)
  next
    case (ok u d1)
    then have d1: "dk_files d1 = dk_files d"
      by (auto simp: map_err_Inr create_dir_all_def elim!: disk_op_cases)
    obtain r1 where w: "write_file (path_join dir i) b d1 = (r1, d')"
      and r: "r = (case r1 of Inl e \<Rightarrow> Inl (StorageIo (io_text e)) | Inr x \<Rightarrow> Inr x)"
      using ok(2) by (auto simp: map_err_def split: prod.splits sum.splits)
    from write_file_cases [OF w] valid r d1 show thesis by (auto intro: that)
  qed
qed

lemma local_retrieve_cases:
  assumes "local_retrieve dir i d = (r, d')"
  shows "dk_files d' = dk_files d \<and> (\<forall>b. r = Inr b \<longrightarrow> local_blobs dir d i = Some b) \<and>
    (r = Inl StorageNotFound \<longrightarrow> local_blobs dir d i = None)"
proof (cases "valid_id i")
  case False
  with assms show ?thesis by (auto simp: local_retrieve_def validate_id_eq)
next
  case True
  obtain r1 where w: "read_file (path_join dir i) d = (r1, d')"
    and r: "r = (case r1 of Inl e \<Rightarrow> Inl (case e of IoMissing \<Rightarrow> StorageNotFound | IoOther _ \<Rightarrow> StorageIo (io_text e)) | Inr x \<Rightarrow> Inr x)"
    using assms True by (auto simp: local_retrieve_def validate_id_eq map_err_def split: prod.splits sum.splits)
  from read_file_cases [OF w] r True show ?thesis
    by (auto simp: local_blobs_def split: sum.splits io_error.splits)
qed

lemma local_delete_cases:
  assumes "local_delete dir i d = (r, d')"
  obtains (deleted) "r = Inr ()" "valid_id i" "\<not> names_directory (path_join dir i)" "dk_files d' = (dk_files d)(path_join dir i := None)"
  | (failed) e where "r = Inl e" "dk_files d' = dk_files d"
proof (cases "valid_id i")
  case False
  with assms that(2) show thesis by (auto simp: local_delete_def validate_id_eq)
next
  case True
  obtain r1 where w: "remove_file (path_join dir i) d = (r1, d')"
    and r: "r = (case r1 of Inr _ \<Rightarrow> Inr () | Inl IoMissing \<Rightarrow> Inr () | Inl e \<Rightarrow> Inl (StorageIo (io_text e)))"
    using assms True
    by (auto simp: local_delete_def validate_id_eq try_await_def attempt_def split: prod.splits sum.splits io_error.splits)
  from remove_file_cases [OF w] r True show thesis by (auto intro: that)
qed

interpretation local_disk: blob_store "local_storage dir" "local_blobs dir" for dir
proof
  fix i b e j s s' and u :: unit
  show "fs_store (local_storage dir) i b s = (Inr u, s') \<Longrightarrow> local_blobs dir s' = (local_blobs dir s)(i \<mapsto> b)"
    by (auto simp: local_storage_def local_blobs_def fun_eq_iff elim!: local_store_cases)
  show "fs_store (local_storage dir) i b s = (Inl e, s') \<Longrightarrow> j \<noteq> i \<Longrightarrow> local_blobs dir s' j = local_blobs dir s j"
    by (auto simp: local_storage_def local_blobs_def elim!: local_store_cases)
  show "fs_retrieve (local_storage dir) i s = (Inr b, s') \<Longrightarrow> local_blobs dir s i = Some b"
    "fs_retrieve (local_storage dir) i s = (Inl StorageNotFound, s') \<Longrightarrow> local_blobs dir s i = None"
    by (auto simp: local_storage_def dest: local_retrieve_cases)
  show "keeps (local_blobs dir) (fs_retrieve (local_storage dir) i)"
    by (rule keepsI) (auto simp: local_storage_def local_blobs_def dest!: local_retrieve_cases)
  show "fs_delete (local_storage dir) i s = (Inr u, s') \<Longrightarrow> local_blobs dir s' = (local_blobs dir s)(i := None)"
    by (auto simp: local_storage_def local_blobs_def fun_eq_iff elim!: local_delete_cases)
  show "fs_delete (local_storage dir) i s = (Inl e, s') \<Longrightarrow> j \<noteq> i \<Longrightarrow> local_blobs dir s' j = local_blobs dir s j"
    by (auto simp: local_storage_def local_blobs_def elim!: local_delete_cases)
qed

text \<open>C29: Whatever identifier a request names, the local storage changes at most one path, and that is a
  file directly in its directory: an identifier that would leave it is refused before the disk
  is touched.\<close>

theorem storage_stays_in_its_directory:
  assumes "fs_store (local_storage dir) i b d = (r, d') \<or> fs_delete (local_storage dir) i d = (r', d')"
    and "dk_files d' p \<noteq> dk_files d p"
  shows "p = path_join dir i \<and> CHR ''/'' \<notin> set i \<and> i \<noteq> [] \<and> i \<noteq> ''..'' \<and> \<not> names_directory p"
proof -
  have "\<not> valid_id ''..''" by (simp add: valid_id_def)
  moreover have "p = path_join dir i \<and> valid_id i \<and> \<not> names_directory (path_join dir i)"
    using assms by (auto simp: local_storage_def elim!: local_store_cases local_delete_cases split: if_splits)
  ultimately show ?thesis using valid_id_no_slash [of i] by (auto simp: valid_id_def)
qed

section \<open>The rclone remote\<close>

record rclone_config =
  rc_remote :: string
  rc_path :: string
  rc_extra_args :: "string list"

record rclone_output =
  ro_success :: bool
  ro_stdout :: string
  ro_stderr :: string

text \<open>
  Running the process with arguments and an input: an error when it cannot be started or its
  pipes break, or its exit status and output. \<open>to_lowercase\<close> matters for one ASCII phrase
  only, and no character outside ASCII has a lower case made of that phrase's letters.
\<close>

type_synonym 'r rclone = "string list \<Rightarrow> string option \<Rightarrow> ('r, string, rclone_output) act"

definition rclone_missing :: "string \<Rightarrow> bool" where
  "rclone_missing stderr = contains (ascii_lower stderr) ''not found''"

definition rclone_target :: "rclone_config \<Rightarrow> string \<Rightarrow> string" where
  "rclone_target cfg i =
     (if rc_path cfg = [] then rc_remote cfg @ '':'' @ i
      else rc_remote cfg @ '':'' @ trim_end_of {CHR ''/''} (rc_path cfg) @ ''/'' @ i)"

definition rclone_store :: "'r rclone \<Rightarrow> rclone_config \<Rightarrow> string \<Rightarrow> string \<Rightarrow> ('r, storage_error, unit) act" where
  "rclone_store run cfg i bytes =
     try_await (validate_id i) (\<lambda>_.
     try_await (map_err StorageIo
       (run (rc_extra_args cfg @ [''rcat'', ''--'', rclone_target cfg i]) (Some bytes))) (\<lambda>out.
     if \<not> ro_success out then fail (StorageIo (ro_stderr out)) else ret ()))"

definition rclone_retrieve :: "'r rclone \<Rightarrow> rclone_config \<Rightarrow> string \<Rightarrow> ('r, storage_error, string) act" where
  "rclone_retrieve run cfg i =
     try_await (validate_id i) (\<lambda>_.
     try_await (map_err StorageIo
       (run (rc_extra_args cfg @ [''cat'', ''--'', rclone_target cfg i]) None)) (\<lambda>out.
     if ro_success out then ret (ro_stdout out)
     else if rclone_missing (ro_stderr out) then fail StorageNotFound
     else fail (StorageIo (ro_stderr out))))"

definition rclone_delete :: "'r rclone \<Rightarrow> rclone_config \<Rightarrow> string \<Rightarrow> ('r, storage_error, unit) act" where
  "rclone_delete run cfg i =
     try_await (validate_id i) (\<lambda>_.
     try_await (map_err StorageIo
       (run (rc_extra_args cfg @ [''deletefile'', ''--'', rclone_target cfg i]) None)) (\<lambda>out.
     if ro_success out then ret ()
     else if rclone_missing (ro_stderr out) then ret ()
     else fail (StorageIo (ro_stderr out))))"

definition rclone_storage :: "'r rclone \<Rightarrow> rclone_config \<Rightarrow> 'r file_storage" where
  "rclone_storage run cfg =
     \<lparr>fs_store = rclone_store run cfg, fs_retrieve = rclone_retrieve run cfg, fs_delete = rclone_delete run cfg\<rparr>"

text \<open>What the remote holds under the targets, and the documented effect of the three commands.\<close>

definition lawful_rclone :: "'r rclone \<Rightarrow> rclone_config \<Rightarrow> ('r \<Rightarrow> string \<rightharpoonup> string) \<Rightarrow> bool" where
  "lawful_rclone run cfg objects \<longleftrightarrow>
     (\<forall>t b s r s'. run (rc_extra_args cfg @ [''rcat'', ''--'', t]) (Some b) s = (r, s') \<longrightarrow>
        (\<forall>u. u \<noteq> t \<longrightarrow> objects s' u = objects s u) \<and>
        (\<forall>out. r = Inr out \<longrightarrow> ro_success out \<longrightarrow> objects s' t = Some b)) \<and>
     (\<forall>t s r s'. run (rc_extra_args cfg @ [''cat'', ''--'', t]) None s = (r, s') \<longrightarrow>
        objects s' = objects s \<and>
        (\<forall>out. r = Inr out \<longrightarrow>
           (ro_success out \<longrightarrow> objects s t = Some (ro_stdout out)) \<and>
           (\<not> ro_success out \<longrightarrow> rclone_missing (ro_stderr out) \<longrightarrow> objects s t = None))) \<and>
     (\<forall>t s r s'. run (rc_extra_args cfg @ [''deletefile'', ''--'', t]) None s = (r, s') \<longrightarrow>
        (\<forall>u. u \<noteq> t \<longrightarrow> objects s' u = objects s u) \<and>
        (\<forall>out. r = Inr out \<longrightarrow> ro_success out \<or> rclone_missing (ro_stderr out) \<longrightarrow> objects s' t = None))"

definition remote_blobs :: "rclone_config \<Rightarrow> ('r \<Rightarrow> string \<rightharpoonup> string) \<Rightarrow> 'r \<Rightarrow> string \<rightharpoonup> string" where
  "remote_blobs cfg objects s = (\<lambda>i. if valid_id i then objects s (rclone_target cfg i) else None)"

lemma rclone_laws:
  assumes "lawful_rclone run cfg objects"
  shows "run (rc_extra_args cfg @ [''rcat'', ''--'', t]) (Some b) s = (r, s') \<Longrightarrow>
      (\<forall>u. u \<noteq> t \<longrightarrow> objects s' u = objects s u) \<and>
      (\<forall>out. r = Inr out \<longrightarrow> ro_success out \<longrightarrow> objects s' t = Some b)"
    and "run (rc_extra_args cfg @ [''cat'', ''--'', t]) None s = (r, s') \<Longrightarrow>
      objects s' = objects s \<and>
      (\<forall>out. r = Inr out \<longrightarrow>
         (ro_success out \<longrightarrow> objects s t = Some (ro_stdout out)) \<and>
         (\<not> ro_success out \<longrightarrow> rclone_missing (ro_stderr out) \<longrightarrow> objects s t = None))"
    and "run (rc_extra_args cfg @ [''deletefile'', ''--'', t]) None s = (r, s') \<Longrightarrow>
      (\<forall>u. u \<noteq> t \<longrightarrow> objects s' u = objects s u) \<and>
      (\<forall>out. r = Inr out \<longrightarrow> ro_success out \<or> rclone_missing (ro_stderr out) \<longrightarrow> objects s' t = None)"
  using assms unfolding lawful_rclone_def by presburger+

lemma rclone_target_inj: "rclone_target cfg i = rclone_target cfg j \<longleftrightarrow> i = j"
  by (simp add: rclone_target_def)

lemma validated_run:
  assumes "try_await (validate_id i) (\<lambda>_. try_await (map_err StorageIo m) k) s = (r, s')"
  obtains (refused) "r = Inl StorageInvalidId" "s' = s" "\<not> valid_id i"
  | (broken) e where "valid_id i" "m s = (Inl e, s')" "r = Inl (StorageIo e)"
  | (ran) out s1 where "valid_id i" "m s = (Inr out, s1)" "k out s1 = (r, s')"
proof (cases "valid_id i")
  case False
  with assms refused show thesis by (auto simp: validate_id_eq)
next
  case True
  with assms have "try_await (map_err StorageIo m) k s = (r, s')" by (simp add: validate_id_eq)
  then show thesis
    by (cases rule: try_await_cases) (use True broken ran in \<open>auto simp: map_err_Inl map_err_Inr\<close>)
qed

lemma rclone_store_effect:
  assumes "lawful_rclone run cfg objects" "rclone_store run cfg i b s = (r, s')"
  shows "(j \<noteq> i \<longrightarrow> remote_blobs cfg objects s' j = remote_blobs cfg objects s j) \<and>
    (\<forall>u. r = Inr u \<longrightarrow> remote_blobs cfg objects s' i = Some b)"
  using assms(2) unfolding rclone_store_def
proof (cases rule: validated_run)
  case (broken e)
  with assms(1) show ?thesis by (auto simp: lawful_rclone_def remote_blobs_def rclone_target_inj)
next
  case (ran out s1)
  then have "s' = s1" by (auto split: if_splits)
  moreover from ran have "\<forall>u. r = Inr u \<longrightarrow> ro_success out" by (auto split: if_splits)
  moreover note ran(1,2) assms(1)
  ultimately show ?thesis by (auto simp: lawful_rclone_def remote_blobs_def rclone_target_inj)
qed simp

lemma rclone_retrieve_effect:
  assumes "lawful_rclone run cfg objects" "rclone_retrieve run cfg i s = (r, s')"
  shows "remote_blobs cfg objects s' = remote_blobs cfg objects s \<and>
    (\<forall>b. r = Inr b \<longrightarrow> remote_blobs cfg objects s i = Some b) \<and>
    (r = Inl StorageNotFound \<longrightarrow> remote_blobs cfg objects s i = None)"
  using assms(2) unfolding rclone_retrieve_def
proof (cases rule: validated_run)
  case (broken e)
  with rclone_laws(2) [OF assms(1) broken(2)] show ?thesis by (simp add: remote_blobs_def cong: if_cong)
next
  case (ran out s1)
  then have "s' = s1" by (auto split: if_splits)
  with rclone_laws(2) [OF assms(1) ran(2)] have law: "objects s' = objects s" "ro_success out \<longrightarrow> objects s (rclone_target cfg i) = Some (ro_stdout out)"
    "\<not> ro_success out \<longrightarrow> rclone_missing (ro_stderr out) \<longrightarrow> objects s (rclone_target cfg i) = None"
    by simp_all
  with ran(1,3) show ?thesis by (auto simp: remote_blobs_def split: if_splits)
qed simp

lemma rclone_delete_effect:
  assumes "lawful_rclone run cfg objects" "rclone_delete run cfg i s = (r, s')"
  shows "(j \<noteq> i \<longrightarrow> remote_blobs cfg objects s' j = remote_blobs cfg objects s j) \<and>
    (\<forall>u. r = Inr u \<longrightarrow> remote_blobs cfg objects s' i = None)"
  using assms(2) unfolding rclone_delete_def
proof (cases rule: validated_run)
  case (broken e)
  with rclone_laws(3) [OF assms(1) broken(2)] show ?thesis by (simp add: remote_blobs_def rclone_target_inj)
next
  case (ran out s1)
  then have "s' = s1" by (auto split: if_splits)
  with rclone_laws(3) [OF assms(1) ran(2)] have law: "\<forall>u. u \<noteq> rclone_target cfg i \<longrightarrow> objects s' u = objects s u"
    "ro_success out \<or> rclone_missing (ro_stderr out) \<longrightarrow> objects s' (rclone_target cfg i) = None"
    by simp_all
  moreover from ran(3) have "\<forall>u. r = Inr u \<longrightarrow> ro_success out \<or> rclone_missing (ro_stderr out)" by (auto split: if_splits)
  ultimately show ?thesis by (auto simp: remote_blobs_def rclone_target_inj)
qed simp


section \<open>The configured backend\<close>

datatype chosen_storage = LocalAt string | RcloneAt rclone_config

definition build_storage :: "string option \<Rightarrow> storage_backend \<Rightarrow> chosen_storage" where
  "build_storage root_folder backend =
     (case backend of
        Local dir \<Rightarrow> LocalAt dir
      | Rclone remote path \<Rightarrow>
          RcloneAt \<lparr>rc_remote = remote, rc_path = path,
            rc_extra_args =
              (case root_folder of
                 Some i \<Rightarrow> if i = [] then [] else [''--drive-root-folder-id'', i]
               | None \<Rightarrow> [])\<rparr>)"

end
