(* ===== verification/Files.thy ===== *)
theory Files
  imports Storage Handlers Persistence
begin

text \<open>
  Challenge files, \<open>src/src/libs/services/files.rs\<close> and \<open>src/src/libs/api/files.rs\<close>: a file is
  a row of the index in the database and a blob in the storage. The service is a client of two
  contracts, the storage's and the index's; it is interpreted on the database and the local
  disk side by side. The hash function and the identifiers drawn are arguments.
\<close>

section \<open>The service\<close>

definition storage_failed :: "storage_error \<Rightarrow> service_error" where
  "storage_failed e =
     (case e of
        StorageNotFound \<Rightarrow> InvalidRequest ''ctf-file-not-found''
      | StorageInvalidId \<Rightarrow> InvalidRequest ''ctf-file-invalid-id''
      | StorageIo msg \<Rightarrow> Repo (Internal msg))"

definition storage_call :: "('s, storage_error, 'a) act \<Rightarrow> ('s, service_error, 'a) act" where
  "storage_call m = map_err storage_failed m"

record 's file_service =
  fv_storage :: "'s file_storage"
  fv_repo :: "'s file_repo"
  fv_max_bytes :: u64

definition hex_digit :: "nat \<Rightarrow> char" where
  "hex_digit n = char_of (if n < 10 then 48 + n else 87 + n)"

definition hex_byte :: "char \<Rightarrow> string" where
  "hex_byte c = [hex_digit (byte c div 16), hex_digit (byte c mod 16)]"

definition hex_sum :: "(string \<Rightarrow> string) \<Rightarrow> string \<Rightarrow> string" where
  "hex_sum sha256 bytes = concat (map hex_byte (sha256 bytes))"

definition stored_of ::
    "(string \<Rightarrow> string) \<Rightarrow> string \<Rightarrow> i64 \<Rightarrow> string \<Rightarrow> string \<Rightarrow> string \<Rightarrow> stored_file" where
  "stored_of sha256 i now name content_type bytes =
     \<lparr>sf_id = i, sf_name = name, sf_checksum_sha256 = hex_sum sha256 bytes,
      sf_size = of_nat (length bytes), sf_content_type = content_type, sf_uploaded_at = now\<rparr>"

definition upload ::
    "(string \<Rightarrow> string) \<Rightarrow> string \<Rightarrow> 's file_service \<Rightarrow> string \<Rightarrow> string \<Rightarrow> string \<Rightarrow> i64 \<Rightarrow>
     ('s, service_error, challenge_file) act" where
  "upload sha256 new_id S name content_type bytes now =
     (if fv_max_bytes S < of_nat (length bytes) then fail (InvalidRequest ''ctf-file-too-large'')
      else
        try_await (storage_call (fs_store (fv_storage S) new_id bytes)) (\<lambda>_.
        try_await (repo_call (fr_save (fv_repo S) (stored_of sha256 new_id now name content_type bytes))) (\<lambda>_.
        ret \<lparr>file_name = name, file_url = ''/api/v1/files/'' @ new_id,
             file_checksum_sha256 = Some (hex_sum sha256 bytes)\<rparr>)))"

definition download :: "'s file_service \<Rightarrow> string \<Rightarrow> ('s, service_error, stored_file \<times> string) act" where
  "download S i =
     try_await (repo_call (fr_find_by_id (fv_repo S) i)) (\<lambda>found.
     case found of
       None \<Rightarrow> fail (InvalidRequest ''ctf-file-not-found'')
     | Some m \<Rightarrow>
         try_await (storage_call (fs_retrieve (fv_storage S) i)) (\<lambda>bytes. ret (m, bytes)))"

definition delete_file :: "'s file_service \<Rightarrow> string \<Rightarrow> ('s, service_error, unit) act" where
  "delete_file S i =
     try_await (storage_call (fs_delete (fv_storage S) i)) (\<lambda>_. repo_call (fr_delete (fv_repo S) i))"

section \<open>The contracts\<close>

text \<open>The index: a save that succeeds adds an entry, one that fails leaves the index.\<close>

locale file_index =
  fixes FR :: "'s file_repo"
    and metas :: "'s \<Rightarrow> string \<rightharpoonup> stored_file"
  assumes find_file_ok: "fr_find_by_id FR i s = (Inr x, s') \<Longrightarrow> x = metas s i"
    and find_file_keeps: "keeps metas (fr_find_by_id FR i)"
    and save_file_ok: "fr_save FR f s = (Inr u, s') \<Longrightarrow>
      metas s (sf_id f) = None \<and> metas s' = (metas s)(sf_id f \<mapsto> f)"
    and save_file_err: "fr_save FR f s = (Inl e, s') \<Longrightarrow> metas s' = metas s"
    and delete_meta_ok: "fr_delete FR i s = (Inr u, s') \<Longrightarrow> metas s' = (metas s)(i := None)"
    and delete_meta_err: "fr_delete FR i s = (Inl e, s') \<Longrightarrow> metas s' = metas s"

text \<open>The service's two stores do not touch each other.\<close>

locale file_client =
  blob_store FS blobs + file_index FR metas
  for FS :: "'s file_storage" and blobs and FR :: "'s file_repo" and metas +
  assumes storage_keeps_metas: "keeps metas (fs_store FS i b)" "keeps metas (fs_retrieve FS i)" "keeps metas (fs_delete FS i)"
    and index_keeps_blobs: "keeps blobs (fr_save FR f)" "keeps blobs (fr_find_by_id FR i)" "keeps blobs (fr_delete FR i)"

text \<open>Every entry of the index has its blob, of the size and with the checksum the entry says.\<close>

definition intact :: "(string \<Rightarrow> string) \<Rightarrow> (string \<rightharpoonup> stored_file) \<Rightarrow> (string \<rightharpoonup> string) \<Rightarrow> bool" where
  "intact sha256 metas blobs \<longleftrightarrow>
     (\<forall>i f. metas i = Some f \<longrightarrow>
        (\<exists>b. blobs i = Some b \<and> sf_size f = of_nat (length b) \<and> sf_checksum_sha256 f = hex_sum sha256 b))"

lemma storage_call_Inr: "storage_call m s = (Inr x, s') \<longleftrightarrow> m s = (Inr x, s')"
  by (simp add: storage_call_def map_err_Inr)

lemma storage_call_Inl: "storage_call m s = (Inl e, s') \<longleftrightarrow> (\<exists>e'. m s = (Inl e', s') \<and> e = storage_failed e')"
  by (auto simp: storage_call_def map_err_Inl)

context file_client
begin

lemma upload_cases:
  assumes "fv_storage S = FS" "fv_repo S = FR" "upload sha256 i S name ct bytes now s = (r, s')"
  obtains (stored) "r = Inr \<lparr>file_name = name, file_url = ''/api/v1/files/'' @ i,
      file_checksum_sha256 = Some (hex_sum sha256 bytes)\<rparr>" "metas s i = None"
      "metas s' = (metas s)(i \<mapsto> stored_of sha256 i now name ct bytes)" "blobs s' = (blobs s)(i \<mapsto> bytes)"
      "of_nat (length bytes) \<le> fv_max_bytes S"
  | (failed) e where "r = Inl e" "metas s' = metas s" "\<And>j. j \<noteq> i \<Longrightarrow> blobs s' j = blobs s j"
proof (cases "fv_max_bytes S < of_nat (length bytes)")
  case True
  with assms(3) show thesis by (intro failed) (auto simp: upload_def)
next
  case False
  from assms(3) [unfolded upload_def] False assms(1,2)
  have "try_await (storage_call (fs_store FS i bytes)) (\<lambda>_.
        try_await (repo_call (fr_save FR (stored_of sha256 i now name ct bytes))) (\<lambda>_.
        ret \<lparr>file_name = name, file_url = ''/api/v1/files/'' @ i,
             file_checksum_sha256 = Some (hex_sum sha256 bytes)\<rparr>)) s = (r, s')" by simp
  then show thesis
  proof (cases rule: try_await_cases)
    case (err e)
    then obtain e' where st: "fs_store FS i bytes s = (Inl e', s')" by (auto simp: storage_call_Inl)
    with err show thesis by (intro failed) (auto dest: store_err keepsD [OF storage_keeps_metas(1)])
  next
    case (ok u s1)
    then have st: "fs_store FS i bytes s = (Inr u, s1)" by (simp add: storage_call_Inr)
    have b1: "blobs s1 = (blobs s)(i \<mapsto> bytes)" "metas s1 = metas s"
      using store_ok [OF st] keepsD [OF storage_keeps_metas(1) st] by simp_all
    from ok(2) show thesis
    proof (cases rule: try_await_cases)
      case (err e)
      then obtain e' where sv: "fr_save FR (stored_of sha256 i now name ct bytes) s1 = (Inl e', s')"
        by (auto simp: repo_call_Inl)
      show thesis
        by (rule failed [OF err(2)])
           (use save_file_err [OF sv] keepsD [OF index_keeps_blobs(1) sv] b1 in simp_all)
    next
      case (ok v s2)
      then have sv: "fr_save FR (stored_of sha256 i now name ct bytes) s1 = (Inr v, s')"
        by (simp add: repo_call_Inr)
      show thesis
        by (rule stored)
           (use ok(2) save_file_ok [OF sv] keepsD [OF index_keeps_blobs(1) sv] b1 False in \<open>simp_all add: stored_of_def not_less\<close>)
    qed
  qed
qed

lemma download_ok:
  assumes "fv_storage S = FS" "fv_repo S = FR" "download S i s = (Inr (m, b), s')"
  shows "metas s i = Some m \<and> blobs s i = Some b"
proof -
  from assms(3) obtain found s1 where f: "fr_find_by_id FR i s = (Inr found, s1)"
    and k: "(case found of
       None \<Rightarrow> fail (InvalidRequest ''ctf-file-not-found'')
     | Some m \<Rightarrow>
         try_await (storage_call (fs_retrieve FS i)) (\<lambda>bytes. ret (m, bytes))) s1 = (Inr (m, b), s')"
    unfolding download_def assms(1,2) by (elim try_await_ok_cases) (simp add: repo_call_Inr)
  have "metas s i = found" "blobs s1 = blobs s"
    using find_file_ok [OF f] keepsD [OF index_keeps_blobs(2) f] by simp_all
  moreover from k have "found = Some m \<and> fs_retrieve FS i s1 = (Inr b, s')"
    by (auto simp: storage_call_Inr split: option.splits elim!: try_await_ok_cases)
  ultimately show ?thesis using retrieve_ok [of i s1 b s'] by simp
qed

lemma download_keeps:
  assumes "fv_storage S = FS" "fv_repo S = FR"
  shows "keeps blobs (download S i)" "keeps metas (download S i)"
  unfolding download_def assms repo_call_def storage_call_def
  by (intro keeps_try_await keeps_map_err keeps_case_option keeps_fail keeps_ret
      find_file_keeps retrieve_keeps index_keeps_blobs storage_keeps_metas)+

lemma upload_intact:
  assumes "fv_storage S = FS" "fv_repo S = FR" "metas s i = None" "intact sha256 (metas s) (blobs s)"
    and "upload sha256 i S name ct bytes now s = (r, s')"
  shows "intact sha256 (metas s') (blobs s')"
  using assms(1,2,5)
proof (cases rule: upload_cases)
  case stored
  with assms(4) show ?thesis by (auto simp: intact_def stored_of_def)
next
  case (failed e)
  have "\<exists>b. blobs s' j = Some b \<and> sf_size f = of_nat (length b) \<and> sf_checksum_sha256 f = hex_sum sha256 b"
    if "metas s' j = Some f" for j f
  proof -
    from that failed(2) assms(3) have "metas s j = Some f" "j \<noteq> i" by auto
    with assms(4) failed(3) [of j] show ?thesis by (auto simp: intact_def)
  qed
  then show ?thesis by (auto simp: intact_def)
qed

lemma delete_intact:
  assumes "fv_storage S = FS" "fv_repo S = FR" "intact sha256 (metas s) (blobs s)"
    and "delete_file S i s = (Inr u, s')"
  shows "intact sha256 (metas s') (blobs s') \<and> metas s' i = None \<and> blobs s' i = None"
proof -
  from assms(4) obtain u1 s1 where d: "fs_delete FS i s = (Inr u1, s1)" and m: "fr_delete FR i s1 = (Inr u, s')"
    unfolding delete_file_def assms(1,2) by (elim try_await_ok_cases) (simp add: repo_call_Inr storage_call_Inr)
  have "blobs s' = (blobs s)(i := None)" "metas s' = (metas s)(i := None)"
    using delete_ok [OF d] delete_meta_ok [OF m] keepsD [OF storage_keeps_metas(3) d]
      keepsD [OF index_keeps_blobs(3) m] by simp_all
  with assms(3) show ?thesis by (auto simp: intact_def)
qed

end

section \<open>The database beside the storage\<close>

definition on_fst :: "('a, 'e, 'x) act \<Rightarrow> ('a \<times> 'b, 'e, 'x) act" where
  "on_fst m = (\<lambda>(a, b). case m a of (r, a') \<Rightarrow> (r, (a', b)))"

definition on_snd :: "('b, 'e, 'x) act \<Rightarrow> ('a \<times> 'b, 'e, 'x) act" where
  "on_snd m = (\<lambda>(a, b). case m b of (r, b') \<Rightarrow> (r, (a, b')))"

definition storage_beside :: "'b file_storage \<Rightarrow> ('a \<times> 'b) file_storage" where
  "storage_beside FS =
     \<lparr>fs_store = \<lambda>i b. on_snd (fs_store FS i b), fs_retrieve = \<lambda>i. on_snd (fs_retrieve FS i),
      fs_delete = \<lambda>i. on_snd (fs_delete FS i)\<rparr>"

definition index_beside :: "'a file_repo \<Rightarrow> ('a \<times> 'b) file_repo" where
  "index_beside FR =
     \<lparr>fr_save = \<lambda>f. on_fst (fr_save FR f), fr_find_by_id = \<lambda>i. on_fst (fr_find_by_id FR i),
      fr_delete = \<lambda>i. on_fst (fr_delete FR i)\<rparr>"

lemma on_fst_eq: "on_fst m s = (r, s') \<longleftrightarrow> m (fst s) = (r, fst s') \<and> snd s' = snd s"
  by (cases s; cases s') (auto simp: on_fst_def split: prod.splits)

lemma on_snd_eq: "on_snd m s = (r, s') \<longleftrightarrow> m (snd s) = (r, snd s') \<and> fst s' = fst s"
  by (cases s; cases s') (auto simp: on_snd_def split: prod.splits)

lemma keeps_beside:
  "keeps v m \<Longrightarrow> keeps (\<lambda>s. v (fst s)) (on_fst m)" "keeps v n \<Longrightarrow> keeps (\<lambda>s. v (snd s)) (on_snd n)"
  "keeps (\<lambda>s. w (snd s)) (on_fst m)" "keeps (\<lambda>s. w (fst s)) (on_snd n)"
  by (auto simp: on_fst_eq on_snd_eq intro!: keepsI dest: keepsD)

text \<open>Any storage and any index that keep their contracts make a client, side by side.\<close>

lemma client_beside:
  assumes "blob_store FS blobs" "file_index FR metas"
  shows "file_client (storage_beside FS) (\<lambda>s. blobs (snd s)) (index_beside FR) (\<lambda>s. metas (fst s))"
proof (intro_locales)
  note storage = blob_store.store_ok [OF assms(1)] blob_store.store_err [OF assms(1)]
    blob_store.retrieve_ok [OF assms(1)] blob_store.retrieve_missing [OF assms(1)]
    blob_store.delete_ok [OF assms(1)] blob_store.delete_err [OF assms(1)]
  note index = file_index.find_file_ok [OF assms(2)] file_index.save_file_ok [OF assms(2)]
    file_index.save_file_err [OF assms(2)] file_index.delete_meta_ok [OF assms(2)]
    file_index.delete_meta_err [OF assms(2)]
  show "blob_store (storage_beside FS) (\<lambda>s. blobs (snd s))"
    by unfold_locales
       (auto simp: storage_beside_def on_snd_eq intro: storage
         intro!: keeps_beside(2) [OF blob_store.retrieve_keeps [OF assms(1)]])
  show "file_index (index_beside FR) (\<lambda>s. metas (fst s))"
    by unfold_locales
       (auto simp: index_beside_def on_fst_eq intro: index
         intro!: keeps_beside(1) [OF file_index.find_file_keeps [OF assms(2)]] dest: index)
  show "file_client_axioms (storage_beside FS) (\<lambda>s. blobs (snd s)) (index_beside FR) (\<lambda>s. metas (fst s))"
    by unfold_locales (auto simp: storage_beside_def index_beside_def keeps_beside)
qed

section \<open>The index in the database\<close>

definition files_in :: "'j db \<Rightarrow> string \<rightharpoonup> stored_file" where
  "files_in db i = map_option file_of_row (find (\<lambda>r. frow_id r = i) (db_files db))"

lemma frow_id_of [simp]: "frow_id (file_row_of f) = sf_id f"
  by (simp add: file_row_of_def)

lemma find_filter_other: "(\<And>x. P x \<Longrightarrow> Q x) \<Longrightarrow> find P (filter Q xs) = find P xs"
  by (induction xs) auto

lemma find_append_if: "find P (xs @ ys) = (case find P xs of None \<Rightarrow> find P ys | Some x \<Rightarrow> Some x)"
  by (induction xs) auto

lemma files_in_tables: "files_in db = files_in (tables_of db)"
  by (simp add: files_in_def fun_eq_iff tables_of_def)

lemma keeps_files_in: "keeps tables_of m \<Longrightarrow> keeps files_in m"
  by (erule keeps_through) (rule files_in_tables)

interpretation pg_files: file_index pg_file_repo files_in
proof
  fix i x f e and s s' :: "'j db" and u :: unit
  show "fr_find_by_id pg_file_repo i s = (Inr x, s') \<Longrightarrow> x = files_in s i"
    by (auto simp: pg_file_repo_def pg_file_by_id_def files_in_def elim!: try_await_ok_cases dest!: fetch_optional_ok)
  show "keeps files_in (fr_find_by_id pg_file_repo i)"
    unfolding pg_file_repo_def pg_file_by_id_def
    by (simp, intro keeps_files_in keeps_try_await fetch_optional_keeps keeps_ret)
  show "fr_save pg_file_repo f s = (Inr u, s') \<Longrightarrow> files_in s (sf_id f) = None \<and> files_in s' = (files_in s)(sf_id f \<mapsto> f)"
    by (auto simp: pg_file_repo_def pg_file_save_def Let_def checked_Inr files_in_def fun_eq_iff find_append_if
        list_ex_iff find_None_iff elim!: change_cases split: option.splits) (auto simp: find_Some_iff)
  show "fr_save pg_file_repo f s = (Inl e, s') \<Longrightarrow> files_in s' = files_in s"
    by (auto simp: pg_file_repo_def pg_file_save_def Let_def files_in_def fun_eq_iff elim!: change_cases)
  show "fr_delete pg_file_repo i s = (Inr u, s') \<Longrightarrow> files_in s' = (files_in s)(i := None)"
    by (auto simp: pg_file_repo_def pg_file_delete_def files_in_def fun_eq_iff find_None_iff find_filter_other
        elim!: change_cases)
  show "fr_delete pg_file_repo i s = (Inl e, s') \<Longrightarrow> files_in s' = files_in s"
    by (auto simp: pg_file_repo_def pg_file_delete_def files_in_def fun_eq_iff elim!: change_cases)
qed

text \<open>The index as the process reaches it.\<close>

definition world_file_repo :: "'j world file_repo" where
  "world_file_repo =
     \<lparr>fr_save = \<lambda>f. on_db (pg_file_save f), fr_find_by_id = \<lambda>i. on_db (pg_file_by_id i),
      fr_delete = \<lambda>i. on_db (pg_file_delete i)\<rparr>"

abbreviation world_files :: "'j world \<Rightarrow> string \<rightharpoonup> stored_file" where
  "world_files w \<equiv> files_in (w_db w)"

lemma keeps_world: "keeps v m \<Longrightarrow> keeps (\<lambda>w. v (w_db w)) (on_db m)"
  by (auto elim!: on_db_cases intro!: keepsI dest: keepsD)

interpretation world_index: file_index world_file_repo world_files
proof
  note pg = pg_file_repo_def [symmetric]
  fix i x f e and s s' :: "'j world" and u :: unit
  show "fr_find_by_id world_file_repo i s = (Inr x, s') \<Longrightarrow> x = world_files s i"
    by (auto simp: world_file_repo_def elim!: on_db_cases intro: pg_files.find_file_ok [unfolded pg_file_repo_def, simplified])
  show "keeps world_files (fr_find_by_id world_file_repo i)"
    using keeps_world [OF pg_files.find_file_keeps [of i]] by (simp add: world_file_repo_def pg_file_repo_def)
  show "fr_save world_file_repo f s = (Inr u, s') \<Longrightarrow> world_files s (sf_id f) = None \<and> world_files s' = (world_files s)(sf_id f \<mapsto> f)"
    by (auto simp: world_file_repo_def elim!: on_db_cases dest: pg_files.save_file_ok [unfolded pg_file_repo_def, simplified])
  show "fr_save world_file_repo f s = (Inl e, s') \<Longrightarrow> world_files s' = world_files s"
    by (auto simp: world_file_repo_def elim!: on_db_cases dest: pg_files.save_file_err [unfolded pg_file_repo_def, simplified])
  show "fr_delete world_file_repo i s = (Inr u, s') \<Longrightarrow> world_files s' = (world_files s)(i := None)"
    by (auto simp: world_file_repo_def elim!: on_db_cases dest: pg_files.delete_meta_ok [unfolded pg_file_repo_def, simplified])
  show "fr_delete world_file_repo i s = (Inl e, s') \<Longrightarrow> world_files s' = world_files s"
    by (auto simp: world_file_repo_def elim!: on_db_cases dest: pg_files.delete_meta_err [unfolded pg_file_repo_def, simplified])
qed

definition wired_files :: "'b file_storage \<Rightarrow> u64 \<Rightarrow> ('j world \<times> 'b) file_service" where
  "wired_files FS max_bytes =
     \<lparr>fv_storage = storage_beside FS, fv_repo = index_beside world_file_repo, fv_max_bytes = max_bytes\<rparr>"

lemma wired_sel [simp]:
  "fv_storage (wired_files FS m) = storage_beside FS" "fv_repo (wired_files FS m) = index_beside world_file_repo"
  "fv_max_bytes (wired_files FS m) = m"
  by (simp_all add: wired_files_def)

interpretation on_disk: file_client "storage_beside (local_storage dir)" "\<lambda>s. local_blobs dir (snd s)"
    "index_beside world_file_repo" "\<lambda>s. world_files (fst s)" for dir
  by (rule client_beside [OF local_disk.blob_store_axioms world_index.file_index_axioms])

section \<open>The handlers\<close>

text \<open>
  A part of the multipart body, \<open>None\<close> where its bytes do not arrive; the body itself as the
  results of \<open>next_field\<close>, \<open>None\<close> for one that errs.
\<close>

record form_field =
  ff_file_name :: "string option"
  ff_content_type :: "string option"
  ff_bytes :: "string option"

fun first_file :: "form_field option list \<Rightarrow> (string \<times> string \<times> string) option" where
  "first_file [] = None"
| "first_file (None # _) = None"
| "first_file (Some f # rest) =
     (case ff_bytes f of
        Some b \<Rightarrow>
          Some ((case ff_file_name f of Some n \<Rightarrow> n | None \<Rightarrow> ''file''),
                (case ff_content_type f of Some t \<Rightarrow> t | None \<Rightarrow> ''application/octet-stream''), b)
      | None \<Rightarrow> first_file rest)"

definition api_upload_file ::
    "(string \<Rightarrow> string) \<Rightarrow> ('j world \<times> 'b) file_service \<Rightarrow> string \<Rightarrow> form_field option list \<Rightarrow>
     ('j world \<times> 'b, localized_error, challenge_file) act" where
  "api_upload_file sha256 S new_id form =
     (case first_file form of
        None \<Rightarrow> fail (LocalizedError 400 ''ctf-file-missing'')
      | Some (name, content_type, bytes) \<Rightarrow>
          try_await (on_fst now_is) (\<lambda>now.
          localized (upload sha256 new_id S name content_type bytes now)))"

record file_response =
  fp_content_type :: "string option"
  fp_disposition :: "string option"
  fp_body :: string

definition safe_name :: "string \<Rightarrow> string" where
  "safe_name name =
     map (\<lambda>c. if c \<in> {CHR 0x22, CHR 0x5C, CHR 0x0D, CHR 0x0A} then CHR ''_'' else c) name"

definition api_download_file ::
    "('j world \<times> 'b) file_service \<Rightarrow> string \<Rightarrow> ('j world \<times> 'b, localized_error, file_response) act" where
  "api_download_file S i =
     try_await (localized (download S i)) (\<lambda>(m, bytes).
     ret \<lparr>fp_content_type = header_str (sf_content_type m),
          fp_disposition =
            header_str (''attachment;filename='' @ [CHR 0x22] @ safe_name (sf_name m) @ [CHR 0x22]),
          fp_body = bytes\<rparr>)"

section \<open>Properties\<close>

text \<open>What happens between an upload and a download: other uploads, each with its own identifier.\<close>

definition later_uploads ::
    "(string \<Rightarrow> string) \<Rightarrow> ('j world \<times> 'b) file_service \<Rightarrow> (string \<times> form_field option list) list \<Rightarrow>
     ('j world \<times> 'b, localized_error, (localized_error + challenge_file) list) act" where
  "later_uploads sha256 S = each (\<lambda>(i, form). attempt (api_upload_file sha256 S i form))"

lemma api_upload_cases:
  assumes "api_upload_file sha256 S i form s = (r, s')"
  obtains (refused) e where "r = Inl e" "s' = s"
  | (ran) name ct b r1 where "first_file form = Some (name, ct, b)"
      "upload sha256 i S name ct b (db_clock (w_db (fst s))) s = (r1, s')"
      "r = (case r1 of Inl e \<Rightarrow> Inl (map_localized e) | Inr x \<Rightarrow> Inr x)"
proof (cases "first_file form")
  case None
  with assms show thesis by (auto simp: api_upload_file_def intro: refused)
next
  case (Some t)
  obtain name ct b where t: "t = (name, ct, b)" by (cases t)
  from assms Some t have "localized (upload sha256 i S name ct b (db_clock (w_db (fst s)))) s = (r, s')"
    by (auto simp: api_upload_file_def try_await_def on_fst_def split: prod.splits)
  then obtain r1 where "upload sha256 i S name ct b (db_clock (w_db (fst s))) s = (r1, s')"
    "r = (case r1 of Inl e \<Rightarrow> Inl (map_localized e) | Inr x \<Rightarrow> Inr x)"
    by (auto simp: localized_def map_err_def split: prod.splits sum.splits)
  with Some t show thesis by (intro ran) simp_all
qed

text \<open>An upload touches no other identifier, however it ends.\<close>

lemma upload_elsewhere:
  assumes "api_upload_file sha256 (wired_files (local_storage dir) m) j form s = (r, s')" "j \<noteq> i"
  shows "world_files (fst s') i = world_files (fst s) i \<and> local_blobs dir (snd s') i = local_blobs dir (snd s) i"
  using assms(1)
proof (cases rule: api_upload_cases)
  case (ran name ct b r1)
  show ?thesis
    by (rule on_disk.upload_cases [OF _ _ ran(2)]) (use assms(2) not_sym [OF assms(2)] in auto)
qed simp

lemma later_uploads_elsewhere:
  "later_uploads sha256 (wired_files (local_storage dir) m) later s = (r, s') \<Longrightarrow> i \<notin> fst ` set later \<Longrightarrow>
     world_files (fst s') i = world_files (fst s) i \<and> local_blobs dir (snd s') i = local_blobs dir (snd s) i"
proof (induction later arbitrary: s r)
  case (Cons x later)
  obtain j form where x: "x = (j, form)" by (cases x)
  let ?S = "wired_files (local_storage dir) m"
  from Cons.prems(1) obtain r1 s1 r2 where one: "api_upload_file sha256 ?S j form s = (r1, s1)"
    and rest: "later_uploads sha256 ?S later s1 = (r2, s')"
    by (auto simp: later_uploads_def x try_await_def attempt_def split: prod.splits sum.splits)
  from Cons.IH [OF rest] upload_elsewhere [OF one, of i] Cons.prems(2) x show ?case by auto
qed (simp add: later_uploads_def)

text \<open>C18: What an upload stored comes back: after any later uploads, failed ones included, a download
  of the file's identifier that succeeds answers exactly the bytes uploaded, with the name and
  type of the form, and they have the checksum the upload answered.\<close>

theorem uploaded_file_comes_back:
  fixes dir m
  defines "S \<equiv> wired_files (local_storage dir) m"
  assumes "api_upload_file sha256 S i form s = (Inr cf, s1)"
    and "later_uploads sha256 S later s1 = (r, s2)" "i \<notin> fst ` set later"
    and "download S i s2 = (Inr (meta, bytes), s3)"
  shows "first_file form = Some (sf_name meta, sf_content_type meta, bytes) \<and>
    file_name cf = sf_name meta \<and> file_url cf = ''/api/v1/files/'' @ i \<and>
    file_checksum_sha256 cf = Some (sf_checksum_sha256 meta) \<and>
    sf_checksum_sha256 meta = hex_sum sha256 bytes \<and> of_nat (length bytes) \<le> m"
proof -
  obtain name ct b where form: "first_file form = Some (name, ct, b)"
    and up: "upload sha256 i S name ct b (db_clock (w_db (fst s))) s = (Inr cf, s1)"
    using assms(2) by (rule api_upload_cases) (auto split: sum.splits)
  from up [unfolded S_def] have stored:
      "world_files (fst s1) i = Some (stored_of sha256 i (db_clock (w_db (fst s))) name ct b)"
      "local_blobs dir (snd s1) i = Some b" "of_nat (length b) \<le> m"
      "cf = \<lparr>file_name = name, file_url = ''/api/v1/files/'' @ i, file_checksum_sha256 = Some (hex_sum sha256 b)\<rparr>"
    by (auto elim!: on_disk.upload_cases [rotated 2])
  have "world_files (fst s2) i = Some meta" "local_blobs dir (snd s2) i = Some bytes"
    using on_disk.download_ok [OF _ _ assms(5) [unfolded S_def]] by simp_all
  with stored later_uploads_elsewhere [OF assms(3) [unfolded S_def] assms(4)] form show ?thesis
    by (simp add: stored_of_def)
qed

text \<open>C19: The index never promises what the storage does not hold: from a state where every entry has
  its blob, of its size and with its checksum, any series of uploads with fresh identifiers
  keeps it so, whatever statement or write of theirs fails.\<close>

theorem index_entries_have_their_blobs:
  assumes "intact sha256 (world_files (fst s)) (local_blobs dir (snd s))"
    and "later_uploads sha256 (wired_files (local_storage dir) m) ups s = (r, s')"
    and "distinct (map fst ups)" "\<forall>i \<in> fst ` set ups. world_files (fst s) i = None"
  shows "intact sha256 (world_files (fst s')) (local_blobs dir (snd s'))"
  using assms
proof (induction ups arbitrary: s r)
  case (Cons x ups)
  obtain j form where x: "x = (j, form)" by (cases x)
  let ?S = "wired_files (local_storage dir) m"
  from Cons.prems(2) obtain r1 s1 r2 where one: "api_upload_file sha256 ?S j form s = (r1, s1)"
    and rest: "later_uploads sha256 ?S ups s1 = (r2, s')"
    by (auto simp: later_uploads_def x try_await_def attempt_def split: prod.splits sum.splits)
  have "intact sha256 (world_files (fst s1)) (local_blobs dir (snd s1))"
    using one
  proof (cases rule: api_upload_cases)
    case (ran name ct b r1)
    show ?thesis
      by (rule on_disk.upload_intact [OF _ _ _ Cons.prems(1) ran(2)]) (use Cons.prems(4) x in simp_all)
  qed (use Cons.prems(1) in simp)
  moreover have "\<forall>i \<in> fst ` set ups. world_files (fst s1) i = None"
    using Cons.prems(3,4) x upload_elsewhere [OF one] by (metis distinct.simps(2) fst_conv image_set list.set_intros(2) list.simps(9) imageE image_eqI)
  ultimately show ?case using Cons.IH [OF _ rest] Cons.prems(3) by simp
qed (simp add: later_uploads_def)

lemma safe_name_set: "c \<in> set (safe_name n) \<Longrightarrow> c \<notin> {CHR 0x22, CHR 0x5C, CHR 0x0D, CHR 0x0A}"
  by (auto simp: safe_name_def)

lemma header_str_Some: "header_str v = Some w \<longleftrightarrow> w = v \<and> list_all (\<lambda>c. byte c = 9 \<or> (32 \<le> byte c \<and> byte c < 127)) v"
proof -
  have "(of_char c :: int) = int (byte c)" for c by (rule of_nat_of_char [symmetric])
  then show ?thesis by (auto simp: header_str_def list_all_iff Let_def)
qed

text \<open>Whatever name a file was uploaded with, the disposition a download sends is an attachment
  with one quoted file name: the name holds no quote, no backslash and no control character
  but the tab, so it neither closes the quotes nor starts another header.\<close>

theorem file_names_stay_quoted:
  assumes "api_download_file S i s = (Inr resp, s')" "fp_disposition resp = Some d"
  shows "\<exists>n. d = ''attachment;filename='' @ [CHR 0x22] @ n @ [CHR 0x22] \<and>
    CHR 0x22 \<notin> set n \<and> CHR 0x5C \<notin> set n \<and> (\<forall>c \<in> set n. byte c = 9 \<or> 32 \<le> byte c \<and> byte c < 127)"
proof -
  obtain x s1 where k: "(\<lambda>(m :: stored_file, bytes). ret \<lparr>fp_content_type = header_str (sf_content_type m),
      fp_disposition = header_str (''attachment;filename='' @ [CHR 0x22] @ safe_name (sf_name m) @ [CHR 0x22]),
      fp_body = bytes\<rparr>) x s1 = (Inr resp :: localized_error + file_response, s')"
    using assms(1) unfolding api_download_file_def by (rule try_await_ok_cases)
  obtain m b where "x = (m, b)" by (cases x)
  with k assms(2) have "header_str (''attachment;filename='' @ [CHR 0x22] @ safe_name (sf_name m) @ [CHR 0x22]) = Some d"
    by auto
  then have "d = ''attachment;filename='' @ [CHR 0x22] @ safe_name (sf_name m) @ [CHR 0x22]"
    "\<forall>c \<in> set (safe_name (sf_name m)). byte c = 9 \<or> (32 \<le> byte c \<and> byte c < 127)"
    unfolding header_str_Some by (auto simp: list_all_iff)
  then show ?thesis using safe_name_set by fastforce
qed

end
