(* ===== verification/Smtp.thy ===== *)
theory Smtp
  imports Text
begin

text \<open>
  The hand-written mail protocol: \<open>src/src/libs/services/email/mod.rs\<close> (messages and errors) and
  \<open>server.rs\<close> (the catcher: commands, data, parsing). A connection is a socket with the bytes
  still to arrive, the bytes written and a schedule of faults; every loop of the code consumes
  input, so the loops here are total functions. A panic of a string slice ends a connection as
  an outcome of its own.
\<close>

section \<open>Messages and errors\<close>

record email =
  em_id :: string
  em_from :: string
  em_to :: string
  em_subject :: string
  em_body :: string
  em_timestamp :: i64

datatype email_error =
    Connect string
  | Io string
  | Tls string
  | InvalidServerName string
  | UnexpectedEof
  | InvalidResponse
  | Rejected int string
  | StartTlsUnsupported
  | AuthUnsupported
  | AuthFailed
  | AuthRequiresTls
  | MessageTooLarge
  | AlreadySecured

text \<open>The key and the arguments \<open>localize\<close> looks up.\<close>

definition email_error_key :: "email_error \<Rightarrow> string \<times> (string \<times> string) list" where
  "email_error_key e =
     (case e of
        Connect r \<Rightarrow> (''email-connect-failed'', [(''reason'', r)])
      | Io r \<Rightarrow> (''email-io-error'', [(''reason'', r)])
      | Tls r \<Rightarrow> (''email-tls-failed'', [(''reason'', r)])
      | InvalidServerName r \<Rightarrow> (''email-invalid-server-name'', [(''reason'', r)])
      | UnexpectedEof \<Rightarrow> (''email-unexpected-eof'', [])
      | InvalidResponse \<Rightarrow> (''email-invalid-response'', [])
      | Rejected code phase \<Rightarrow>
          (''email-command-rejected'', [(''phase'', phase), (''code'', show_i64 code)])
      | StartTlsUnsupported \<Rightarrow> (''email-starttls-unsupported'', [])
      | AuthUnsupported \<Rightarrow> (''email-auth-unsupported'', [])
      | AuthFailed \<Rightarrow> (''email-auth-failed'', [])
      | AuthRequiresTls \<Rightarrow> (''email-auth-requires-tls'', [])
      | MessageTooLarge \<Rightarrow> (''email-message-too-large'', [])
      | AlreadySecured \<Rightarrow> (''email-already-secured'', []))"

text \<open>How a connection's task can end early.\<close>

datatype mail_stop = Failed email_error | Panicked

section \<open>Connections\<close>

text \<open>A fault is a message and how much of a write it let through.\<close>

record socket =
  sk_in :: string
  sk_out :: string
  sk_faults :: "(string \<times> nat) option list"

abbreviation LF :: char where "LF \<equiv> CHR 0x0A"
abbreviation CR :: char where "CR \<equiv> CHR 0x0D"
abbreviation CRLF :: string where "CRLF \<equiv> [CHR 0x0D, CHR 0x0A]"

definition sock_op ::
    "(nat \<Rightarrow> socket \<Rightarrow> socket) \<Rightarrow> (socket \<Rightarrow> (string + 'a) \<times> socket) \<Rightarrow> (socket, mail_stop, 'a) act" where
  "sock_op torn f = map_err (\<lambda>msg. Failed (Io msg)) (\<lambda>k.
     let k' = k\<lparr>sk_faults := tl (sk_faults k)\<rparr> in
     case sk_faults k of
       Some (msg, n) # _ \<Rightarrow> (Inl msg, torn n k')
     | _ \<Rightarrow> f k')"

definition put_bytes :: "string \<Rightarrow> socket \<Rightarrow> socket" where
  "put_bytes b k = k\<lparr>sk_out := sk_out k @ b\<rparr>"

definition write_all :: "string \<Rightarrow> (socket, mail_stop, unit) act" where
  "write_all b = sock_op (\<lambda>n. put_bytes (take n b)) (\<lambda>k. (Inr (), put_bytes b k))"

definition flush :: "(socket, mail_stop, unit) act" where
  "flush = sock_op (\<lambda>_. id) (\<lambda>k. (Inr (), k))"

text \<open>\<open>read_line\<close>: up to and with the line feed, or what is left; it must be UTF-8.\<close>

definition next_line :: "string \<Rightarrow> string" where
  "next_line s = (let l = takeWhile (\<lambda>c. c \<noteq> LF) s in if LF \<in> set s then l @ [LF] else l)"

definition read_line :: "(socket, mail_stop, string) act" where
  "read_line = sock_op (\<lambda>_. id) (\<lambda>k.
     let line = next_line (sk_in k) in
     (if utf8_valid line then Inr line else Inl ''stream did not contain valid UTF-8'',
      k\<lparr>sk_in := drop (length line) (sk_in k)\<rparr>))"

abbreviation trim_crlf :: "string \<Rightarrow> string" where
  "trim_crlf s \<equiv> trim_end_of {CR, LF} s"

definition write_line :: "string \<Rightarrow> (socket, mail_stop, unit) act" where
  "write_line line =
     try_await (write_all line) (\<lambda>_. try_await (write_all CRLF) (\<lambda>_. try_await flush (\<lambda>_. ret ())))"

section \<open>The catcher\<close>

definition MAX_LINE_BYTES :: nat where
  "MAX_LINE_BYTES = 64 * 1024"

definition MAX_MESSAGE_BYTES :: nat where
  "MAX_MESSAGE_BYTES = 10 * 1024 * 1024"

definition read_command :: "(socket, mail_stop, string) act" where
  "read_command =
     try_await read_line (\<lambda>line.
     if length line > MAX_LINE_BYTES then fail (Failed MessageTooLarge) else ret line)"

text \<open>Reading never adds to what is still to arrive.\<close>

lemma next_line_split: "next_line s @ drop (length (next_line s)) s = s"
proof -
  let ?l = "takeWhile (\<lambda>c. c \<noteq> LF) s"
  have "s = ?l @ dropWhile (\<lambda>c. c \<noteq> LF) s" by simp
  moreover have "dropWhile (\<lambda>c. c \<noteq> LF) s \<noteq> [] \<longrightarrow> hd (dropWhile (\<lambda>c. c \<noteq> LF) s) = LF" "LF \<in> set s \<longleftrightarrow> dropWhile (\<lambda>c. c \<noteq> LF) s \<noteq> []"
    using hd_dropWhile [of "\<lambda>c. c \<noteq> LF" s] by (auto simp: dropWhile_eq_Nil_conv)
  ultimately obtain r where "if LF \<in> set s then s = ?l @ LF # r else s = ?l"
    by (cases "dropWhile (\<lambda>c. c \<noteq> LF) s") auto
  then have "s = next_line s @ (if LF \<in> set s then r else [])"
    by (auto simp: next_line_def Let_def split: if_splits)
  then show ?thesis by (metis append_eq_conv_conj)
qed

lemma sock_op_cases:
  assumes "sock_op torn f k = (r, k')"
  obtains (worked) fs r1 where "f (k\<lparr>sk_faults := fs\<rparr>) = (r1, k')"
      "r = (case r1 of Inl m \<Rightarrow> Inl (Failed (Io m)) | Inr x \<Rightarrow> Inr x)"
  | (failed) msg n fs where "r = Inl (Failed (Io msg))" "k' = torn n (k\<lparr>sk_faults := fs\<rparr>)"
proof (cases "\<exists>msg n rest. sk_faults k = Some (msg, n) # rest")
  case True
  then obtain msg n rest where "sk_faults k = Some (msg, n) # rest" by blast
  with assms show thesis
    by (intro failed [of msg n rest]) (auto simp: sock_op_def map_err_def Let_def)
next
  case False
  then have "sock_op torn f k = (case f (k\<lparr>sk_faults := tl (sk_faults k)\<rparr>) of
      (r1, k1) \<Rightarrow> (case r1 of Inl m \<Rightarrow> Inl (Failed (Io m)) | Inr x \<Rightarrow> Inr x, k1))"
    by (auto simp: sock_op_def map_err_def Let_def split: list.splits option.splits prod.splits sum.splits)
  with assms worked show thesis by (cases "f (k\<lparr>sk_faults := tl (sk_faults k)\<rparr>)") simp
qed

lemma read_line_Inr:
  assumes "read_line k = (Inr line, k')"
  shows "line = next_line (sk_in k) \<and> utf8_valid line \<and> sk_in k = line @ sk_in k' \<and> sk_out k' = sk_out k"
  using assms unfolding read_line_def
  by (rule sock_op_cases) (auto simp: Let_def next_line_split split: if_splits)

text \<open>What is left to read, compared: the relation all operations stay within.\<close>

definition reads_on :: "socket \<Rightarrow> socket \<Rightarrow> bool" where
  "reads_on k k' \<longleftrightarrow> length (sk_in k') \<le> length (sk_in k)"

lemma reads_on_rel [simp, intro]: "reflp reads_on" "transp reads_on"
  by (auto simp: reads_on_def reflp_def transp_def)

lemma reads_on_ops [intro]: "stays reads_on read_line" "stays reads_on (write_all b)" "stays reads_on flush"
  unfolding read_line_def write_all_def flush_def
  by (rule staysI, erule sock_op_cases, auto simp: reads_on_def put_bytes_def Let_def)+

lemma reads_on_write_line [intro]: "stays reads_on (write_line l)"
  unfolding write_line_def by (intro stays_try_await reads_on_rel reads_on_ops stays_ret)

lemma reads_on_command [intro]: "stays reads_on read_command"
  unfolding read_command_def by (intro stays_try_await stays_if reads_on_rel reads_on_ops stays_ret stays_fail)

lemma read_line_progress:
  "read_line k = (Inr line, k') \<Longrightarrow> line \<noteq> [] \<Longrightarrow> length (sk_in k') < length (sk_in k)"
  by (metis read_line_Inr length_append length_greater_0_conv less_add_same_cancel2)

lemma read_command_Inr:
  "read_command k = (Inr line, k') \<longleftrightarrow> read_line k = (Inr line, k') \<and> length line \<le> MAX_LINE_BYTES"
  by (auto simp: read_command_def try_await_def split: prod.splits sum.splits)

definition unstuff :: "string \<Rightarrow> string" where
  "unstuff line = (case line of c # s \<Rightarrow> if c = CHR ''.'' then s else line | [] \<Rightarrow> [])"

function read_data :: "string \<Rightarrow> (socket, mail_stop, string) act" where
  "read_data data k =
     (case read_line k of
        (Inl e, k') \<Rightarrow> (Inl e, k')
      | (Inr line, k') \<Rightarrow>
          if line = [] then (Inl (Failed UnexpectedEof), k')
          else if trim_crlf line = ''.'' then (Inr data, k')
          else if length data + length (unstuff (trim_crlf line)) + 1 > MAX_MESSAGE_BYTES
          then (Inl (Failed MessageTooLarge), k')
          else read_data (data @ unstuff (trim_crlf line) @ [LF]) k')"
  by pat_completeness auto
termination
  by (relation "measure (\<lambda>(data, k). length (sk_in k))") (auto intro: read_line_progress [OF sym])

declare read_data.simps [simp del]

lemma reads_on_data: "stays reads_on (read_data data)"
proof (rule staysI)
  show "read_data data k = (r, k') \<Longrightarrow> reads_on k k'" for k r k'
  proof (induction data k arbitrary: r rule: read_data.induct)
    case (1 data k)
    obtain l k1 where l: "read_line k = (l, k1)" by (cases "read_line k")
    have on: "reads_on k k1" by (rule staysD [OF reads_on_ops(1) l])
    show ?case
    proof (cases l)
      case (Inl e)
      with "1.prems" l on show ?thesis by (simp add: read_data.simps [of data k])
    next
      case (Inr line)
      with "1.prems" "1.IH" [OF l [symmetric] Inr] l on show ?thesis
        by (auto simp: read_data.simps [of data k] reads_on_def split: if_splits intro: order_trans)
    qed
  qed
qed


definition upper_byte :: "char \<Rightarrow> char" where
  "upper_byte c = (if 97 \<le> byte c \<and> byte c \<le> 122 then char_of (byte c - 32) else c)"

text \<open>
  \<open>to_uppercase\<close>, as far as a comparison with an ASCII word can tell: the letters, and the
  characters outside ASCII whose upper case is ASCII (sharp s, dotless i, long s, and the
  ligatures of f and s); any other character is left as it is, and its upper case is not ASCII.
\<close>

fun to_uppercase :: "string \<Rightarrow> string" where
  "to_uppercase (a # b # c # s) =
     (if byte a = 195 \<and> byte b = 159 then ''SS'' @ to_uppercase (c # s)
      else if byte a = 196 \<and> byte b = 177 then ''I'' @ to_uppercase (c # s)
      else if byte a = 197 \<and> byte b = 191 then ''S'' @ to_uppercase (c # s)
      else if byte a = 239 \<and> byte b = 172 \<and> 128 \<le> byte c \<and> byte c \<le> 134
      then [''FF'', ''FI'', ''FL'', ''FFI'', ''FFL'', ''ST'', ''ST''] ! (byte c - 128) @ to_uppercase s
      else upper_byte a # to_uppercase (b # c # s))"
| "to_uppercase [a, b] =
     (if byte a = 195 \<and> byte b = 159 then ''SS''
      else if byte a = 196 \<and> byte b = 177 then ''I''
      else if byte a = 197 \<and> byte b = 191 then ''S''
      else [upper_byte a, upper_byte b])"
| "to_uppercase [a] = [upper_byte a]"
| "to_uppercase [] = []"

text \<open>The verb and the rest; \<open>None\<close> is the panic of slicing inside a wide White_Space character.\<close>

definition split_verb :: "string \<Rightarrow> (string \<times> string) option" where
  "split_verb line =
     (let l = trim_start line
      in case find_ws l of
        Some i \<Rightarrow>
          if boundary (i + 1) l then Some (to_uppercase (take i l), trim_start (drop (i + 1) l)) else None
      | None \<Rightarrow> Some (to_uppercase l, []))"

text \<open>The address after a prefix; the outer \<open>None\<close> is the panic, the inner one the code's.\<close>

definition parse_addr :: "string \<Rightarrow> string \<Rightarrow> string option option" where
  "parse_addr rest pre =
     (let rest' = trim_start rest in
      if length rest' < length pre then Some None
      else if \<not> boundary (length pre) rest' then None
      else if \<not> same_ignoring_case (take (length pre) rest') pre then Some None
      else
        let after = trim (drop (length pre) rest');
            inside =
              (case strip_prefix ''<'' after of
                 Some s \<Rightarrow> takeWhile (\<lambda>c. c \<noteq> CHR ''>'') s
               | None \<Rightarrow> after)
        in Some (Some (trim inside)))"

fun header_value_in :: "string list \<Rightarrow> string \<Rightarrow> string option" where
  "header_value_in [] name = None"
| "header_value_in (line # rest) name =
     (case split_once '':'' line of
        Some (key, v) \<Rightarrow>
          if same_ignoring_case (trim key) name then Some (trim v) else header_value_in rest name
      | None \<Rightarrow> header_value_in rest name)"

definition header_value :: "string \<Rightarrow> string \<Rightarrow> string option" where
  "header_value block name = header_value_in (lines_of block) name"

definition parse_email :: "string \<Rightarrow> i64 \<Rightarrow> string \<Rightarrow> string list \<Rightarrow> string \<Rightarrow> email" where
  "parse_email new_id now envelope_from rcpts raw =
     (let (header_block, body) =
            (case split_once (CRLF @ CRLF) raw of
               Some hb \<Rightarrow> hb
             | None \<Rightarrow> (case split_once [LF, LF] raw of Some hb \<Rightarrow> hb | None \<Rightarrow> ([], raw)))
      in \<lparr>em_id = new_id,
          em_from = (case header_value header_block ''From'' of Some v \<Rightarrow> v | None \<Rightarrow> envelope_from),
          em_to = (case header_value header_block ''To'' of Some v \<Rightarrow> v | None \<Rightarrow> join_with '', '' rcpts),
          em_subject = (case header_value header_block ''Subject'' of Some v \<Rightarrow> v | None \<Rightarrow> []),
          em_body = body, em_timestamp = now\<rparr>)"

text \<open>
  The state of a connection's task: the socket and the shared mailbox. \<open>stamp n\<close> is the
  identifier and the time the \<open>n\<close>-th message of the mailbox gets.
\<close>

record catcher =
  ct_sock :: socket
  ct_mailbox :: "email list"

definition on_sock :: "(socket, mail_stop, 'a) act \<Rightarrow> (catcher, mail_stop, 'a) act" where
  "on_sock m = (\<lambda>c. case m (ct_sock c) of (r, k) \<Rightarrow> (r, c\<lparr>ct_sock := k\<rparr>))"

definition deliver :: "(nat \<Rightarrow> string \<times> i64) \<Rightarrow> (string \<Rightarrow> i64 \<Rightarrow> email) \<Rightarrow> (catcher, mail_stop, unit) act" where
  "deliver stamp mail = (\<lambda>c.
     let (i, now) = stamp (length (ct_mailbox c))
     in (Inr (), c\<lparr>ct_mailbox := ct_mailbox c @ [mail i now]\<rparr>))"

definition panic_or :: "'a option \<Rightarrow> ('s, mail_stop, 'a) act" where
  "panic_or x = (case x of Some y \<Rightarrow> ret y | None \<Rightarrow> fail Panicked)"

text \<open>What the loop does next: go on with an envelope, or leave.\<close>

datatype after_command = Go "string option" "string list" | Leave

definition reply :: "string \<Rightarrow> after_command \<Rightarrow> (catcher, mail_stop, after_command) act" where
  "reply line nxt = try_await (on_sock (write_line line)) (\<lambda>_. ret nxt)"

definition smtp_data ::
    "(nat \<Rightarrow> string \<times> i64) \<Rightarrow> string option \<Rightarrow> string list \<Rightarrow> (catcher, mail_stop, after_command) act" where
  "smtp_data stamp mail_from rcpts =
     (if mail_from = None \<or> rcpts = [] then reply ''503 5.5.1 Need MAIL and RCPT first'' (Go mail_from rcpts)
      else
        try_await (on_sock (write_line ''354 End data with <CR><LF>.<CR><LF>'')) (\<lambda>_.
        try_await (on_sock (read_data [])) (\<lambda>raw.
        try_await (deliver stamp (\<lambda>i now.
          parse_email i now (case mail_from of Some f \<Rightarrow> f | None \<Rightarrow> []) rcpts raw)) (\<lambda>_.
        reply ''250 2.0.0 OK: message queued'' (Go None [])))))"

definition smtp_command ::
    "string \<Rightarrow> (nat \<Rightarrow> string \<times> i64) \<Rightarrow> string option \<Rightarrow> string list \<Rightarrow> string \<Rightarrow>
     (catcher, mail_stop, after_command) act" where
  "smtp_command hostname stamp mail_from rcpts trimmed =
     try_await (panic_or (split_verb trimmed)) (\<lambda>(verb, rest).
     if verb = ''HELO'' then reply (''250 '' @ hostname) (Go mail_from rcpts)
     else if verb = ''EHLO'' then
       try_await (on_sock (write_line (''250-'' @ hostname))) (\<lambda>_.
       try_await (on_sock (write_line ''250-SIZE 10485760'')) (\<lambda>_.
       reply ''250 SMTPUTF8'' (Go mail_from rcpts)))
     else if verb = ''MAIL'' then
       try_await (panic_or (parse_addr rest ''FROM:'')) (\<lambda>addr. reply ''250 2.1.0 OK'' (Go addr []))
     else if verb = ''RCPT'' then
       try_await (panic_or (parse_addr rest ''TO:'')) (\<lambda>addr.
       case addr of
         Some a \<Rightarrow> reply ''250 2.1.5 OK'' (Go mail_from (rcpts @ [a]))
       | None \<Rightarrow> reply ''501 5.5.4 Syntax: RCPT TO:<address>'' (Go mail_from rcpts))
     else if verb = ''DATA'' then smtp_data stamp mail_from rcpts
     else if verb = ''RSET'' then reply ''250 2.0.0 OK'' (Go None [])
     else if verb = ''NOOP'' then reply ''250 2.0.0 OK'' (Go mail_from rcpts)
     else if verb = ''VRFY'' then reply ''252 2.5.2 Cannot VRFY user'' (Go mail_from rcpts)
     else if verb = ''QUIT'' then reply (''221 2.0.0 '' @ hostname @ '' closing connection'') Leave
     else if verb = [] then reply ''500 5.5.2 Error: bad syntax'' (Go mail_from rcpts)
     else reply ''502 5.5.1 Command not implemented'' (Go mail_from rcpts))"

text \<open>No command adds to what is still to arrive, so the loop over commands ends.\<close>

abbreviation left_over :: "catcher \<Rightarrow> catcher \<Rightarrow> bool" where
  "left_over c c' \<equiv> reads_on (ct_sock c) (ct_sock c')"

lemma left_over_rel [simp, intro]: "reflp left_over" "transp left_over"
  by (auto simp: reads_on_def reflp_def transp_def)

lemma left_over_sock: "stays reads_on m \<Longrightarrow> stays left_over (on_sock m)"
  by (auto simp: stays_def on_sock_def split: prod.split) (metis snd_conv)

lemma left_over_reply: "stays left_over (reply l n)"
  unfolding reply_def by (intro stays_try_await left_over_rel left_over_sock reads_on_write_line stays_ret)

lemma left_over_deliver: "stays left_over (deliver stamp mail)"
  by (auto simp: stays_def deliver_def reads_on_def split: prod.split)

lemma left_over_panic: "stays left_over (panic_or x)"
  unfolding panic_or_def by (intro stays_case_option stays_ret stays_fail left_over_rel)

lemma left_over_smtp: "stays left_over (smtp_command hostname stamp mail_from rcpts trimmed)"
  unfolding smtp_command_def smtp_data_def case_prod_beta
  by (intro stays_try_await stays_if stays_case_option left_over_rel left_over_sock left_over_reply
      left_over_deliver left_over_panic reads_on_write_line reads_on_data)

function smtp_loop ::
    "string \<Rightarrow> (nat \<Rightarrow> string \<times> i64) \<Rightarrow> string option \<Rightarrow> string list \<Rightarrow> (catcher, mail_stop, unit) act" where
  "smtp_loop hostname stamp mail_from rcpts c =
     (case on_sock read_command c of
        (Inl e, c1) \<Rightarrow> (Inl e, c1)
      | (Inr line, c1) \<Rightarrow>
          if line = [] then (Inr (), c1)
          else
            case smtp_command hostname stamp mail_from rcpts (trim_crlf line) c1 of
              (Inl e, c2) \<Rightarrow> (Inl e, c2)
            | (Inr Leave, c2) \<Rightarrow> (Inr (), c2)
            | (Inr (Go mf rs), c2) \<Rightarrow> smtp_loop hostname stamp mf rs c2)"
  by pat_completeness auto
termination
proof (relation "measure (\<lambda>(h, st, mf, rs, c). length (sk_in (ct_sock c)))")
  fix hostname :: string and stamp :: "nat \<Rightarrow> string \<times> i64" and mail_from mf :: "string option"
    and rcpts rs :: "string list" and c c1 c2 :: catcher and l r n and line :: string
  assume l: "(l, c1) = on_sock read_command c" "l = Inr line" "line \<noteq> []"
    and s: "(r, c2) = smtp_command hostname stamp mail_from rcpts (trim_crlf line) c1"
  from l have "length (sk_in (ct_sock c1)) < length (sk_in (ct_sock c))"
    by (auto simp: on_sock_def read_command_Inr split: prod.splits intro: read_line_progress)
  moreover have "reads_on (ct_sock c1) (ct_sock c2)" by (rule staysD [OF left_over_smtp s [symmetric]])
  ultimately show "((hostname, stamp, mf, rs, c2), hostname, stamp, mail_from, rcpts, c)
      \<in> measure (\<lambda>(h, st, mf, rs, c). length (sk_in (ct_sock c)))"
    by (simp add: reads_on_def)
qed simp

declare smtp_loop.simps [simp del]

definition handle_connection :: "string \<Rightarrow> (nat \<Rightarrow> string \<times> i64) \<Rightarrow> (catcher, mail_stop, unit) act" where
  "handle_connection hostname stamp =
     try_await (on_sock (write_line (''220 '' @ hostname @ '' ESMTP cctf-rs catcher''))) (\<lambda>_.
     smtp_loop hostname stamp None [])"

end
