(* ===== verification/Mailer.thy ===== *)
theory Mailer
  imports Smtp Access
begin

text \<open>
  Sending and receiving mail: the SMTP sender, \<open>src/src/libs/services/email/client.rs\<close>, and the
  webhook that takes mail in, \<open>http.rs\<close>. What the TLS library and the resolver do is a
  parameter.
\<close>

section \<open>The sender\<close>

datatype tls_mode = NoTls | StartTls

record smtp_credentials =
  sc_username :: string
  sc_password :: string

record smtp_client =
  sm_host :: string
  sm_port :: "16 word"
  sm_from_email :: string
  sm_ehlo_name :: string
  sm_tls_mode :: tls_mode
  sm_credentials :: "smtp_credentials option"

definition new_client :: "string \<Rightarrow> 16 word \<Rightarrow> string \<Rightarrow> smtp_client" where
  "new_client host port from =
     \<lparr>sm_host = host, sm_port = port, sm_from_email = from, sm_ehlo_name = ''localhost'', sm_tls_mode = NoTls,
      sm_credentials = None\<rparr>"

definition with_starttls :: "smtp_client \<Rightarrow> smtp_client" where
  "with_starttls C = C\<lparr>sm_tls_mode := StartTls\<rparr>"

definition with_credentials :: "string \<Rightarrow> string \<Rightarrow> smtp_client \<Rightarrow> smtp_client" where
  "with_credentials username password C =
     C\<lparr>sm_credentials := Some \<lparr>sc_username = username, sc_password = password\<rparr>\<rparr>"

definition with_ehlo_name :: "string \<Rightarrow> smtp_client \<Rightarrow> smtp_client" where
  "with_ehlo_name name C = C\<lparr>sm_ehlo_name := name\<rparr>"

text \<open>
  \<open>tls_config\<close> is building the connector (an error or not), \<open>server_name\<close> the check of the
  host name, \<open>handshake\<close> what connecting makes of the plain connection: the decrypted one.
\<close>

record tls_library =
  tls_config :: "string option"
  server_name :: "string \<Rightarrow> string option"
  handshake :: "string \<Rightarrow> socket \<Rightarrow> string + socket"

record stream =
  st_secured :: bool
  st_sock :: socket

definition on_stream :: "(socket, mail_stop, 'a) act \<Rightarrow> (stream, mail_stop, 'a) act" where
  "on_stream m = (\<lambda>s. case m (st_sock s) of (r, k) \<Rightarrow> (r, s\<lparr>st_sock := k\<rparr>))"

definition parse_code :: "string \<Rightarrow> int option" where
  "parse_code s = parse_digits (strip_plus s)"

function read_reply :: "string list \<Rightarrow> (socket, mail_stop, int \<times> string list) act" where
  "read_reply lines k =
     (case read_line k of
        (Inl e, k') \<Rightarrow> (Inl e, k')
      | (Inr line, k') \<Rightarrow>
          if line = [] then (Inl (Failed UnexpectedEof), k')
          else if length (trim_crlf line) < 3 then (Inl (Failed InvalidResponse), k')
          else if \<not> boundary 3 (trim_crlf line) then (Inl Panicked, k')
          else
            case parse_code (take 3 (trim_crlf line)) of
              None \<Rightarrow> (Inl (Failed InvalidResponse), k')
            | Some code \<Rightarrow>
                if length (trim_crlf line) = 3 \<or> trim_crlf line ! 3 = CHR '' ''
                then (Inr (code, lines @ [trim_crlf line]), k')
                else read_reply (lines @ [trim_crlf line]) k')"
  by pat_completeness auto
termination
  by (relation "measure (\<lambda>(lines, k). length (sk_in k))") (auto intro: read_line_progress [OF sym])

declare read_reply.simps [simp del]

definition command :: "string \<Rightarrow> int \<Rightarrow> string \<Rightarrow> (socket, mail_stop, string list) act" where
  "command line expected phase =
     try_await (write_line line) (\<lambda>_.
     try_await (read_reply []) (\<lambda>(code, lines).
     if code \<noteq> expected then fail (Failed (Rejected code phase)) else ret lines))"

definition upgrade :: "tls_library \<Rightarrow> string \<Rightarrow> (stream, mail_stop, unit) act" where
  "upgrade X host = (\<lambda>s.
     if st_secured s then (Inl (Failed AlreadySecured), s)
     else case tls_config X of
       Some e \<Rightarrow> (Inl (Failed (Tls e)), s)
     | None \<Rightarrow>
         (case server_name X host of
            Some e \<Rightarrow> (Inl (Failed (InvalidServerName e)), s)
          | None \<Rightarrow>
              (case handshake X host (st_sock s) of
                 Inl e \<Rightarrow> (Inl (Failed (Tls e)), s)
               | Inr k \<Rightarrow> (Inr (), \<lparr>st_secured = True, st_sock = k\<rparr>))))"

text \<open>\<open>any\<close> over the lines of the greeting; \<open>None\<close> is the panic of slicing one at 4.\<close>

fun caps_any :: "(string list \<Rightarrow> bool) \<Rightarrow> string list \<Rightarrow> bool option" where
  "caps_any p [] = Some False"
| "caps_any p (l # ls) =
     (if length l > 4 \<and> \<not> boundary 4 l then None
      else if p (split_whitespace (if length l > 4 then drop 4 l else [])) then Some True
      else caps_any p ls)"

definition ehlo_supports :: "string list \<Rightarrow> string \<Rightarrow> bool option" where
  "ehlo_supports caps token =
     caps_any (\<lambda>ws. case ws of w # _ \<Rightarrow> same_ignoring_case w token | [] \<Rightarrow> False) caps"

definition ehlo_supports_auth_login :: "string list \<Rightarrow> bool option" where
  "ehlo_supports_auth_login caps =
     caps_any (\<lambda>ws. case ws of
         w # ms \<Rightarrow> same_ignoring_case w ''AUTH'' \<and> list_ex (\<lambda>m. same_ignoring_case m ''LOGIN'') ms
       | [] \<Rightarrow> False) caps"

definition header_safe :: "string \<Rightarrow> string" where
  "header_safe v = filter (\<lambda>c. c \<noteq> CR \<and> c \<noteq> LF) v"

definition domain_of :: "string \<Rightarrow> string" where
  "domain_of from =
     (let d = rev (takeWhile (\<lambda>c. c \<noteq> CHR ''@'') (rev from))
      in if CHR ''@'' \<in> set from \<and> d \<noteq> [] then d else ''localhost'')"

definition body_line :: "string \<Rightarrow> string" where
  "body_line raw = (if prefix ''.'' (strip_cr raw) then ''.'' else []) @ strip_cr raw @ CRLF"

definition build_message :: "string \<Rightarrow> string \<Rightarrow> string \<Rightarrow> string \<Rightarrow> string \<Rightarrow> string \<Rightarrow> string" where
  "build_message date uuid from to subject body =
     ''From: '' @ header_safe from @ CRLF @
     ''To: '' @ header_safe to @ CRLF @
     ''Subject: '' @ header_safe subject @ CRLF @
     ''Date: '' @ date @ CRLF @
     ''Message-ID: '' @ ''<'' @ uuid @ ''@'' @ domain_of from @ ''>'' @ CRLF @
     ''MIME-Version: 1.0'' @ CRLF @
     ''Content-Type: text/plain; charset=utf-8'' @ CRLF @
     CRLF @
     concat (map body_line (split_on LF body))"

text \<open>The optional parts of the session: STARTTLS and a second EHLO, then the login.\<close>

definition secure :: "tls_library \<Rightarrow> smtp_client \<Rightarrow> string list \<Rightarrow> (stream, mail_stop, string list) act" where
  "secure X C caps =
     (if sm_tls_mode C = StartTls then
        try_await (panic_or (ehlo_supports caps ''STARTTLS'')) (\<lambda>ok.
        if \<not> ok then fail (Failed StartTlsUnsupported)
        else
          try_await (on_stream (command ''STARTTLS'' 220 ''STARTTLS'')) (\<lambda>_.
          try_await (upgrade X (sm_host C)) (\<lambda>_.
          on_stream (command (''EHLO '' @ sm_ehlo_name C) 250 ''EHLO''))))
      else ret caps)"

definition authenticate ::
    "(string \<Rightarrow> string) \<Rightarrow> smtp_client \<Rightarrow> string list \<Rightarrow> (stream, mail_stop, unit) act" where
  "authenticate b64 C caps =
     (case sm_credentials C of
        None \<Rightarrow> ret ()
      | Some creds \<Rightarrow>
          try_await (panic_or (ehlo_supports_auth_login caps)) (\<lambda>ok.
          if \<not> ok then fail (Failed AuthUnsupported)
          else
            try_await (on_stream (command ''AUTH LOGIN'' 334 ''AUTH'')) (\<lambda>_.
            try_await (on_stream (command (b64 (sc_username creds)) 334 ''AUTH username'')) (\<lambda>_.
            try_await (on_stream (write_line (b64 (sc_password creds)))) (\<lambda>_.
            try_await (on_stream (read_reply [])) (\<lambda>(code, _).
            if code \<noteq> 235 then fail (Failed AuthFailed) else ret ()))))))"

definition send_data :: "string \<Rightarrow> (stream, mail_stop, unit) act" where
  "send_data message =
     try_await (on_stream (write_all message)) (\<lambda>_.
     try_await (if suffix CRLF message then ret () else on_stream (write_all CRLF)) (\<lambda>_.
     try_await (on_stream (write_all (''.'' @ CRLF))) (\<lambda>_.
     try_await (on_stream flush) (\<lambda>_.
     try_await (on_stream (read_reply [])) (\<lambda>(code, _).
     if code \<noteq> 250 then fail (Failed (Rejected code ''message'')) else ret ())))))"

text \<open>\<open>let _ = m.await\<close>: an error is dropped, a panic is not.\<close>

definition dropping :: "('s, mail_stop, 'a) act \<Rightarrow> ('s, mail_stop, unit) act" where
  "dropping m = (\<lambda>s. case m s of (Inl Panicked, s') \<Rightarrow> (Inl Panicked, s') | (_, s') \<Rightarrow> (Inr (), s'))"

definition session ::
    "tls_library \<Rightarrow> (string \<Rightarrow> string) \<Rightarrow> string \<Rightarrow> string \<Rightarrow> smtp_client \<Rightarrow> string \<Rightarrow> string \<Rightarrow> string \<Rightarrow>
     (stream, mail_stop, unit) act" where
  "session X b64 date uuid C to subject body =
     try_await (on_stream (read_reply [])) (\<lambda>(code, _).
     if code \<noteq> 220 then fail (Failed (Rejected code ''greeting''))
     else
       try_await (on_stream (command (''EHLO '' @ sm_ehlo_name C) 250 ''EHLO'')) (\<lambda>caps0.
       try_await (secure X C caps0) (\<lambda>caps.
       try_await (authenticate b64 C caps) (\<lambda>_.
       try_await (on_stream (command (''MAIL FROM:<'' @ sm_from_email C @ ''>'') 250 ''MAIL FROM'')) (\<lambda>_.
       try_await (on_stream (command (''RCPT TO:<'' @ to @ ''>'') 250 ''RCPT TO'')) (\<lambda>_.
       try_await (on_stream (command ''DATA'' 354 ''DATA'')) (\<lambda>_.
       try_await (send_data (build_message date uuid (sm_from_email C) to subject body)) (\<lambda>_.
       try_await (dropping (on_stream (command ''QUIT'' 221 ''QUIT''))) (\<lambda>_. ret ())))))))))"

text \<open>\<open>conn\<close> is what connecting to the host and port gives.\<close>

definition send_email ::
    "tls_library \<Rightarrow> (string \<Rightarrow> string) \<Rightarrow> string \<Rightarrow> string \<Rightarrow> smtp_client \<Rightarrow> string + socket \<Rightarrow>
     string \<Rightarrow> string \<Rightarrow> string \<Rightarrow> (mail_stop + unit) \<times> stream option" where
  "send_email X b64 date uuid C conn to subject body =
     (if sm_credentials C \<noteq> None \<and> sm_tls_mode C = NoTls then (Inl (Failed AuthRequiresTls), None)
      else case conn of
        Inl e \<Rightarrow> (Inl (Failed (Connect e)), None)
      | Inr k \<Rightarrow>
          (case session X b64 date uuid C to subject body \<lparr>st_secured = False, st_sock = k\<rparr> of
             (r, s) \<Rightarrow> (r, Some s)))"

section \<open>The webhook\<close>

record inbound_json =
  in_from :: "string option"
  in_to :: "string option"
  in_subject :: "string option"
  in_text :: "string option"
  in_html :: "string option"
  in_raw :: "string option"

definition or_nil :: "string option \<Rightarrow> string" where
  "or_nil x = (case x of Some s \<Rightarrow> s | None \<Rightarrow> [])"

definition header_or_empty :: "headers \<Rightarrow> string \<Rightarrow> string" where
  "header_or_empty hs name = or_nil (get_header hs name)"

definition MAX_MAILBOX :: nat where
  "MAX_MAILBOX = 1000"

definition bounded_push :: "email list \<Rightarrow> email \<Rightarrow> email list" where
  "bounded_push mailbox m =
     (let mb = mailbox @ [m] in if length mb > MAX_MAILBOX then drop (length mb - MAX_MAILBOX) mb else mb)"

definition inbound_email ::
    "(string \<Rightarrow> inbound_json option) \<Rightarrow> string \<Rightarrow> i64 \<Rightarrow> headers \<Rightarrow> string \<Rightarrow> email option" where
  "inbound_email json_of new_id now hs body =
     (if prefix ''application/json'' (header_or_empty hs ''content-type'') then
        (case json_of body of
           None \<Rightarrow> None
         | Some j \<Rightarrow>
             Some (case in_raw j of
               Some raw \<Rightarrow>
                 parse_email new_id now (or_nil (in_from j)) (case in_to j of Some t \<Rightarrow> [t] | None \<Rightarrow> []) raw
             | None \<Rightarrow>
                 \<lparr>em_id = new_id, em_from = or_nil (in_from j), em_to = or_nil (in_to j),
                  em_subject = or_nil (in_subject j),
                  em_body = or_nil (case in_html j of Some h \<Rightarrow> Some h | None \<Rightarrow> in_text j),
                  em_timestamp = now\<rparr>))
      else if \<not> utf8_valid body then None
      else Some (parse_email new_id now (header_or_empty hs ''x-mail-from'')
        (filter (\<lambda>s. s \<noteq> []) (map trim (split_on (CHR '','') (header_or_empty hs ''x-mail-to'')))) body))"

definition inbound_handler ::
    "ext \<Rightarrow> (string \<Rightarrow> inbound_json option) \<Rightarrow> string \<Rightarrow> i64 \<Rightarrow> string option \<Rightarrow> headers \<Rightarrow> string \<Rightarrow>
     email list \<Rightarrow> nat \<times> email list" where
  "inbound_handler X json_of new_id now secret hs body mailbox =
     (case secret of
        None \<Rightarrow> (401, mailbox)
      | Some expected \<Rightarrow>
          let provided = or_nil (case get_header hs ''authorization'' of
                Some h \<Rightarrow> strip_prefix ''Bearer '' h | None \<Rightarrow> None)
          in if \<not> constant_time_eq X provided expected then (401, mailbox)
             else case inbound_email json_of new_id now hs body of
               None \<Rightarrow> (400, mailbox)
             | Some m \<Rightarrow> (200, bounded_push mailbox m))"

text \<open>\<open>main\<close> mounts the webhook only with a secret that is not empty.\<close>

definition inbound_secret :: "string option \<Rightarrow> string option" where
  "inbound_secret env = nonempty env"

lemma bounded_push_last: "bounded_push mailbox m = drop (length mailbox + 1 - MAX_MAILBOX) (mailbox @ [m])"
  by (simp add: bounded_push_def Let_def)

text \<open>C34: The webhook takes mail in only with the secret: a request answered 200 carries the configured,
  not empty secret as a bearer token, and any other leaves the mailbox as it was; the mailbox
  holds the most recent thousand messages, the new one last, and never more.\<close>

theorem webhook_fails_closed:
  assumes "lawful_ext X" "length mailbox \<le> MAX_MAILBOX"
    and "inbound_handler X json_of i now (inbound_secret env) hs body mailbox = (status, mailbox')"
  shows "length mailbox' \<le> MAX_MAILBOX \<and>
    (if status = 200
     then \<exists>secret m. env = Some secret \<and> secret \<noteq> [] \<and>
       get_header hs ''authorization'' = Some (''Bearer '' @ secret) \<and>
       inbound_email json_of i now hs body = Some m \<and>
       mailbox' = drop (length mailbox + 1 - MAX_MAILBOX) (mailbox @ [m])
     else mailbox' = mailbox)"
proof (cases "inbound_secret env")
  case None
  with assms show ?thesis by (auto simp: inbound_handler_def)
next
  case (Some secret)
  let ?provided = "or_nil (case get_header hs ''authorization'' of Some h \<Rightarrow> strip_prefix ''Bearer '' h | None \<Rightarrow> None)"
  have env: "env = Some secret" "secret \<noteq> []"
    using Some by (auto simp: inbound_secret_def nonempty_def split: option.splits if_splits)
  show ?thesis
  proof (cases "?provided = secret")
    case False
    with assms Some show ?thesis by (auto simp: inbound_handler_def Let_def)
  next
    case True
    with env(2) obtain h where h: "get_header hs ''authorization'' = Some h" "strip_prefix ''Bearer '' h = Some secret"
      by (auto simp: or_nil_def split: option.splits)
    from h(2) have "h = ''Bearer '' @ secret" by (auto simp: strip_prefix_def prefix_def split: if_splits)
    with env h(1) True assms(1,2) assms(3) [unfolded inbound_handler_def Some Let_def] show ?thesis
      by (auto simp: bounded_push_last simp del: drop_append split: option.splits)
  qed
qed

end
