(* ===== verification/Gateway.thy ===== *)
theory Gateway
  imports Files Mailer
begin

text \<open>
  The outer edge of the server: the proxy to challenge instances, \<open>src/src/libs/api/proxy.rs\<close>, the
  language a request prefers and the table of routes, \<open>src/src/libs/api/mod.rs\<close>. The HTTP client
  and the instance behind it are a parameter: what they answer is unconstrained.
\<close>

section \<open>The proxy\<close>

text \<open>A header map as the list of its fields, several values of a name in order.\<close>

record proxied_request =
  pq_method :: string
  pq_url :: string
  pq_headers :: headers
  pq_body :: string

record proxied_response =
  pp_status :: nat
  pp_headers :: headers
  pp_body :: string

record incoming_request =
  rq_method :: string
  rq_path_and_query :: "string option"
  rq_headers :: headers
  rq_body :: "string option" \<comment> \<open>\<open>None\<close>: it breaks off\<close>

type_synonym 'u http_client = "proxied_request \<Rightarrow> ('u, string, proxied_response) act"

definition extract_instance_id :: "string \<Rightarrow> string option" where
  "extract_instance_id host =
     (let first_part = takeWhile (\<lambda>c. c \<noteq> CHR ''.'') host
      in if prefix ''inst-'' first_part then Some first_part else None)"

definition stripped_headers :: "string list" where
  "stripped_headers =
     [''authorization'', ''cookie'', ''connection'', ''keep-alive'', ''proxy-authorization'',
      ''proxy-authenticate'', ''te'', ''trailer'', ''transfer-encoding'', ''upgrade'']"

fun remove_headers :: "string list \<Rightarrow> headers \<Rightarrow> headers" where
  "remove_headers [] hs = hs"
| "remove_headers (h # rest) hs = remove_headers rest (filter (\<lambda>(k, _). k \<noteq> h) hs)"

definition insert_header :: "string \<times> string \<Rightarrow> headers \<Rightarrow> headers" where
  "insert_header kv hs = filter (\<lambda>(k, _). k \<noteq> fst kv) hs @ [kv]"

definition MAX_PROXY_BODY :: nat where
  "MAX_PROXY_BODY = 10 * 1024 * 1024"

text \<open>The result is an answer, or the status of an early return.\<close>

definition proxy_handler ::
    "'u http_client \<Rightarrow> incoming_request \<Rightarrow> ('j world \<times> 'u, nat, proxied_response) act" where
  "proxy_handler send req =
     (case extract_instance_id (or_nil (get_header (rq_headers req) ''host'')) of
        None \<Rightarrow> fail 404
      | Some instance_id \<Rightarrow>
          try_await (map_err (\<lambda>_. 500) (on_fst (on_db (pg_instance_ip instance_id)))) (\<lambda>found.
          case found of
            None \<Rightarrow> fail 404
          | Some cluster_ip \<Rightarrow>
              (case rq_body req of
                 None \<Rightarrow> fail 400
               | Some bytes \<Rightarrow>
                   if length bytes > MAX_PROXY_BODY then fail 400
                   else
                     try_await (map_err (\<lambda>_. 502) (on_snd (send
                       \<lparr>pq_method = rq_method req,
                        pq_url = ''http://'' @ cluster_ip @ or_nil (rq_path_and_query req),
                        pq_headers = remove_headers stripped_headers (rq_headers req),
                        pq_body = bytes\<rparr>))) (\<lambda>res.
                     ret \<lparr>pp_status = pp_status res, pp_headers = fold insert_header (pp_headers res) [],
                          pp_body = pp_body res\<rparr>))))"

section \<open>Language and routes\<close>

definition get_lang :: "headers \<Rightarrow> string" where
  "get_lang hs =
     (case get_header hs ''accept-language'' of
        Some s \<Rightarrow> trim (hd (split_on (CHR '','') s))
      | None \<Rightarrow> ''en-US'')"


text \<open>The routes: \<open>API_ROUTES\<close> as published, and the router's table with its handlers.\<close>

definition API_ROUTES :: "(string \<times> string) list" where
  "API_ROUTES =
     [(''POST'', ''/api/v1/auth/register''),
      (''POST'', ''/api/v1/auth/login''),
      (''GET'', ''/api/v1/auth/oauth/url''),
      (''GET'', ''/api/v1/auth/oauth/callback''),
      (''GET'', ''/api/v1/challenges''),
      (''POST'', ''/api/v1/challenges''),
      (''GET'', ''/api/v1/challenges/{id}''),
      (''PATCH'', ''/api/v1/challenges/{id}''),
      (''DELETE'', ''/api/v1/challenges/{id}''),
      (''POST'', ''/api/v1/challenges/{id}/submit''),
      (''POST'', ''/api/v1/challenges/{id}/hints/{index}/unlock''),
      (''POST'', ''/api/v1/files''),
      (''GET'', ''/api/v1/files/{id}''),
      (''GET'', ''/api/v1/scoreboard''),
      (''GET'', ''/api/v1/scoreboard/export''),
      (''POST'', ''/api/v1/teams/invite''),
      (''POST'', ''/api/v1/teams/join''),
      (''GET'', ''/api/v1/notifications''),
      (''POST'', ''/api/v1/notifications''),
      (''GET'', ''/api/v1/notifications/stream'')]"

datatype handler =
    RegisterH | LoginH | GetOauthUrlH | OauthCallbackH | ListChallengesH | CreateChallengeH
  | GetChallengeH | UpdateChallengeH | DeleteChallengeH | SubmitFlagH | UnlockHintH | UploadFileH
  | DownloadFileH | GetScoreboardH | ExportScoreboardH | CreateInviteH | JoinTeamH
  | ListNotificationsH | CreateNotificationH | NotificationsStreamH | OpenapiYamlH | OpenapiJsonH | ApiDocsH

definition router_table :: "(string \<times> (string \<times> handler) list) list" where
  "router_table =
     [(''/api/v1/auth/register'', [(''POST'', RegisterH)]),
      (''/api/v1/auth/login'', [(''POST'', LoginH)]),
      (''/api/v1/auth/oauth/url'', [(''GET'', GetOauthUrlH)]),
      (''/api/v1/auth/oauth/callback'', [(''GET'', OauthCallbackH)]),
      (''/api/v1/challenges'', [(''GET'', ListChallengesH), (''POST'', CreateChallengeH)]),
      (''/api/v1/challenges/{id}'',
        [(''GET'', GetChallengeH), (''PATCH'', UpdateChallengeH), (''DELETE'', DeleteChallengeH)]),
      (''/api/v1/challenges/{id}/submit'', [(''POST'', SubmitFlagH)]),
      (''/api/v1/challenges/{id}/hints/{index}/unlock'', [(''POST'', UnlockHintH)]),
      (''/api/v1/files'', [(''POST'', UploadFileH)]),
      (''/api/v1/files/{id}'', [(''GET'', DownloadFileH)]),
      (''/api/v1/scoreboard'', [(''GET'', GetScoreboardH)]),
      (''/api/v1/scoreboard/export'', [(''GET'', ExportScoreboardH)]),
      (''/api/v1/teams/invite'', [(''POST'', CreateInviteH)]),
      (''/api/v1/teams/join'', [(''POST'', JoinTeamH)]),
      (''/api/v1/notifications'', [(''GET'', ListNotificationsH), (''POST'', CreateNotificationH)]),
      (''/api/v1/notifications/stream'', [(''GET'', NotificationsStreamH)]),
      (''/openapi.yaml'', [(''GET'', OpenapiYamlH)]),
      (''/openapi.json'', [(''GET'', OpenapiJsonH)]),
      (''/docs'', [(''GET'', ApiDocsH)])]"

text \<open>The published list names every API route of the router, once.\<close>

lemma published_routes:
  "set API_ROUTES =
     set (concat (map (\<lambda>(p, ms). if take 5 p = ''/api/'' then map (\<lambda>(m, _). (m, p)) ms else []) router_table))"
  "distinct API_ROUTES"
  by code_simp+

section \<open>What the proxy does\<close>

lemma remove_headers_eq: "remove_headers names hs = filter (\<lambda>(k, _). k \<notin> set names) hs"
  by (induction names arbitrary: hs) (auto intro!: filter_cong)

lemma pg_instance_ip_some:
  assumes "pg_instance_ip i db = (Inr (Some ip), db')"
  shows "\<exists>row \<in> set (db_instances db). irow_id row = i \<and> irow_expires_at row > db_clock db \<and> ip = irow_cluster_ip row"
  using assms
  by (fastforce simp: pg_instance_ip_def Let_def find_Some_iff elim!: try_await_ok_cases dest!: fetch_optional_ok)

lemma stripped_set:
  "{''authorization'', ''cookie'', ''connection'', ''keep-alive'', ''proxy-authorization'',
   ''proxy-authenticate'', ''te'', ''trailer'', ''transfer-encoding'', ''upgrade''} =
     set stripped_headers"
  by (simp only: stripped_headers_def list.set)

lemma proxy_effect:
  assumes "proxy_handler send req (w, u) = (r, (w', u'))"
  shows "case r of
      Inr resp \<Rightarrow>
        (\<exists>row q res. row \<in> set (db_instances (w_db w)) \<and> irow_expires_at row > db_clock (w_db w) \<and>
           extract_instance_id (or_nil (get_header (rq_headers req) ''host'')) = Some (irow_id row) \<and>
           send q u = (Inr res, u') \<and> pp_body resp = pp_body res \<and>
           pq_url q = ''http://'' @ irow_cluster_ip row @ or_nil (rq_path_and_query req) \<and>
           rq_body req = Some (pq_body q) \<and> length (pq_body q) \<le> MAX_PROXY_BODY \<and>
           (\<forall>(k, v) \<in> set (pq_headers q). (k, v) \<in> set (rq_headers req) \<and> k \<notin> set stripped_headers))
    | Inl status \<Rightarrow> status \<noteq> 502 \<longrightarrow> u' = u"
proof (cases "extract_instance_id (or_nil (get_header (rq_headers req) ''host''))")
  case None
  with assms show ?thesis by (auto simp: proxy_handler_def)
next
  case (Some i)
  obtain found db1 where look: "pg_instance_ip i (w_db w) = (found, db1)" by (cases "pg_instance_ip i (w_db w)")
  let ?q = "\<lambda>ip bytes. \<lparr>pq_method = rq_method req, pq_url = ''http://'' @ ip @ or_nil (rq_path_and_query req),
    pq_headers = remove_headers stripped_headers (rq_headers req), pq_body = bytes\<rparr>"
  show ?thesis
  proof (cases "\<exists>ip bytes. found = Inr (Some ip) \<and> rq_body req = Some bytes \<and> length bytes \<le> MAX_PROXY_BODY")
    case False
    with assms look Some show ?thesis
      by (cases found)
         (auto simp: proxy_handler_def try_await_def map_err_def on_fst_def on_db_def split: option.splits if_splits)
  next
    case True
    then obtain ip bytes where found: "found = Inr (Some ip)" and b: "rq_body req = Some bytes" "length bytes \<le> MAX_PROXY_BODY"
      by blast
    obtain res u1 where s: "send (?q ip bytes) u = (res, u1)" by (cases "send (?q ip bytes) u")
    obtain row where row: "row \<in> set (db_instances (w_db w))" "irow_id row = i"
      "irow_expires_at row > db_clock (w_db w)" "ip = irow_cluster_ip row"
      using pg_instance_ip_some look found by blast
    have "u' = u1 \<and> (case res of Inl e \<Rightarrow> r = Inl 502 | Inr x \<Rightarrow>
        r = Inr \<lparr>pp_status = pp_status x, pp_headers = fold insert_header (pp_headers x) [], pp_body = pp_body x\<rparr>)"
      using assms look Some found b s
      by (auto simp: proxy_handler_def try_await_def map_err_def on_fst_def on_db_def on_snd_def split: sum.splits)
    with s b row Some show ?thesis
      by (cases res) (auto simp: remove_headers_eq intro!: bexI [of _ row] exI [of _ "?q ip bytes"])
  qed
qed

text \<open>C31: A request is passed on only to a running instance and without credentials: when the proxy
  answers, the first label of the host names an unexpired instance, the upstream was asked once,
  at that instance's address, with the request's path and body of at most ten mebibytes and
  without the authorization, cookie and hop-by-hop headers; and when it refuses with any status
  but 502 the upstream was not asked at all.\<close>

theorem proxy_leaks_no_credentials:
  assumes "proxy_handler send req (w, u) = (r, (w', u'))"
  shows "case r of
      Inr resp \<Rightarrow>
        (\<exists>row q res. row \<in> set (db_instances (w_db w)) \<and> irow_expires_at row > db_clock (w_db w) \<and>
           extract_instance_id (or_nil (get_header (rq_headers req) ''host'')) = Some (irow_id row) \<and>
           send q u = (Inr res, u') \<and> pp_body resp = pp_body res \<and>
           pq_url q = ''http://'' @ irow_cluster_ip row @ or_nil (rq_path_and_query req) \<and>
           rq_body req = Some (pq_body q) \<and> length (pq_body q) \<le> 10 * 1024 * 1024 \<and>
           (\<forall>(k, v) \<in> set (pq_headers q). (k, v) \<in> set (rq_headers req) \<and>
              k \<notin> {''authorization'', ''cookie'', ''connection'', ''keep-alive'', ''proxy-authorization'',
                 ''proxy-authenticate'', ''te'', ''trailer'', ''transfer-encoding'', ''upgrade''}))
    | Inl status \<Rightarrow> status \<noteq> 502 \<longrightarrow> u' = u"
  using proxy_effect [OF assms] unfolding stripped_set MAX_PROXY_BODY_def .

lemma map_of_insert_header: "map_of (insert_header kv hs) = (map_of hs)(fst kv \<mapsto> snd kv)"
proof -
  have "map_of (filter (\<lambda>(k, _). k \<noteq> fst kv) hs) = (map_of hs)(fst kv := None)"
    by (induction hs) (auto simp: fun_eq_iff)
  then show ?thesis by (simp add: insert_header_def map_of_append fun_eq_iff map_add_def split: option.split)
qed

lemma fold_insert_header:
  "map_of (fold insert_header hs acc) = map_of acc ++ map_of (rev hs)"
  "distinct (map fst acc) \<Longrightarrow> distinct (map fst (fold insert_header hs acc))"
proof (induction hs arbitrary: acc)
  case (Cons kv hs)
  case 1
  from Cons(1) [of "insert_header kv acc"] show ?case
    by (simp add: map_of_insert_header fun_eq_iff map_add_def split: option.split)
next
  case (Cons kv hs)
  case 2
  then have "distinct (map fst (insert_header kv acc))"
    by (auto simp: insert_header_def distinct_map_filter)
  with Cons(2) show ?case by simp
qed simp_all

text \<open>The answer of an instance loses header fields: of several fields with one name, as an answer
  that sets two cookies has, only the last is passed on.\<close>

theorem proxied_headers_collapse:
  assumes "proxy_handler send req (w, u) = (Inr resp, s')"
  shows "\<exists>q res u'. send q u = (Inr res, u') \<and> distinct (map fst (pp_headers resp)) \<and>
    (\<forall>k. map_of (pp_headers resp) k = map_of (rev (pp_headers res)) k)"
proof -
  have "\<exists>q res u'. send q u = (Inr res, u') \<and> pp_headers resp = fold insert_header (pp_headers res) []"
    using assms
    by (fastforce simp: proxy_handler_def map_err_Inr on_fst_eq on_snd_eq split: option.splits if_splits
        elim!: try_await_ok_cases)
  then show ?thesis using fold_insert_header [where acc = "[]"] by fastforce
qed

end
