(* ===== verification/Startup.thy ===== *)
theory Startup
  imports Accounts Notices Gateway
begin

text \<open>
  The start of the process, \<open>src/src/main.rs\<close>: the environment and the stored configuration become the
  services. Opening the store, which connects and creates the tables that are missing, is a
  parameter, as is the parser of \<open>brackets.json\<close>.
\<close>

section \<open>Settings\<close>

record catcher_config =
  cc_path :: string
  cc_secret :: "string option"
  cc_max_body_bytes :: nat

definition default_catcher :: catcher_config where
  "default_catcher =
     \<lparr>cc_path = ''/api/v1/_inbound/email'', cc_secret = None, cc_max_body_bytes = 10 * 1024 * 1024\<rparr>"

text \<open>\<open>brackets.json\<close> if it can be read, one that does not parse being empty; else one script.\<close>

definition load_bracket_scripts ::
    "(string \<Rightarrow> (string \<rightharpoonup> string) option) \<Rightarrow> string option \<Rightarrow> (string \<rightharpoonup> string)" where
  "load_bracket_scripts parse content =
     (case content of
        Some text \<Rightarrow> (case parse text of Some scripts \<Rightarrow> scripts | None \<Rightarrow> Map.empty)
      | None \<Rightarrow> [''Collegiate'' \<mapsto> ''email.ends_with('' @ [CHR 0x22] @ ''.edu'' @ [CHR 0x22] @ '')''])"

definition configured_storage :: "(string \<rightharpoonup> string) \<Rightarrow> ctf_config \<Rightarrow> chosen_storage" where
  "configured_storage env cfg =
     build_storage (env ''RCLONE_DRIVE_ROOT_FOLDER_ID'')
       (case env ''RCLONE_REMOTE'' of
          Some remote \<Rightarrow> if remote \<noteq> [] then Rclone remote (or_nil (env ''RCLONE_PATH'')) else storage cfg
        | None \<Rightarrow> storage cfg)"

definition oauth_settings :: "(string \<rightharpoonup> string) \<Rightarrow> oauth_config" where
  "oauth_settings env =
     \<lparr>oa_client_id = or_nil (env ''CTFTIME_CLIENT_ID''), oa_client_secret = or_nil (env ''CTFTIME_CLIENT_SECRET''),
      oa_redirect_uri = or_nil (env ''CTFTIME_REDIRECT_URI'')\<rparr>"

section \<open>Starting\<close>

datatype start_stop = MissingVariable string | StoreFailed string | ConfigFailed service_error

record 'j server =
  up_app :: "'j app"
  up_oauth :: oauth_config
  up_scoreboard :: "'j db scoreboard_service"
  up_storage :: chosen_storage
  up_max_bytes :: u64
  up_webhook :: "catcher_config option"
  up_bind_addr :: string

definition services ::
    "(string \<rightharpoonup> string) \<Rightarrow> (string \<rightharpoonup> string) \<Rightarrow> 'j serde \<Rightarrow> ext \<Rightarrow> crypto \<Rightarrow> string \<Rightarrow> ctf_config \<Rightarrow> 'j server" where
  "services env scripts J X K jwt_secret cfg =
     \<lparr>up_app = \<lparr>ap_serde = J, ap_ext = X, ap_crypto = K, ap_jwt_secret = jwt_secret,
        ap_hint_mode = hint_deduction_mode cfg, ap_notifications = notifications cfg, ap_brackets = scripts\<rparr>,
      up_oauth = oauth_settings env,
      up_scoreboard = pg_scoreboard_service J (sort_by_accuracy cfg) (freeze_time cfg) (hint_deduction_mode cfg),
      up_storage = configured_storage env cfg, up_max_bytes = max_upload_bytes cfg,
      up_webhook = map_option (\<lambda>s. default_catcher\<lparr>cc_secret := Some s\<rparr>) (inbound_secret (env ''INBOUND_EMAIL_SECRET'')),
      up_bind_addr = (case env ''BIND_ADDR'' of Some a \<Rightarrow> a | None \<Rightarrow> ''0.0.0.0:8080'')\<rparr>"

definition start_server ::
    "('j db, string, unit) act \<Rightarrow> (string \<rightharpoonup> string) \<Rightarrow> (string \<rightharpoonup> string) \<Rightarrow> 'j serde \<Rightarrow> ext \<Rightarrow> crypto \<Rightarrow>
     ('j db, start_stop, 'j server) act" where
  "start_server open_store env scripts J X K =
     (case env ''DATABASE_URL'' of
        None \<Rightarrow> fail (MissingVariable ''DATABASE_URL'')
      | Some _ \<Rightarrow>
          (case env ''JWT_SECRET'' of
             None \<Rightarrow> fail (MissingVariable ''JWT_SECRET'')
           | Some jwt_secret \<Rightarrow>
               try_await (map_err StoreFailed open_store) (\<lambda>_.
               try_await (map_err ConfigFailed (config_get (pg_config_repo J))) (\<lambda>cfg.
               ret (services env scripts J X K jwt_secret cfg)))))"

text \<open>
  The services keep the configuration they were started with; a configuration that was saved
  takes effect with the next start.
\<close>

theorem restart_applies_the_saved_configuration:
  assumes "config_update (pg_config_repo J) cfg s = (Inr u, s1)"
    and "config_from J (config_to J cfg) = Inr cfg" "keeps db_config open_store"
    and "start_server open_store env scripts J X K s1 = (Inr S, s2)"
  shows "\<exists>secret. env ''JWT_SECRET'' = Some secret \<and> S = services env scripts J X K secret cfg"
proof -
  obtain secret s0 c where start: "env ''JWT_SECRET'' = Some secret" "open_store s1 = (Inr (), s0)"
    "pg_config_get J s0 = (Inr c, s2)" "S = services env scripts J X K secret c"
    using assms(4)
    by (auto simp: start_server_def config_get_def repo_call_Inr map_err_Inr pg_config_repo_def
        split: option.splits elim!: try_await_ok_cases)
  have "db_config s1 = Some (config_to J cfg)"
    using assms(1) unfolding config_update_def pg_config_repo_def pg_config_set_def
    by (auto simp: repo_call_Inr elim!: try_await_ok_cases change_cases)
  then have "db_config s0 = Some (config_to J cfg)" using keepsD [OF assms(3) start(2)] by simp
  with start(3) assms(2) have "c = cfg"
    unfolding pg_config_get_def by (auto elim!: try_await_ok_cases select_cases split: option.splits sum.splits)
  with start show ?thesis by blast
qed

end
