(* ===== verification/Delivery.thy ===== *)
theory Delivery
  imports Mailer
begin

text \<open>
  The sender and the catcher composed: what a session of the sender writes, byte for byte, and
  what the catcher makes of those bytes. A message arrives with the subject, the addresses and
  the body it was sent with, whatever they contain: no header can be injected, and no line of
  the body ends the data early.
\<close>

section \<open>What the sender writes\<close>

text \<open>An action that succeeds on a connection without faults writes exactly \<open>w\<close>.\<close>

definition writes :: "('s \<Rightarrow> socket) \<Rightarrow> string \<Rightarrow> ('s, mail_stop, 'a) act \<Rightarrow> bool" where
  "writes p w m \<longleftrightarrow>
     (\<forall>s x s'. sk_faults (p s) = [] \<longrightarrow> m s = (Inr x, s') \<longrightarrow>
        sk_faults (p s') = [] \<and> sk_out (p s') = sk_out (p s) @ w)"

lemma writesD:
  assumes "writes p w m" "sk_faults (p s) = []" "m s = (Inr x, s')"
  shows "sk_faults (p s') = [] \<and> sk_out (p s') = sk_out (p s) @ w"
  using assms unfolding writes_def by blast

lemma writes_ret [intro]: "writes p [] (ret x)"
  by (simp add: writes_def)

lemma writes_fail [intro]: "writes p w (fail e)"
  by (simp add: writes_def)

lemma writes_try_await:
  assumes "writes p a m" "\<And>x. writes p b (k x)"
  shows "writes p (a @ b) (try_await m k)"
  unfolding writes_def
proof (intro allI impI)
  fix s y s'
  assume s: "sk_faults (p s) = []" and run: "try_await m k s = (Inr y, s')"
  from run obtain x s1 where 1: "m s = (Inr x, s1)" and 2: "k x s1 = (Inr y, s')"
    by (rule try_await_ok_cases)
  have s1: "sk_faults (p s1) = []" "sk_out (p s1) = sk_out (p s) @ a" using writesD [OF assms(1) s 1] by simp_all
  show "sk_faults (p s') = [] \<and> sk_out (p s') = sk_out (p s) @ a @ b"
    using writesD [OF assms(2) s1(1) 2] s1(2) by simp
qed

lemma writes_then:
  assumes "writes p a m" "\<And>x. writes p b (k x)" "c = a @ b"
  shows "writes p c (try_await m k)"
  unfolding assms(3) by (rule writes_try_await [OF assms(1,2)])

lemma writes_if: "(b \<Longrightarrow> writes p w m) \<Longrightarrow> (\<not> b \<Longrightarrow> writes p w n) \<Longrightarrow> writes p w (if b then m else n)"
  by simp

lemma writes_all: "writes id b (write_all b)"
  by (auto simp: writes_def write_all_def sock_op_def map_err_def Let_def put_bytes_def)

lemma writes_flush: "writes id [] flush"
  by (auto simp: writes_def flush_def sock_op_def map_err_def Let_def)

lemma writes_line: "writes id (l @ CRLF) (write_line l)"
  unfolding write_line_def
  by (rule writes_then [OF writes_all writes_then [OF writes_all writes_then [OF writes_flush writes_ret]]]) simp_all

lemma read_line_quiet: "sk_faults k = [] \<Longrightarrow> read_line k = (r, k') \<Longrightarrow> sk_faults k' = [] \<and> sk_out k' = sk_out k"
  by (auto simp: read_line_def sock_op_def map_err_def Let_def split: if_splits)

lemma read_reply_quiet:
  "sk_faults k = [] \<Longrightarrow> read_reply lines k = (r, k') \<Longrightarrow> sk_faults k' = [] \<and> sk_out k' = sk_out k"
proof (induction lines k arbitrary: r rule: read_reply.induct)
  case (1 lines k)
  obtain l k1 where l: "read_line k = (l, k1)" by (cases "read_line k")
  have quiet: "sk_faults k1 = []" "sk_out k1 = sk_out k" using read_line_quiet [OF "1.prems"(1) l] by simp_all
  show ?case
  proof (cases l)
    case (Inl e)
    with "1.prems" l quiet show ?thesis by (simp add: read_reply.simps [of lines k])
  next
    case (Inr line)
    with "1.prems" l have run: "(if line = [] then (Inl (Failed UnexpectedEof), k1)
          else if length (trim_crlf line) < 3 then (Inl (Failed InvalidResponse), k1)
          else if \<not> boundary 3 (trim_crlf line) then (Inl Panicked, k1)
          else case parse_code (take 3 (trim_crlf line)) of
              None \<Rightarrow> (Inl (Failed InvalidResponse), k1)
            | Some code \<Rightarrow>
                if length (trim_crlf line) = 3 \<or> trim_crlf line ! 3 = CHR '' ''
                then (Inr (code, lines @ [trim_crlf line]), k1)
                else read_reply (lines @ [trim_crlf line]) k1) = (r, k')"
      by (simp add: read_reply.simps [of lines k])
    show ?thesis
    proof (cases "k1 = k'")
      case False
      with run have "read_reply (lines @ [trim_crlf line]) k1 = (r, k')"
        and "line \<noteq> []" "\<not> length (trim_crlf line) < 3" "\<not> \<not> boundary 3 (trim_crlf line)"
        and "\<exists>code. parse_code (take 3 (trim_crlf line)) = Some code \<and>
          \<not> (length (trim_crlf line) = 3 \<or> trim_crlf line ! 3 = CHR '' '')"
        by (auto split: if_splits option.splits)
      with "1.IH" [OF l [symmetric] Inr] quiet show ?thesis by metis
    qed (use quiet in simp)
  qed
qed

lemma writes_reply: "writes id [] (read_reply lines)"
  unfolding writes_def by (auto dest: read_reply_quiet)

lemma writes_command: "writes id (l @ CRLF) (command l expected phase)"
  unfolding command_def
  by (rule writes_then [OF writes_line writes_then [OF writes_reply]]) (auto split: prod.split)

lemma writes_stream: "writes id w m \<Longrightarrow> writes st_sock w (on_stream m)"
  unfolding writes_def [of st_sock]
proof (intro allI impI)
  fix s x s' assume w: "writes id w m" "sk_faults (st_sock s) = []" and run: "on_stream m s = (Inr x, s')"
  then have "m (st_sock s) = (Inr x, st_sock s')" by (auto simp: on_stream_def split: prod.splits)
  from writesD [OF w(1) _ this] w(2)
  show "sk_faults (st_sock s') = [] \<and> sk_out (st_sock s') = sk_out (st_sock s) @ w" by simp
qed

lemma write_line_plain:
  assumes "sk_faults k = []"
  shows "write_line l k = (Inr (), k\<lparr>sk_out := sk_out k @ l @ CRLF\<rparr>)"
proof -
  have all: "write_all b j = (Inr (), j\<lparr>sk_out := sk_out j @ b\<rparr>)" and fl: "flush j = (Inr (), j)"
    if "sk_faults j = []" for b j
  proof -
    from that have "j\<lparr>sk_faults := []\<rparr> = j" by (cases j) simp
    with that show "write_all b j = (Inr (), j\<lparr>sk_out := sk_out j @ b\<rparr>)" "flush j = (Inr (), j)"
      by (simp_all add: write_all_def flush_def sock_op_def map_err_def Let_def put_bytes_def)
  qed
  show ?thesis using assms by (simp add: write_line_def try_await_def all fl)
qed

lemma writes_dropping: "writes st_sock (l @ CRLF) (dropping (on_stream (command l expected phase)))"
  unfolding writes_def
proof (intro allI impI)
  fix s u s'
  assume s: "sk_faults (st_sock s) = []" and run: "dropping (on_stream (command l expected phase)) s = (Inr u, s')"
  let ?k = "st_sock s"
  obtain u1 k1 where w: "write_line l ?k = (Inr u1, k1)" using write_line_plain [OF s] by blast
  have k1: "sk_faults k1 = []" "sk_out k1 = sk_out ?k @ l @ CRLF"
    using writesD [OF writes_line _ w] s by simp_all
  obtain r k2 where r: "read_reply [] k1 = (r, k2)" by (cases "read_reply [] k1")
  have "\<exists>r1. command l expected phase ?k = (r1, k2)"
    using w r by (cases r) (auto simp: command_def try_await_def)
  with run have "st_sock s' = k2"
    by (auto simp: dropping_def on_stream_def split: prod.splits sum.splits mail_stop.splits)
  with read_reply_quiet [OF k1(1) r] k1(2) show "sk_faults (st_sock s') = [] \<and> sk_out (st_sock s') = sk_out ?k @ l @ CRLF"
    by simp
qed

text \<open>The whole of a plain session.\<close>

definition session_text :: "smtp_client \<Rightarrow> string \<Rightarrow> string \<Rightarrow> string" where
  "session_text C to message =
     ''EHLO '' @ sm_ehlo_name C @ CRLF @ ''MAIL FROM:<'' @ sm_from_email C @ ''>'' @ CRLF @
     ''RCPT TO:<'' @ to @ ''>'' @ CRLF @ ''DATA'' @ CRLF @ message @ ''.'' @ CRLF @ ''QUIT'' @ CRLF"


text \<open>A message ends with a line end, so the sender adds none.\<close>

lemma body_ends: "ls \<noteq> [] \<Longrightarrow> \<exists>p. concat (map body_line ls) = p @ CRLF"
proof (induction ls)
  case (Cons l ls)
  show ?case
  proof (cases "ls = []")
    case True
    then have "concat (map body_line (l # ls)) = ((if prefix ''.'' (strip_cr l) then ''.'' else []) @ strip_cr l) @ CRLF"
      by (simp add: body_line_def)
    then show ?thesis by blast
  next
    case False
    with Cons.IH obtain p where "concat (map body_line ls) = p @ CRLF" by blast
    then have "concat (map body_line (l # ls)) = (body_line l @ p) @ CRLF" by simp
    then show ?thesis by blast
  qed
qed simp

lemma message_ends: "suffix CRLF (build_message date uuid from to subject body)"
proof -
  obtain p where "concat (map body_line (split_on LF body)) = p @ CRLF"
    using body_ends [OF split_on_nonempty] by blast
  then show ?thesis unfolding build_message_def suffix_def by (metis append.assoc)
qed

lemma writes_checked: "writes p [] ((\<lambda>(code :: int, _). if code \<noteq> n then fail (f code) else ret ()) x)"
  by (cases x) (simp only: prod.case, intro writes_if writes_fail writes_ret)

lemma writes_data:
  assumes "suffix CRLF message"
  shows "writes st_sock (message @ ''.'' @ CRLF) (send_data message)"
proof -
  note ending = writes_then [OF writes_stream [OF writes_flush] writes_then [OF writes_stream [OF writes_reply] writes_checked refl] refl]
  note dot = writes_then [OF writes_ret writes_then [OF writes_stream [OF writes_all] ending refl] refl]
  show ?thesis
    unfolding send_data_def if_P [OF assms]
    by (rule writes_then [OF writes_stream [OF writes_all] dot]) (simp only: append_Nil append_Nil2)
qed

lemma writes_session:
  assumes "sm_tls_mode C = NoTls" "sm_credentials C = None"
  shows "writes st_sock (session_text C to (build_message date uuid (sm_from_email C) to subject body))
    (session X b64 date uuid C to subject body)"
proof -
  note quit = writes_then [OF writes_dropping writes_ret refl]
  note rest = writes_then [OF writes_data [OF message_ends] quit refl]
  note envelope = writes_then [OF writes_stream [OF writes_command] writes_then [OF writes_stream [OF writes_command]
      writes_then [OF writes_stream [OF writes_command] rest refl] refl] refl]
  note all = writes_then [OF writes_stream [OF writes_command]
      writes_then [OF writes_ret writes_then [OF writes_ret envelope refl] refl] refl]
  have greeted: "writes p w ((\<lambda>(code :: int, _). if code \<noteq> n then fail (f code) else m) x)" if "writes p w m"
    for p :: "stream \<Rightarrow> socket" and w n f x and m :: "(stream, mail_stop, unit) act"
    using that by (cases x) (simp only: prod.case, intro writes_if writes_fail)
  have plain: "(if NoTls = StartTls then a else b) = b" for a b :: "(stream, mail_stop, string list) act" by simp
  show ?thesis
    unfolding session_def secure_def authenticate_def assms plain option.case
    by (rule writes_then [OF writes_stream [OF writes_reply] greeted [OF all]])
       (simp only: session_text_def append_Nil append_Nil2 append_assoc)
qed


section \<open>What the catcher reads\<close>

abbreviation plain :: "string \<Rightarrow> string \<Rightarrow> socket" where
  "plain inp out \<equiv> \<lparr>sk_in = inp, sk_out = out, sk_faults = []\<rparr>"

abbreviation conn :: "string \<Rightarrow> string \<Rightarrow> email list \<Rightarrow> catcher" where
  "conn inp out mb \<equiv> \<lparr>ct_sock = plain inp out, ct_mailbox = mb\<rparr>"

lemma read_line_plain:
  assumes "LF \<notin> set l" "utf8_valid l"
  shows "read_line (plain (l @ CRLF @ rest) out) = (Inr (l @ CRLF), plain rest out)"
proof -
  have "takeWhile (\<lambda>c. c \<noteq> LF) (l @ CRLF @ rest) = l @ [CR]" using assms(1) by (subst takeWhile_append2) auto
  then have "next_line (l @ CRLF @ rest) = l @ CRLF" by (simp add: next_line_def Let_def)
  moreover have "utf8_valid (l @ CRLF)" using assms(2) by (simp add: utf8_append)
  ultimately show ?thesis by (simp add: read_line_def sock_op_def map_err_def Let_def)
qed

lemma trim_end_of_Nil [simp]: "trim_end_of cs [] = []"
  by (simp add: trim_end_of.simps)

lemma trim_end_of_snoc: "trim_end_of cs (s @ [c]) = (if c \<in> cs then trim_end_of cs s else s @ [c])"
  by (simp add: trim_end_of.simps)

lemma trim_end_of_Cons: "c \<notin> cs \<Longrightarrow> trim_end_of cs (c # s) = c # trim_end_of cs s"
proof (induction s rule: rev_induct)
  case (snoc x s)
  then show ?case using trim_end_of_snoc [of cs "c # s" x] by (auto simp: trim_end_of_snoc)
qed (simp add: trim_end_of.simps)

lemma trim_end_of_prefix: "\<exists>t. s = trim_end_of cs s @ t \<and> set t \<subseteq> cs"
proof (induction s rule: rev_induct)
  case (snoc c s)
  then obtain t where t: "s = trim_end_of cs s @ t" "set t \<subseteq> cs" by blast
  show ?case
  proof (cases "c \<in> cs")
    case True
    with t have "s @ [c] = trim_end_of cs (s @ [c]) @ (t @ [c])" "set (t @ [c]) \<subseteq> cs"
      by (simp_all add: trim_end_of_snoc flip: append_assoc)
    then show ?thesis by blast
  qed (simp add: trim_end_of_snoc)
qed simp

lemma trim_end_of_id: "s = [] \<or> last s \<notin> cs \<Longrightarrow> trim_end_of cs s = s"
  by (cases s rule: rev_cases) (simp_all add: trim_end_of_snoc)

lemma trim_end_of_last: "trim_end_of cs s \<noteq> [] \<Longrightarrow> last (trim_end_of cs s) \<notin> cs"
  by (induction s rule: rev_induct) (auto simp: trim_end_of_snoc)

lemma trim_crlf_line [simp]: "trim_crlf (l @ CRLF) = trim_crlf l"
  using trim_end_of_snoc [of "{CR, LF}" "l @ [CR]" LF] by (simp add: trim_end_of_snoc)

lemma trim_crlf_strip: "trim_crlf (strip_cr l) = trim_crlf l"
  by (cases l rule: rev_cases) (auto simp: strip_cr_def trim_end_of_snoc)

text \<open>Dot stuffing is undone, and no stuffed line is the end of the data.\<close>

definition stuffed :: "string \<Rightarrow> string" where
  "stuffed raw = (if prefix ''.'' (strip_cr raw) then ''.'' else []) @ strip_cr raw"

lemma body_line_stuffed: "body_line raw = stuffed raw @ CRLF"
  by (simp add: body_line_def stuffed_def)

lemma trim_stuffed:
  "trim_crlf (stuffed raw) = (if prefix ''.'' (strip_cr raw) then CHR ''.'' # trim_crlf raw else trim_crlf raw)"
  by (simp add: stuffed_def trim_end_of_Cons trim_crlf_strip)

lemma stuffed_back: "unstuff (trim_crlf (stuffed raw)) = trim_crlf raw \<and> trim_crlf (stuffed raw) \<noteq> ''.''"
proof (cases "prefix ''.'' (strip_cr raw)")
  case True
  then obtain s where "strip_cr raw = CHR ''.'' # s" by (auto simp: prefix_def)
  then have "trim_crlf (strip_cr raw) \<noteq> []" by (simp add: trim_end_of_Cons)
  then have "trim_crlf raw \<noteq> []" unfolding trim_crlf_strip .
  with True show ?thesis by (simp add: trim_stuffed unstuff_def)
next
  case False
  have "\<not> prefix ''.'' (trim_crlf raw)"
    using False trim_end_of_prefix [of "strip_cr raw" "{CR, LF}"] unfolding trim_crlf_strip
    by (metis prefix_order.trans prefixI)
  then show ?thesis using False by (cases "trim_crlf raw") (auto simp: trim_stuffed unstuff_def)
qed

definition caught_lines :: "string list \<Rightarrow> string" where
  "caught_lines ls = concat (map (\<lambda>l. l @ [LF]) ls)"

lemma read_data_step:
  assumes "read_line k = (Inr line, k')" "line \<noteq> []"
  shows "read_data data k =
    (if trim_crlf line = ''.'' then (Inr data, k')
     else if length data + length (unstuff (trim_crlf line)) + 1 > MAX_MESSAGE_BYTES
     then (Inl (Failed MessageTooLarge), k')
     else read_data (data @ unstuff (trim_crlf line) @ [LF]) k')"
  using assms by (simp add: read_data.simps [of data k])

lemma read_data_plain:
  assumes "\<forall>l \<in> set ls. LF \<notin> set l \<and> utf8_valid l \<and> trim_crlf l \<noteq> ''.''"
    and "length data + length (concat (map (\<lambda>l. l @ CRLF) ls)) \<le> MAX_MESSAGE_BYTES"
  shows "read_data data (plain (concat (map (\<lambda>l. l @ CRLF) ls) @ ''.'' @ CRLF @ rest) out) =
    (Inr (data @ caught_lines (map (\<lambda>l. unstuff (trim_crlf l)) ls)), plain rest out)"
  using assms
proof (induction ls arbitrary: data)
  case Nil
  have "read_line (plain (''.'' @ CRLF @ rest) out) = (Inr (''.'' @ CRLF), plain rest out)"
    by (rule read_line_plain) simp_all
  then have "read_data data (plain (''.'' @ CRLF @ rest) out) = (Inr data, plain rest out)"
  proof (rule trans [OF read_data_step if_P])
    show "trim_crlf (''.'' @ CRLF) = ''.''" unfolding trim_crlf_line by (rule trim_end_of_id) simp
  qed simp
  then show ?case by (simp add: caught_lines_def)
next
  case (Cons l ls)
  let ?rest = "concat (map (\<lambda>l. l @ CRLF) ls) @ ''.'' @ CRLF @ rest"
  have rl: "read_line (plain (l @ CRLF @ ?rest) out) = (Inr (l @ CRLF), plain ?rest out)"
    by (rule read_line_plain) (use Cons.prems in simp_all)
  have "length (unstuff (trim_crlf l)) \<le> length l"
  proof -
    have "length (trim_crlf l) \<le> length l" using trim_end_of_prefix [of l] by (metis le_add1 length_append)
    moreover have "length (unstuff s) \<le> length s" for s by (cases s) (simp_all add: unstuff_def)
    ultimately show ?thesis by (meson le_trans)
  qed
  moreover from Cons.prems(2) have "length data + (length l + 2) + length (concat (map (\<lambda>l. l @ CRLF) ls)) \<le> MAX_MESSAGE_BYTES"
    by simp
  ultimately have small: "\<not> length data + length (unstuff (trim_crlf l)) + 1 > MAX_MESSAGE_BYTES"
    and next_small: "length (data @ unstuff (trim_crlf l) @ [LF]) + length (concat (map (\<lambda>l. l @ CRLF) ls)) \<le> MAX_MESSAGE_BYTES"
    by simp_all
  have "read_data data (plain (l @ CRLF @ ?rest) out) = read_data (data @ unstuff (trim_crlf l) @ [LF]) (plain ?rest out)"
    using small Cons.prems(1) by (subst read_data_step [OF rl]) simp_all
  also have "\<dots> = (Inr ((data @ unstuff (trim_crlf l) @ [LF]) @ caught_lines (map (\<lambda>l. unstuff (trim_crlf l)) ls)), plain rest out)"
    by (rule Cons.IH [OF _ next_small]) (use Cons.prems(1) in simp)
  finally show ?case by (simp add: caught_lines_def)
qed


section \<open>Headers\<close>

fun crlf_free :: "string \<Rightarrow> bool" where
  "crlf_free (c # d # s) = ((c = CR \<longrightarrow> d \<noteq> LF) \<and> crlf_free (d # s))"
| "crlf_free _ = True"

lemma crlf_free_no_lf: "LF \<notin> set l \<Longrightarrow> crlf_free l"
  by (induction l rule: crlf_free.induct) auto

lemma crlf_free_line: "LF \<notin> set l \<Longrightarrow> l = [] \<or> last l \<noteq> CR \<Longrightarrow> crlf_free s \<Longrightarrow> crlf_free (l @ LF # s)"
proof (induction l)
  case Nil
  then show ?case by (cases s) simp_all
next
  case (Cons c l)
  then show ?case by (cases l) (auto split: if_splits)
qed

lemma crlf_free_split: "crlf_free s \<Longrightarrow> split_once (CR # LF # p) s = None"
  by (induction s rule: crlf_free.induct) (auto simp: prefix_Cons)

lemma split_blank_line:
  "h \<noteq> [] \<Longrightarrow> LF \<notin> set h \<Longrightarrow>
     split_once [LF, LF] (h @ LF # s) =
       (if prefix [LF] s then Some (h, tl s)
        else map_option (\<lambda>(a, b). (h @ LF # a, b)) (split_once [LF, LF] s))"
proof (induction h)
  case (Cons c h)
  show ?case
  proof (cases "h = []")
    case True
    with Cons.prems show ?thesis by (cases s; cases "split_once [LF, LF] s") auto
  next
    case False
    with Cons show ?thesis by (cases "split_once [LF, LF] s") auto
  qed
qed simp

lemma split_headers:
  "hs \<noteq> [] \<Longrightarrow> \<forall>h \<in> set hs. h \<noteq> [] \<and> LF \<notin> set h \<Longrightarrow>
     split_once [LF, LF] (caught_lines hs @ LF # body) = Some (join LF hs, body)"
proof (induction hs)
  case (Cons h hs)
  show ?case
  proof (cases "hs = []")
    case True
    with Cons.prems show ?thesis by (simp add: caught_lines_def split_blank_line)
  next
    case False
    then obtain g gs where hs: "hs = g # gs" by (cases hs) auto
    with Cons.prems have "\<not> prefix [LF] (caught_lines hs @ LF # body)" by (cases g) (auto simp: caught_lines_def)
    moreover have "split_once [LF, LF] (caught_lines hs @ LF # body) = Some (join LF hs, body)"
      using Cons False by simp
    ultimately show ?thesis using Cons.prems split_blank_line [of h "caught_lines hs @ LF # body"]
      by (simp add: caught_lines_def hs)
  qed
qed simp

lemma lines_of_join: "hs \<noteq> [] \<Longrightarrow> \<forall>h \<in> set hs. h \<noteq> [] \<and> LF \<notin> set h \<and> CR \<notin> set h \<Longrightarrow> lines_of (join LF hs) = hs"
proof -
  have "split_on LF (join LF hs) = hs" if "hs \<noteq> []" "\<forall>h \<in> set hs. LF \<notin> set h" for hs
    using that
  proof (induction hs rule: join.induct)
    case (3 d p q ps)
    then show ?case by (simp add: split_on_append)
  qed (simp_all add: split_on_none)
  moreover assume hs: "hs \<noteq> []" "\<forall>h \<in> set hs. h \<noteq> [] \<and> LF \<notin> set h \<and> CR \<notin> set h"
  ultimately have "split_on LF (join LF hs) = hs" by simp
  moreover have "strip_cr h = h" if "h \<in> set hs" for h
  proof -
    from hs(2) that have "h \<noteq> []" "CR \<notin> set h" by simp_all
    then have "last h \<noteq> CR" by (metis last_in_set)
    then show ?thesis by (simp add: strip_cr_def)
  qed
  then have "map strip_cr (butlast hs) = butlast hs" by (intro map_idI) (auto dest: in_set_butlastD)
  moreover from hs have "last hs \<noteq> []" by simp
  ultimately show "lines_of (join LF hs) = hs"
    using append_butlast_last_id [OF hs(1)] by (simp add: lines_of_def)
qed


text \<open>The message as a list of lines.\<close>

definition header_lines :: "string \<Rightarrow> string \<Rightarrow> string \<Rightarrow> string \<Rightarrow> string \<Rightarrow> string list" where
  "header_lines date uuid from to subject =
     [''From: '' @ header_safe from, ''To: '' @ header_safe to, ''Subject: '' @ header_safe subject,
      ''Date: '' @ date, ''Message-ID: '' @ ''<'' @ uuid @ ''@'' @ domain_of from @ ''>'',
      ''MIME-Version: 1.0'', ''Content-Type: text/plain; charset=utf-8'']"

lemma message_lines:
  "build_message date uuid from to subject body =
     concat (map (\<lambda>l. l @ CRLF) (header_lines date uuid from to subject @ [[]] @ map stuffed (split_on LF body)))"
  by (simp add: build_message_def header_lines_def body_line_stuffed [abs_def] comp_def)

text \<open>A part of a message is a line of text: no line feed, no carriage return, well-formed.\<close>

definition text_line :: "string \<Rightarrow> bool" where
  "text_line s \<longleftrightarrow> LF \<notin> set s \<and> CR \<notin> set s \<and> utf8_valid s"

lemma text_line_append: "text_line a \<Longrightarrow> text_line b \<Longrightarrow> text_line (a @ b)"
  by (simp add: text_line_def utf8_append)

lemma text_line_Cons: "byte c < 128 \<Longrightarrow> c \<noteq> LF \<Longrightarrow> c \<noteq> CR \<Longrightarrow> text_line (c # s) \<longleftrightarrow> text_line s"
  by (auto simp: text_line_def)

lemma utf8_header_safe: "utf8_valid s \<Longrightarrow> utf8_valid (header_safe s)"
proof (induction "length s" arbitrary: s rule: less_induct)
  case less
  show ?case
  proof (cases "\<exists>c \<in> set s. c = CR \<or> c = LF")
    case False
    then have "header_safe s = s" by (auto simp: header_safe_def intro!: filter_True)
    with less.prems show ?thesis by simp
  next
    case True
    then obtain a c b where s: "s = a @ c # b" "c = CR \<or> c = LF" "\<forall>x \<in> set a. \<not> (x = CR \<or> x = LF)"
      by (rule split_list_first_propE)
    have "filter (\<lambda>c. c \<noteq> CR \<and> c \<noteq> LF) a = a" using s(3) by (intro filter_True) simp
    then have "header_safe s = a @ header_safe b" using s(2) by (auto simp: header_safe_def s(1))
    moreover from s(2) have "byte c < 128" by auto
    then have "utf8_valid a \<and> utf8_valid b" using less.prems unfolding s(1) by (simp add: utf8_cut)
    moreover from s(1) have "length b < length s" by simp
    ultimately show ?thesis using less.hyps [of b] by (simp add: utf8_append)
  qed
qed

lemma text_line_header_safe: "utf8_valid s \<Longrightarrow> text_line (header_safe s)"
  using utf8_header_safe [of s] by (auto simp: text_line_def header_safe_def)

lemma header_safe_id: "text_line s \<Longrightarrow> header_safe s = s"
  by (auto simp: text_line_def header_safe_def intro!: filter_True)

lemma utf8_split: "utf8_valid s \<Longrightarrow> l \<in> set (split_on LF s) \<Longrightarrow> utf8_valid l"
proof (induction "length s" arbitrary: s rule: less_induct)
  case less
  show ?case
  proof (cases "LF \<in> set s")
    case False
    with less.prems show ?thesis by (simp add: split_on_none)
  next
    case True
    then obtain a b where s: "s = a @ LF # b" "LF \<notin> set a" by (metis split_list_first)
    with less.prems have "l = a \<or> l \<in> set (split_on LF b)" "utf8_valid a" "utf8_valid b"
      by (auto simp: split_on_append utf8_cut)
    with less.hyps [of b] s(1) show ?thesis by auto
  qed
qed

lemma utf8_stuffed: "utf8_valid l \<Longrightarrow> utf8_valid (stuffed l)"
proof -
  assume l: "utf8_valid l"
  have "utf8_valid (strip_cr l)"
  proof (cases "l \<noteq> [] \<and> last l = CR")
    case True
    then have "l = butlast l @ [CR]" by (metis append_butlast_last_id)
    with l True show ?thesis using utf8_cut [of CR "butlast l" "[]"] by (simp add: strip_cr_def)
  qed (use l in \<open>auto simp: strip_cr_def\<close>)
  then show ?thesis by (simp add: stuffed_def)
qed

lemma utf8_domain: "utf8_valid from \<Longrightarrow> utf8_valid (domain_of from)"
proof (cases "CHR ''@'' \<in> set from")
  case True
  assume from_ok: "utf8_valid from"
  from True obtain a b where f: "from = a @ CHR ''@'' # b" "CHR ''@'' \<notin> set b" by (metis split_list_last)
  have "takeWhile (\<lambda>c. c \<noteq> CHR ''@'') (rev b @ CHR ''@'' # rev a) = rev b"
    using f(2) by (subst takeWhile_append2) auto
  then have "rev (takeWhile (\<lambda>c. c \<noteq> CHR ''@'') (rev from)) = b" unfolding f(1) by simp
  moreover have "utf8_valid b" using from_ok unfolding f(1) by (simp add: utf8_cut)
  moreover have "utf8_valid ''localhost''" by simp
  ultimately show ?thesis by (simp add: domain_of_def)
qed (simp add: domain_of_def)


lemma caught_lines_simps [simp]: "caught_lines [] = []" "caught_lines (l # ls) = l @ LF # caught_lines ls"
  "caught_lines (ls @ ms) = caught_lines ls @ caught_lines ms"
  by (simp_all add: caught_lines_def)

lemma crlf_free_caught: "\<forall>l \<in> set ls. LF \<notin> set l \<and> (l = [] \<or> last l \<noteq> CR) \<Longrightarrow> crlf_free (caught_lines ls)"
  by (induction ls) (simp_all add: crlf_free_line)

lemma header_lines_text:
  assumes "utf8_valid from" "utf8_valid to" "utf8_valid subject" "text_line date" "text_line uuid" "text_line from"
  shows "\<forall>h \<in> set (header_lines date uuid from to subject). text_line h \<and> h \<noteq> [] \<and> hd h \<noteq> CHR ''.''"
proof -
  have dom: "text_line (domain_of from)"
  proof -
    have "set (domain_of from) \<subseteq> set from \<union> set ''localhost''"
      by (auto simp: domain_of_def Let_def dest: set_takeWhileD)
    with assms(6) utf8_domain [OF assms(1)] show ?thesis by (auto simp: text_line_def)
  qed
  have "text_line (uuid @ ''@'' @ domain_of from @ ''>'')"
    using assms(5) dom by (intro text_line_append) (simp_all add: text_line_def)
  with assms show ?thesis by (simp add: header_lines_def text_line_Cons text_line_header_safe)  (simp add: text_line_def)
qed

text \<open>The body as it arrives: the same lines, without carriage returns at their ends.\<close>

definition caught_body :: "string \<Rightarrow> string" where
  "caught_body body = caught_lines (map (\<lambda>l. trim_crlf l) (split_on LF body))"

lemma trim_text_line: "text_line h \<Longrightarrow> trim_crlf h = h"
  by (rule trim_end_of_id) (simp add: text_line_def, metis last_in_set)

lemma caught_message:
  assumes "\<forall>h \<in> set hs. text_line h \<and> h \<noteq> [] \<and> hd h \<noteq> CHR ''.''"
  shows "caught_lines (map (\<lambda>l. unstuff (trim_crlf l)) (hs @ [[]] @ map stuffed ls)) =
    caught_lines hs @ LF # caught_lines (map (\<lambda>l. trim_crlf l) ls)"
proof -
  have "map (\<lambda>l. unstuff (trim_crlf l)) hs = hs"
  proof (rule map_idI)
    fix h assume "h \<in> set hs"
    with assms have h: "text_line h" "h \<noteq> []" "hd h \<noteq> CHR ''.''" by simp_all
    then show "unstuff (trim_crlf h) = h" by (cases h) (simp_all add: trim_text_line unstuff_def)
  qed
  moreover have "unstuff [] = []" by (simp add: unstuff_def)
  ultimately show ?thesis by (simp add: stuffed_back comp_def)
qed

lemma trimmed_piece:
  assumes "l \<in> set (split_on LF body)"
  shows "LF \<notin> set (trim_crlf l) \<and> (trim_crlf l = [] \<or> last (trim_crlf l) \<noteq> CR)"
proof -
  obtain t where "l = trim_crlf l @ t" using trim_end_of_prefix by blast
  moreover have "LF \<notin> set l" using split_on_pieces [OF assms] by simp
  ultimately have "LF \<notin> set (trim_crlf l)" by (metis Un_iff set_append)
  then show ?thesis using trim_end_of_last [of "{CR, LF}" l] by auto
qed

lemma header_names:
  "same_ignoring_case (trim ''From'') ''From''" "\<not> same_ignoring_case (trim ''From'') ''To''"
  "\<not> same_ignoring_case (trim ''From'') ''Subject''" "same_ignoring_case (trim ''To'') ''To''"
  "\<not> same_ignoring_case (trim ''To'') ''Subject''" "same_ignoring_case (trim ''Subject'') ''Subject''"
  by code_simp+

lemma parse_caught:
  assumes hs: "\<forall>h \<in> set (header_lines date uuid from to subject). text_line h \<and> h \<noteq> [] \<and> hd h \<noteq> CHR ''.''"
  shows "parse_email i now ef rcpts (caught_lines (header_lines date uuid from to subject) @ LF # caught_body body) =
    \<lparr>em_id = i, em_from = trim (header_safe from), em_to = trim (header_safe to),
     em_subject = trim (header_safe subject), em_body = caught_body body, em_timestamp = now\<rparr>"
proof -
  let ?hs = "header_lines date uuid from to subject"
  let ?raw = "caught_lines ?hs @ LF # caught_body body"
  have lines: "\<forall>h \<in> set ?hs. h \<noteq> [] \<and> LF \<notin> set h \<and> CR \<notin> set h" and ne: "?hs \<noteq> []"
    using hs by (auto simp: text_line_def header_lines_def)
  have "crlf_free (caught_lines (?hs @ [[]] @ map (\<lambda>l. trim_crlf l) (split_on LF body)))"
  proof (rule crlf_free_caught, intro ballI)
    fix l assume "l \<in> set (?hs @ [[]] @ map (\<lambda>l. trim_crlf l) (split_on LF body))"
    then consider "l \<in> set ?hs" | "l = []" | p where "l = trim_crlf p" "p \<in> set (split_on LF body)" by auto
    then show "LF \<notin> set l \<and> (l = [] \<or> last l \<noteq> CR)"
    proof cases
      case 1
      then show ?thesis using lines by (metis last_in_set)
    next
      case 3
      then show ?thesis using trimmed_piece by simp
    qed simp
  qed
  then have "crlf_free ?raw" by (simp add: caught_body_def)
  then have "split_once (CRLF @ CRLF) ?raw = None" by (simp add: crlf_free_split)
  moreover have "split_once [LF, LF] ?raw = Some (join LF ?hs, caught_body body)"
    by (rule split_headers [OF ne]) (use lines in simp)
  moreover have "header_value (join LF ?hs) name = header_value_in ?hs name" for name
    by (simp add: header_value_def lines_of_join [OF ne lines])
  moreover have "header_value_in ?hs ''From'' = Some (trim (header_safe from))"
    "header_value_in ?hs ''To'' = Some (trim (header_safe to))"
    "header_value_in ?hs ''Subject'' = Some (trim (header_safe subject))"
    using header_names by (simp_all add: header_lines_def prefix_Cons trim_ws_Cons ws_byte_def)
  ultimately show ?thesis by (simp add: parse_email_def)
qed


section \<open>The catcher's session\<close>

lemma write_plain: "write_line l (plain inp out) = (Inr (), plain inp (out @ l @ CRLF))"
  by (simp add: write_line_plain)

lemma reply_conn: "reply l nxt (conn inp out mb) = (Inr nxt, conn inp (out @ l @ CRLF) mb)"
  by (simp add: reply_def on_sock_def write_plain try_await_def)

lemma read_command_conn:
  assumes "LF \<notin> set l" "utf8_valid l" "length l + 2 \<le> MAX_LINE_BYTES"
  shows "on_sock read_command (conn (l @ CRLF @ rest) out mb) = (Inr (l @ CRLF), conn rest out mb)"
  using read_line_plain [OF assms(1,2), of rest out] assms(3)
  by (simp add: on_sock_def read_command_def try_await_def)

text \<open>One turn of the loop.\<close>

lemma loop_turn:
  assumes "text_line l" "length l + 2 \<le> MAX_LINE_BYTES"
    and "smtp_command h stamp mf rs l (conn rest out mb) = (Inr (Go mf' rs'), conn rest' out' mb')"
  shows "smtp_loop h stamp mf rs (conn (l @ CRLF @ rest) out mb) = smtp_loop h stamp mf' rs' (conn rest' out' mb')"
proof -
  have "on_sock read_command (conn (l @ CRLF @ rest) out mb) = (Inr (l @ CRLF), conn rest out mb)"
    by (rule read_command_conn) (use assms in \<open>simp_all add: text_line_def\<close>)
  moreover have "trim_crlf (l @ CRLF) = l" by (simp add: trim_text_line assms(1))
  ultimately show ?thesis using assms(3)
    unfolding smtp_loop.simps [of h stamp mf rs "conn (l @ CRLF @ rest) out mb"] by simp
qed

lemma loop_leave:
  assumes "text_line l" "length l + 2 \<le> MAX_LINE_BYTES"
    and "smtp_command h stamp mf rs l (conn rest out mb) = (Inr Leave, c')"
  shows "smtp_loop h stamp mf rs (conn (l @ CRLF @ rest) out mb) = (Inr (), c')"
proof -
  have "on_sock read_command (conn (l @ CRLF @ rest) out mb) = (Inr (l @ CRLF), conn rest out mb)"
    by (rule read_command_conn) (use assms in \<open>simp_all add: text_line_def\<close>)
  moreover have "trim_crlf (l @ CRLF) = l" by (simp add: trim_text_line assms(1))
  ultimately show ?thesis using assms(3)
    unfolding smtp_loop.simps [of h stamp mf rs "conn (l @ CRLF @ rest) out mb"] by simp
qed

text \<open>The commands of a session, as the catcher splits them.\<close>

lemma utf8_head: "utf8_valid s \<Longrightarrow> boundary 0 s"
proof (cases s)
  case (Cons c t)
  assume "utf8_valid s"
  with Cons have "0 < enc_len s" by (simp add: utf8_step)
  then have "\<not> continues c"
    by (cases rule: enc_len_cases)
       (auto simp: enc_len_iff(2-4) Cons seq2_def seq3_def seq4_def continues_def enc_len_iff(1) [unfolded One_nat_def])
  with Cons show ?thesis by (simp add: boundary_def)
qed (simp add: boundary_def)

lemma verbs:
  "to_uppercase ''EHLO'' = ''EHLO''" "to_uppercase ''MAIL'' = ''MAIL''" "to_uppercase ''RCPT'' = ''RCPT''"
  "split_verb ''DATA'' = Some (''DATA'', [])" "split_verb ''QUIT'' = Some (''QUIT'', [])"
  by code_simp+

lemma ws_len_ascii: "byte c < 128 \<Longrightarrow> ws_len (c # s) = (if ws_byte c then 1 else 0)"
  by (cases "c # s" rule: ws_len.cases) (auto simp: ws_pair_def ws_triple_def)

lemma trim_start_ascii: "byte c < 128 \<Longrightarrow> \<not> ws_byte c \<Longrightarrow> trim_start (c # s) = c # s"
  by (rule trim_start_id) (simp add: ws_len_ascii)

lemmas spelled = split_verb_def parse_addr_def trim_start_ascii ws_len_ascii ws_byte_def ws_pair_def
  ws_triple_def boundary_def
  continues_def same_ignoring_case_def Let_def

lemma split_ehlo: "utf8_valid name \<Longrightarrow> split_verb (''EHLO '' @ name) = Some (''EHLO'', trim_start name)"
  using utf8_head [of name] verbs(1) by (auto simp: spelled)

lemma split_mail: "split_verb (''MAIL FROM:<'' @ a) = Some (''MAIL'', ''FROM:<'' @ a)"
  using verbs(2) by (simp add: spelled)

lemma split_rcpt: "split_verb (''RCPT TO:<'' @ a) = Some (''RCPT'', ''TO:<'' @ a)"
  using verbs(3) by (simp add: spelled)

lemma addr_mail: "\<exists>x. parse_addr (''FROM:<'' @ a) ''FROM:'' = Some (Some x)"
  by (simp add: spelled)

lemma addr_rcpt: "\<exists>x. parse_addr (''TO:<'' @ a) ''TO:'' = Some (Some x)"
  by (simp add: spelled)


lemma ehlo_turn:
  assumes "text_line name" "length name + 7 \<le> MAX_LINE_BYTES"
  shows "\<exists>out'. smtp_loop h stamp mf rs (conn (''EHLO '' @ name @ CRLF @ rest) out mb) =
    smtp_loop h stamp mf rs (conn rest out' mb)"
proof -
  have split: "split_verb (''EHLO '' @ name) = Some (''EHLO'', trim_start name)"
    by (rule split_ehlo) (use assms(1) in \<open>simp add: text_line_def\<close>)
  have "\<exists>out'. smtp_command h stamp mf rs (''EHLO '' @ name) (conn rest out mb) = (Inr (Go mf rs), conn rest out' mb)"
    unfolding smtp_command_def split panic_or_def
    by (simp add: try_await_def on_sock_def write_plain reply_conn)
  moreover have "text_line (''EHLO '' @ name)" using assms(1) by (intro text_line_append) (simp add: text_line_def)
  ultimately show ?thesis using loop_turn [of "''EHLO '' @ name"] assms(2) by fastforce
qed

lemma mail_turn:
  assumes "text_line a" "length a + 14 \<le> MAX_LINE_BYTES"
  shows "\<exists>x out'. smtp_loop h stamp mf rs (conn (''MAIL FROM:<'' @ a @ ''>'' @ CRLF @ rest) out mb) =
    smtp_loop h stamp (Some x) [] (conn rest out' mb)"
proof -
  obtain x where x: "parse_addr (''FROM:<'' @ a @ ''>'') ''FROM:'' = Some (Some x)" using addr_mail by blast
  have "\<exists>out'. smtp_command h stamp mf rs (''MAIL FROM:<'' @ a @ ''>'') (conn rest out mb) =
      (Inr (Go (Some x) []), conn rest out' mb)"
    unfolding smtp_command_def split_mail panic_or_def
    by (simp add: try_await_def x [simplified] reply_conn)
  moreover have "text_line (''MAIL FROM:<'' @ a @ ''>'')"
    using assms(1) by (intro text_line_append) (simp_all add: text_line_def)
  ultimately show ?thesis using loop_turn [of "''MAIL FROM:<'' @ a @ ''>''"] assms(2) by fastforce
qed

lemma rcpt_turn:
  assumes "text_line a" "length a + 12 \<le> MAX_LINE_BYTES"
  shows "\<exists>x out'. smtp_loop h stamp mf rs (conn (''RCPT TO:<'' @ a @ ''>'' @ CRLF @ rest) out mb) =
    smtp_loop h stamp mf (rs @ [x]) (conn rest out' mb)"
proof -
  obtain x where x: "parse_addr (''TO:<'' @ a @ ''>'') ''TO:'' = Some (Some x)" using addr_rcpt by blast
  have "\<exists>out'. smtp_command h stamp mf rs (''RCPT TO:<'' @ a @ ''>'') (conn rest out mb) =
      (Inr (Go mf (rs @ [x])), conn rest out' mb)"
    unfolding smtp_command_def split_rcpt panic_or_def
    by (simp add: try_await_def x [simplified] reply_conn)
  moreover have "text_line (''RCPT TO:<'' @ a @ ''>'')"
    using assms(1) by (intro text_line_append) (simp_all add: text_line_def)
  ultimately show ?thesis using loop_turn [of "''RCPT TO:<'' @ a @ ''>''"] assms(2) by fastforce
qed

lemma data_turn:
  assumes "read_data [] (plain inp (out @ ''354 End data with <CR><LF>.<CR><LF>'' @ CRLF)) = (Inr raw, plain rest out1)"
    and "rs \<noteq> []"
  shows "\<exists>out'. smtp_loop h stamp (Some f) rs (conn (''DATA'' @ CRLF @ inp) out mb) =
    smtp_loop h stamp None [] (conn rest out' (mb @ [parse_email (fst (stamp (length mb))) (snd (stamp (length mb))) f rs raw]))"
proof -
  have "\<exists>out'. smtp_command h stamp (Some f) rs ''DATA'' (conn inp out mb) =
      (Inr (Go None []), conn rest out' (mb @ [parse_email (fst (stamp (length mb))) (snd (stamp (length mb))) f rs raw]))"
    unfolding smtp_command_def verbs panic_or_def
    using assms
    by (simp add: smtp_data_def try_await_def on_sock_def write_plain deliver_def reply_conn case_prod_beta)
  moreover have "text_line ''DATA''" by (simp add: text_line_def)
  moreover have "length ''DATA'' + 2 \<le> MAX_LINE_BYTES" by (simp add: MAX_LINE_BYTES_def)
  ultimately show ?thesis using loop_turn [of "''DATA''"] by metis
qed

lemma quit_turn:
  "\<exists>out'. smtp_loop h stamp mf rs (conn (''QUIT'' @ CRLF) out mb) = (Inr (), conn [] out' mb)"
proof -
  have "\<exists>out'. smtp_command h stamp mf rs ''QUIT'' (conn [] out mb) = (Inr Leave, conn [] out' mb)"
    unfolding smtp_command_def verbs panic_or_def by (simp add: try_await_def reply_conn)
  moreover have "text_line ''QUIT''" by (simp add: text_line_def)
  moreover have "length ''QUIT'' + 2 \<le> MAX_LINE_BYTES" by (simp add: MAX_LINE_BYTES_def)
  ultimately show ?thesis using loop_leave [of "''QUIT''" h stamp mf rs "[]" out mb] by auto
qed


lemma ws_wide: "0 < ws_len (c # s) \<Longrightarrow> \<not> ws_byte c \<Longrightarrow> \<exists>d u. s = d # u \<and> 128 \<le> byte d \<and> byte d < 192"
  by (cases "c # s" rule: ws_len.cases) (auto simp: ws_pair_def ws_triple_def split: if_splits)

section \<open>Sent and caught\<close>

text \<open>C14: Mail that is sent is caught as it was sent: when the sender reports success on a plain
  connection, the catcher that reads the bytes it wrote takes in exactly one message, with the
  sender, the recipient and the subject of the call and the lines of its body. No subject and
  no body, whatever line ends, leading dots or header lines they contain, can add a header, end
  the message early or add a command.\<close>

theorem sent_mail_is_caught:
  assumes "send_email X b64 date uuid C (Inr k) to subject body = (Inr (), Some s)"
    and "sm_tls_mode C = NoTls" "sk_faults k = []" "sk_out k = []"
    and "text_line (sm_from_email C)" "text_line to" "text_line (sm_ehlo_name C)" "text_line date" "text_line uuid"
    and "utf8_valid subject" "utf8_valid body"
    and "length (sm_ehlo_name C) \<le> 65000" "length (sm_from_email C) \<le> 65000" "length to \<le> 65000"
    and "length (build_message date uuid (sm_from_email C) to subject body) \<le> MAX_MESSAGE_BYTES"
  shows "\<exists>out'. handle_connection h stamp (conn (sk_out (st_sock s)) [] mb) =
    (Inr (), conn [] out' (mb @
      [\<lparr>em_id = fst (stamp (length mb)), em_from = trim (sm_from_email C), em_to = trim to,
        em_subject = trim (header_safe subject), em_body = caught_body body,
        em_timestamp = snd (stamp (length mb))\<rparr>]))"
proof -
  let ?from = "sm_from_email C" and ?hs = "header_lines date uuid (sm_from_email C) to subject"
  let ?m = "build_message date uuid ?from to subject body"
  from assms(1,2) have creds: "sm_credentials C = None" and run:
      "session X b64 date uuid C to subject body \<lparr>st_secured = False, st_sock = k\<rparr> = (Inr (), s)"
    by (auto simp: send_email_def split: if_splits prod.splits)
  have wrote: "sk_out (st_sock s) = session_text C to ?m"
    using writesD [OF writes_session [OF assms(2) creds] _ run] assms(3,4) by simp
  have utf: "utf8_valid ?from" "utf8_valid to" using assms(5,6) by (simp_all add: text_line_def)
  note hs = header_lines_text [OF utf assms(10,8,9,5)]
  let ?ls = "?hs @ [[]] @ map stuffed (split_on LF body)"
  have ls: "\<forall>l \<in> set ?ls. LF \<notin> set l \<and> utf8_valid l \<and> trim_crlf l \<noteq> ''.''"
  proof
    fix l assume "l \<in> set ?ls"
    then consider "l \<in> set ?hs" | "l = []" | p where "l = stuffed p" "p \<in> set (split_on LF body)" by auto
    then show "LF \<notin> set l \<and> utf8_valid l \<and> trim_crlf l \<noteq> ''.''"
    proof cases
      case 1
      with hs have "text_line l" "hd l \<noteq> CHR ''.''" by simp_all
      then show ?thesis by (auto simp: trim_text_line text_line_def)
    next
      case 3
      have "LF \<notin> set p" using split_on_pieces [OF 3(2)] by simp
      then have "LF \<notin> set (strip_cr p)" by (auto simp: strip_cr_def dest: in_set_butlastD)
      then have "LF \<notin> set l" by (simp add: 3(1) stuffed_def)
      then show ?thesis using 3 stuffed_back [of p] utf8_stuffed [OF utf8_split [OF assms(11)]] by simp
    qed simp
  qed
  have raw: "read_data [] (plain (?m @ ''.'' @ CRLF @ rest) out) =
      (Inr (caught_lines ?hs @ LF # caught_body body), plain rest out)" for rest out
    using read_data_plain [OF ls, of "[]" rest out] assms(15) caught_message [OF hs, of "split_on LF body"]
    by (simp add: message_lines caught_body_def)
  have short: "length (sm_ehlo_name C) + 7 \<le> MAX_LINE_BYTES" "length ?from + 14 \<le> MAX_LINE_BYTES" "length to + 12 \<le> MAX_LINE_BYTES"
    using assms(12-14) by (simp_all add: MAX_LINE_BYTES_def)
  have "\<exists>out'. smtp_loop h stamp None [] (conn (session_text C to ?m) out mb) =
      (Inr (), conn [] out' (mb @ [\<lparr>em_id = fst (stamp (length mb)), em_from = trim ?from, em_to = trim to,
        em_subject = trim (header_safe subject), em_body = caught_body body,
        em_timestamp = snd (stamp (length mb))\<rparr>]))" for out
  proof -
    let ?d = "''DATA'' @ CRLF @ ?m @ ''.'' @ CRLF @ ''QUIT'' @ CRLF"
    obtain o1 where 1: "smtp_loop h stamp None [] (conn (session_text C to ?m) out mb) =
        smtp_loop h stamp None [] (conn (''MAIL FROM:<'' @ ?from @ ''>'' @ CRLF @ ''RCPT TO:<'' @ to @ ''>'' @ CRLF @ ?d) o1 mb)"
      using ehlo_turn [OF assms(7) short(1)] unfolding session_text_def by blast
    obtain f o2 where 2: "smtp_loop h stamp None [] (conn (''MAIL FROM:<'' @ ?from @ ''>'' @ CRLF @ ''RCPT TO:<'' @ to @ ''>'' @ CRLF @ ?d) o1 mb) =
        smtp_loop h stamp (Some f) [] (conn (''RCPT TO:<'' @ to @ ''>'' @ CRLF @ ?d) o2 mb)"
      using mail_turn [OF assms(5) short(2)] by blast
    obtain r o3 where 3: "smtp_loop h stamp (Some f) [] (conn (''RCPT TO:<'' @ to @ ''>'' @ CRLF @ ?d) o2 mb) =
        smtp_loop h stamp (Some f) ([] @ [r]) (conn ?d o3 mb)"
      using rcpt_turn [OF assms(6) short(3)] by blast
    obtain o4 where 4: "smtp_loop h stamp (Some f) ([] @ [r]) (conn ?d o3 mb) =
        smtp_loop h stamp None [] (conn (''QUIT'' @ CRLF) o4
          (mb @ [parse_email (fst (stamp (length mb))) (snd (stamp (length mb))) f ([] @ [r]) (caught_lines ?hs @ LF # caught_body body)]))"
      using data_turn [OF raw, of "[] @ [r]"] by fastforce
    show ?thesis
      unfolding 1 2 3 4 using quit_turn parse_caught [OF hs] assms(5,6) by (simp add: header_safe_id)
  qed
  then show ?thesis
    by (simp add: handle_connection_def try_await_def on_sock_def write_plain wrote)
qed

text \<open>A command line whose first word is followed by a wide White_Space character ends the
  connection by a panic: the code cuts the line one byte after that character's first byte,
  which is inside it.\<close>

theorem wide_white_space_panics:
  assumes "text_line l" "length l + 2 \<le> MAX_LINE_BYTES"
    and "find_ws (trim_start l) = Some i" "128 \<le> byte (trim_start l ! i)"
  shows "smtp_loop h stamp mf rs (conn (l @ CRLF @ rest) out mb) = (Inl Panicked, conn rest out mb)"
proof -
  let ?t = "trim_start l"
  have i: "i < length ?t" "0 < ws_len (drop i ?t)" using find_ws_Some [OF assms(3)] by simp_all
  have drop: "drop i ?t = ?t ! i # drop (Suc i) ?t" using i(1) by (simp add: Cons_nth_drop_Suc)
  have "\<not> ws_byte (?t ! i)" using assms(4) by (auto simp: ws_byte_def)
  with i(2) drop obtain d u where d: "drop (Suc i) ?t = d # u" "128 \<le> byte d" "byte d < 192"
    using ws_wide by metis
  have "Suc i < length ?t" using d(1) by (metis drop_eq_Nil list.distinct(1) not_le)
  moreover from this d(1) have "?t ! Suc i = d" by (metis Cons_nth_drop_Suc list.inject)
  ultimately have "\<not> boundary (i + 1) ?t" using d(2,3) by (simp add: boundary_def continues_def)
  then have "split_verb l = None" using assms(3) by (simp add: split_verb_def Let_def)
  then have cmd: "smtp_command h stamp mf rs l (conn rest out mb) = (Inl Panicked, conn rest out mb)"
    by (simp add: smtp_command_def panic_or_def)
  have "on_sock read_command (conn (l @ CRLF @ rest) out mb) = (Inr (l @ CRLF), conn rest out mb)"
    by (rule read_command_conn) (use assms(1,2) in \<open>simp_all add: text_line_def\<close>)
  moreover have "trim_crlf (l @ CRLF) = l" by (simp add: trim_text_line assms(1))
  ultimately show ?thesis using cmd
    unfolding smtp_loop.simps [of h stamp mf rs "conn (l @ CRLF @ rest) out mb"] by simp
qed

end
