(* ===== verification/Scenarios.thy ===== *)
theory Scenarios
  imports Cases Contest Races Schema Instances Startup Delivery
begin

text \<open>
  Runs of overlapping requests, registration, instances, files, notifications, e-mail and the proxy on concrete
  inputs, and for every property of these parts with hypotheses an instance where they hold.
\<close>

section \<open>Runs\<close>

text \<open>The team solves a challenge and buys its hint: two moves.\<close>

lemma demo_contest:
  "contest_of demo_db = \<lparr>solved = {}, bought = {}\<rparr>"
  "contest_of demo_hinted =
     \<lparr>solved = {((Some (TeamId ''t1''), AccountId ''a1''), ''c1'')},
      bought = {((Some (TeamId ''t1''), AccountId ''a1''), ''c1'', 0, 10)}\<rparr>"
proof -
  show "contest_of demo_db = \<lparr>solved = {}, bought = {}\<rparr>"
    by (simp add: contest_of_def solves_in_def purchases_in_def)
  have subs: "map (\<lambda>x. (sub_is_correct x, sub_team_id x, sub_account_id x, sub_challenge_id x))
      (map map_submission (db_submissions demo_hinted)) = [(True, Some (TeamId ''t1''), AccountId ''a1'', ''c1'')]"
    by code_simp
  have hints: "map (\<lambda>u. ((hu_team_id u, hu_account_id u), hu_challenge_id u, hu_hint_index u, hu_cost u))
      (map map_hint_unlock (db_hint_unlocks demo_hinted)) = [((Some (TeamId ''t1''), AccountId ''a1''), ''c1'', 0, 10)]"
    by code_simp
  from subs obtain x where x: "map map_submission (db_submissions demo_hinted) = [x]" "sub_is_correct x"
    "sub_team_id x = Some (TeamId ''t1'')" "sub_account_id x = AccountId ''a1''" "sub_challenge_id x = ''c1''"
    by (cases "map map_submission (db_submissions demo_hinted)") auto
  from hints obtain u where u: "map map_hint_unlock (db_hint_unlocks demo_hinted) = [u]"
    "hu_team_id u = Some (TeamId ''t1'')" "hu_account_id u = AccountId ''a1''" "hu_challenge_id u = ''c1''"
    "hu_hint_index u = 0" "hu_cost u = 10"
    by (cases "map map_hint_unlock (db_hint_unlocks demo_hinted)") auto
  have "subs_in demo_hinted = {#x#}" "unlocks_in demo_hinted = {#u#}"
    unfolding subs_in_def unlocks_in_def using x(1) u(1) by simp_all
  with x u show "contest_of demo_hinted =
     \<lparr>solved = {((Some (TeamId ''t1''), AccountId ''a1''), ''c1'')},
      bought = {((Some (TeamId ''t1''), AccountId ''a1''), ''c1'', 0, 10)}\<rparr>"
    by (simp add: contest_of_def solves_in_def purchases_in_def Collect_conv_if)
qed


section \<open>Overlapping requests\<close>

text \<open>
  The team sends its flag twice: the second request runs as a whole after the first has looked
  for an earlier solve, before its fifth call. And it asks twice for a hint: the second request
  runs after the first has found no earlier unlock, before its fourth call.
\<close>

definition demo_second_flag :: "demo_json db \<Rightarrow> demo_json db" where
  "demo_second_flag s = snd (demo_submit ''s2'' 1001 ''c1'' ''flag'' s)"

definition demo_race :: "(service_error + submission) \<times> demo_json db contested" where
  "demo_race =
     submit_flag demo_ext (contended_solve_service (pg_solve_service demo_serde)) ''s1'' 1000 ''c1''
       (Some (TeamId ''t1'')) (AccountId ''a1'') ''flag'' ''10.0.0.1'' (demo_db, [id, id, id, id, demo_second_flag])"

definition demo_second_hint :: "demo_json db \<Rightarrow> (service_error + hint_unlock_result) \<times> demo_json db" where
  "demo_second_hint =
     unlock_hint demo_ext (pg_hint_service demo_serde AllowNegative) ''h2'' ''c1'' 0 (Some (TeamId ''t1''))
       (AccountId ''a1'') 1003 False"

definition demo_hint_race :: "(service_error + hint_unlock_result) \<times> demo_json db contested" where
  "demo_hint_race =
     unlock_hint demo_ext (contended_hint_service (pg_hint_service demo_serde AllowNegative)) ''h1'' ''c1'' 0
       (Some (TeamId ''t1'')) (AccountId ''a1'') 1003 False (demo_db, [id, id, id, \<lambda>s. snd (demo_second_hint s)])"

lemma demo_race_end:
  "(case demo_race of (r, s, _) \<Rightarrow> (isl r, map (\<lambda>x. (sub_is_correct x, sub_challenge_id x, sub_team_id x))
      (map map_submission (db_submissions s)))) =
   (False, [(True, ''c1'', Some (TeamId ''t1'')), (True, ''c1'', Some (TeamId ''t1''))])"
  by code_simp

lemma demo_hint_race_end:
  "(case demo_hint_race of (r, s, _) \<Rightarrow> (map_sum id hres_already_unlocked r,
      map (\<lambda>u. (hu_challenge_id u, hu_hint_index u, hu_team_id u, hu_cost u)) (map map_hint_unlock (db_hint_unlocks s)))) =
   (Inr False, [(''c1'', 0, Some (TeamId ''t1''), 10), (''c1'', 0, Some (TeamId ''t1''), 10)])"
  by code_simp

lemma demo_second_alone:
  "\<not> isl (fst (demo_submit ''s2'' 1001 ''c1'' ''flag'' demo_db))"
  "map_sum id hres_already_unlocked (fst (demo_second_hint demo_db)) = Inr False"
  by code_simp+

lemma demo_race_rows:
  "\<not> isl (fst demo_race)"
  "map (\<lambda>x. (sub_is_correct x, sub_challenge_id x, sub_team_id x))
     (map map_submission (db_submissions (fst (snd demo_race)))) =
     [(True, ''c1'', Some (TeamId ''t1'')), (True, ''c1'', Some (TeamId ''t1''))]"
  "map_sum id hres_already_unlocked (fst demo_hint_race) = Inr False"
  "map (\<lambda>u. (hu_challenge_id u, hu_hint_index u, hu_team_id u, hu_cost u))
     (map map_hint_unlock (db_hint_unlocks (fst (snd demo_hint_race)))) =
     [(''c1'', 0, Some (TeamId ''t1''), 10), (''c1'', 0, Some (TeamId ''t1''), 10)]"
  using demo_race_end demo_hint_race_end unfolding case_prod_beta prod.inject by blast+


text \<open>Another side may overlap: the solo player sends the flag in the middle of the team's request.\<close>

definition demo_solo_flag :: "demo_json db \<Rightarrow> demo_json db" where
  "demo_solo_flag s =
     snd (submit_flag demo_ext (pg_solve_service demo_serde) ''s2'' 1001 ''c1'' None (AccountId ''a3'') ''flag'' ''10.0.0.9'' s)"

definition demo_overlap :: "(service_error + submission) \<times> demo_json db contested" where
  "demo_overlap =
     submit_flag demo_ext (contended_solve_service (pg_solve_service demo_serde)) ''s1'' 1000 ''c1''
       (Some (TeamId ''t1'')) (AccountId ''a1'') ''flag'' ''10.0.0.1'' (demo_db, [id, id, id, id, demo_solo_flag])"

lemma demo_overlap_end:
  "(case demo_overlap of (r, s, _) \<Rightarrow> (isl r, map srow_id (db_submissions s))) = (False, [''s2'', ''s1''])"
  by code_simp

lemma demo_overlap_rows: "map srow_id (db_submissions (fst (snd demo_overlap))) = [''s2'', ''s1'']" "\<not> isl (fst demo_overlap)"
  using demo_overlap_end unfolding case_prod_beta prod.inject by blast+

lemma solo_aside: "keep_to (aside demo_serde (Some (TeamId ''t1'')) (AccountId ''a1'')) [id, id, id, id, demo_solo_flag]"
proof -
  have "aside demo_serde (Some (TeamId ''t1'')) (AccountId ''a1'') s (demo_solo_flag s)" for s
    unfolding demo_solo_flag_def by (rule other_side_aside [OF prod.collapse [symmetric]]) simp
  then show ?thesis by (simp add: keep_to_def aside_def grows_def)
qed

lemma demo_overlap_run:
  "submit_flag demo_ext (contended_solve_service (pg_solve_service demo_serde)) ''s1'' 1000 ''c1''
       (Some (TeamId ''t1'')) (AccountId ''a1'') ''flag'' ''10.0.0.1'' (demo_db, [id, id, id, id, demo_solo_flag]) =
     (fst demo_overlap, (fst (snd demo_overlap), snd (snd demo_overlap)))"
  by (simp add: demo_overlap_def)

theorem one_request_per_side_is_safe_case:
  "\<exists>ch active x (t :: demo_json db). admits demo_ext ch ''c1'' (Some (TeamId ''t1'')) (AccountId ''a1'') ''flag'' active (subs_in t) \<and>
     subs_in (fst (snd demo_overlap)) = add_mset x (subs_in t) \<and> fst demo_overlap = Inr x \<and> size (subs_in t) = 1"
proof -
  have "size (subs_in (fst (snd demo_overlap))) = 2"
    using arg_cong [OF demo_overlap_rows(1), of length] by (simp add: subs_in_def)
  moreover obtain x where ok: "fst demo_overlap = Inr x" using demo_overlap_rows(2) by (metis sum.collapse(2))
  from one_request_per_side_is_safe [OF demo_overlap_run solo_aside] ok
  obtain ch active n and t :: "demo_json db" where t: "admits demo_ext ch ''c1'' (Some (TeamId ''t1'')) (AccountId ''a1'') ''flag'' active (subs_in t)"
    "subs_in (fst (snd demo_overlap)) = add_mset (graded demo_ext ch ''s1'' 1000 ''c1'' (Some (TeamId ''t1''))
       (AccountId ''a1'') ''flag'' ''10.0.0.1'' active n) (subs_in t)"
    "fst demo_overlap = answer (graded demo_ext ch ''s1'' 1000 ''c1'' (Some (TeamId ''t1'')) (AccountId ''a1'') ''flag'' ''10.0.0.1'' active n)"
    by auto
  moreover from t(3) ok have "x = graded demo_ext ch ''s1'' 1000 ''c1'' (Some (TeamId ''t1''))
       (AccountId ''a1'') ''flag'' ''10.0.0.1'' active n" by (simp add: answer_def split: if_splits)
  ultimately show ?thesis using ok by (intro exI [of _ ch] exI [of _ active] exI [of _ x] exI [of _ t]) simp
qed


section \<open>Typed rows\<close>

lemma demo_typed: "well_typed demo_serde demo_db"
  by code_simp


section \<open>Accounts\<close>

definition demo_argon :: argon where
  "demo_argon =
     \<lparr>argon_hash = (\<lambda>salt pw. Some (''$'' @ salt @ ''$'' @ pw)), argon_parse = (\<lambda>h. prefix ''$'' h),
      argon_check = (\<lambda>pw h. suffix (''$'' @ pw) h)\<rparr>"

lemma demo_argon_lawful: "lawful_argon demo_argon"
  by (auto simp: lawful_argon_def demo_argon_def suffix_def)

lemma demo_keys: "keys_unique demo_db" "keys_unique demo_hinted"
  by code_simp+


definition demo_register :: "(service_error + account) \<times> demo_json db" where
  "demo_register =
     register demo_argon (pg_account_repo demo_serde) ''a9'' ''salt'' 1000 ''eve'' None ''secret'' demo_db"

lemma demo_registered:
  "\<not> isl (fst demo_register)"
  "db_faults (snd demo_register) = []"
  by code_simp+

lemma demo_registered_row:
  "account_row_of demo_serde (projr (fst demo_register)) \<in> set (db_accounts (snd demo_register))"
proof -
  from registration_cases [OF ok_run [OF demo_registered(1), unfolded demo_register_def]]
  have "tables_of (snd demo_register) =
      tables_of (demo_db\<lparr>db_accounts := db_accounts demo_db @ [account_row_of demo_serde (projr (fst demo_register))]\<rparr>)"
    unfolding demo_register_def by auto
  from accounts_of_tables [OF this] show ?thesis by simp
qed

theorem registered_player_signs_in_case:
  "fst (login demo_argon demo_crypto ''key'' 2000 (pg_account_repo demo_serde) ''eve'' ''secret'' (snd demo_register)) =
     Inr (jwt_issue demo_crypto 2000 ''a9'' (24 * 3600) ''key'') \<and>
   (\<exists>h. fst (login demo_argon demo_crypto ''key'' 2000 (pg_account_repo demo_serde) ''eve'' ''other'' (snd demo_register)) =
     (if argon_check demo_argon ''other'' h then Inr (jwt_issue demo_crypto 2000 ''a9'' (24 * 3600) ''key'')
      else Inl (InvalidRequest ''auth-invalid-credentials'')))"
proof -
  have "fields_from demo_serde (fields_to demo_serde Map.empty) = Inr Map.empty" by (simp add: demo_serde_def)
  from registered_player_signs_in [OF demo_argon_lawful demo_crypto_lawful this
      ok_run [OF demo_registered(1), unfolded demo_register_def] demo_keys(1) start
      demo_registered_row [unfolded demo_register_def] demo_registered(2) [unfolded demo_register_def],
      of 2000 "''key''"]
  show ?thesis by (auto simp: i64_range_def demo_register_def)
qed

definition demo_ctftime :: ctftime_server where
  "demo_ctftime =
     \<lparr>post_token = (\<lambda>form. if map_of form ''code'' = Some ''c0de'' then Body (Some ''t0k'') else Body None),
      get_user = (\<lambda>token. Body \<lparr>ctp_id = 77, ctp_username = ''ann'', ctp_email = None,
        ctp_team = Some \<lparr>cti_id = 5, cti_name = ''Blues''\<rparr>\<rparr>)\<rparr>"

definition demo_oauth :: oauth_config where
  "demo_oauth = \<lparr>oa_client_id = ''id'', oa_client_secret = ''sec'', oa_redirect_uri = ''https://ctf.example/cb''\<rparr>"

definition demo_profile :: ctftime_profile where
  "demo_profile = \<lparr>ctp_id = 77, ctp_username = ''ann'', ctp_email = None, ctp_team = Some \<lparr>cti_id = 5, cti_name = ''Blues''\<rparr>\<rparr>"

definition demo_callback :: "(service_error + string option) \<times> demo_json db" where
  "demo_callback =
     handle_callback 4 demo_crypto ''key'' demo_ctftime demo_oauth (pg_account_repo demo_serde) (pg_team_repo demo_serde)
       ''a9'' ''t9'' 1000 ''c0de'' demo_db"

theorem ctftime_login_ends_case: "length (db_accounts demo_db) = 3 \<and> fst demo_callback \<noteq> Inr None"
  using ctftime_login_ends [where s = demo_db and fuel = 4] by (simp add: demo_callback_def demo_db_def)

theorem ctftime_login_signs_in_case:
  "\<exists>token row. fst demo_callback = Inr (Some token) \<and> row \<in> set (db_accounts (snd demo_callback)) \<and>
     arow_ctftime_id row = Some 77 \<and>
     jwt_decode demo_crypto 1001 token ''key'' =
       Inr (hs256_header, \<lparr>cl_sub = arow_id row, cl_iat = 1000, cl_exp = 87400\<rparr>)"
proof -
  let ?new = "new_ctftime_account 4 (pg_account_repo demo_serde) (pg_team_repo demo_serde) ''a9'' ''t9'' 1000 demo_profile demo_db"
  have p: "fetch_profile demo_ctftime demo_oauth ''c0de'' demo_db = (Inr demo_profile, demo_db)"
    by (simp add: fetch_profile_def demo_ctftime_def demo_profile_def)
  have none: "pg_account_by_ctftime demo_serde 77 demo_db = (Inr None, demo_db)"
    by (simp add: pg_account_by_ctftime_def fetch_optional_def select_def statement_def demo_db_def account_row_of_def
        demo_account_def demo_admin_def demo_solo_def try_await_def decoded_opt_def)
  have "map_sum (\<lambda>_. ()) Option.is_none (fst ?new) = Inr False" by code_simp
  then obtain a s1 where new: "?new = (Inr (Some a), s1)"
    by (cases ?new; cases "fst ?new") (auto simp: Option.is_none_def)
  have "ctp_id demo_profile = 77" by (simp add: demo_profile_def)
  with none new have "demo_callback = (Inr (Some (jwt_issue demo_crypto 1000 (acc_str (acc_id a)) (24 * 3600) ''key'')), s1)" (is "_ = (Inr (Some ?token), _)")
    unfolding demo_callback_def handle_callback_def
    by (simp add: p try_await_def repo_call_def map_err_def pg_account_repo_sel)
  then obtain token where run: "demo_callback = (Inr (Some token), snd demo_callback)" by (metis snd_conv)
  from ctftime_login_signs_in [OF run [unfolded demo_callback_def] demo_crypto_lawful] p
  obtain row where "row \<in> set (db_accounts (snd demo_callback))" "arow_ctftime_id row = Some 77"
    "\<And>n. jwt_decode demo_crypto n token ''key'' =
       (if n < 1000 + 24 * 3600
        then Inr (hs256_header, \<lparr>cl_sub = arow_id row, cl_iat = 1000, cl_exp = 1000 + 24 * 3600\<rparr>)
        else Inl Expired)"
    by (auto simp: i64_range_def demo_callback_def demo_profile_def)
  with run show ?thesis by (intro exI [of _ token] exI [of _ row]) (auto simp: prod_eq_iff)
qed

section \<open>Instances\<close>

text \<open>A cluster that remembers the names of its pods and services and gives each the same address.\<close>

definition demo_kube :: "(string list \<times> string list) kube" where
  "demo_kube =
     \<lparr>create_pod = (\<lambda>p (ps, ss). (Inr (), (pod_name p # ps, ss))),
      create_service = (\<lambda>v (ps, ss). (Inr (Some ''10.1.0.7''), (ps, ksv_name v # ss))),
      delete_service = (\<lambda>i (ps, ss). (Inr (), (ps, removeAll i ss))),
      delete_pod = (\<lambda>i (ps, ss). (Inr (), (removeAll i ps, ss)))\<rparr>"

definition demo_fleet :: "(demo_json, string list \<times> string list) fleet" where
  "demo_fleet = \<lparr>fl_db = demo_db, fl_cluster = ([], []), fl_timers = []\<rparr>"

definition demo_spawn :: "(service_error + string) \<times> (demo_json, string list \<times> string list) fleet" where
  "demo_spawn =
     spawn_instance demo_kube ''77'' ''0123456789abcdef'' ''c1'' ''img'' 80 (map_option team_str (Some (TeamId ''t1'')))
       (acc_str (AccountId ''a1'')) ''flag{}'' 600 demo_fleet"

lemma demo_spawned:
  "fst demo_spawn = Inr ''inst-77''"
  "db_faults (fl_db (snd demo_spawn)) = []"
  "fl_timers (snd demo_spawn) = [(1600, ''inst-77'')]"
  by code_simp+

lemma demo_spawn_run: "demo_spawn = (Inr ''inst-77'', snd demo_spawn)"
  using demo_spawned(1) by (metis prod.collapse)


definition demo_renew :: "(service_error + unit) \<times> (demo_json, string list \<times> string list) fleet" where
  "demo_renew = renew_instance ''inst-77'' 3600 (at_time 1500 (snd demo_spawn))"

lemma demo_renewed: "fst demo_renew = Inr ()" "db_faults (fl_db (snd demo_renew)) = []"
  by code_simp+

theorem renewed_instance_dies_at_its_first_deadline_case:
  "map irow_expires_at (live_rows (snd demo_renew)) = [5100] \<and>
   ''inst-77'' \<notin> irow_id ` set (live_rows (snd (wake_timers demo_kube (at_time 1600 (snd demo_renew)))))"
proof -
  have run: "demo_renew = (Inr (), snd demo_renew)" using demo_renewed(1) by (metis prod.collapse)
  have rows: "map irow_expires_at (live_rows (snd demo_renew)) = [5100]" by code_simp
  have clock: "db_clock (fl_db demo_fleet) + 600 \<le> 1600" by (simp add: demo_fleet_def demo_db_def)
  from renewed_instance_dies_at_its_first_deadline [OF demo_spawn_run [unfolded demo_spawn_def] _ _
      run [unfolded demo_renew_def demo_spawn_def] clock demo_renewed(2) [unfolded demo_renew_def demo_spawn_def]
      prod.collapse [symmetric]] rows
  show ?thesis by (auto simp: demo_renew_def demo_spawn_def)
qed

theorem every_instance_ends_case:
  "length (live_rows (snd demo_spawn)) = 1 \<and>
   live_rows (snd (wake_timers demo_kube (at_time 1600 (snd demo_spawn)))) = []"
proof -
  have "fleet_step demo_kube demo_fleet (snd demo_spawn)"
    by (rule fleet_step.intros(1) [OF demo_spawn_run [unfolded demo_spawn_def], folded demo_spawn_def])
  then have run: "(fleet_step demo_kube)\<^sup>*\<^sup>* demo_fleet (snd demo_spawn)" by (rule r_into_rtranclp)
  have "watched demo_fleet" by (simp add: watched_def live_rows_def demo_fleet_def demo_db_def)
  moreover have "length (live_rows (snd demo_spawn)) = 1" by code_simp
  ultimately show ?thesis
    using every_instance_ends [OF run _ _ prod.collapse [symmetric], of 1600] demo_spawned(3) by simp
qed

section \<open>Files\<close>

definition demo_disk :: disk where
  "demo_disk = \<lparr>dk_files = Map.empty, dk_faults = []\<rparr>"

theorem storage_stays_in_its_directory_case:
  "dk_files (snd (fs_store (local_storage ''data'') ''note.txt'' ''hi'' demo_disk)) ''data/note.txt'' = Some ''hi'' \<and>
   ''data/note.txt'' = path_join ''data'' ''note.txt'' \<and> CHR ''/'' \<notin> set ''note.txt''"
proof -
  have "dk_files (snd (fs_store (local_storage ''data'') ''note.txt'' ''hi'' demo_disk)) ''data/note.txt'' = Some ''hi''"
    by code_simp
  moreover have "dk_files demo_disk ''data/note.txt'' = None" by (simp add: demo_disk_def)
  ultimately show ?thesis
    using storage_stays_in_its_directory [OF disjI1 [OF prod.collapse [symmetric]],
      of "''data''" "''note.txt''" "''hi''" demo_disk "''data/note.txt''"] by simp
qed

text \<open>A remote that keeps what \<open>rcat\<close> gave it under the last argument.\<close>

definition demo_rclone :: "(string \<rightharpoonup> string) rclone" where
  "demo_rclone args input objects =
     (let t = last args;
          missing = \<lparr>ro_success = False, ro_stdout = [], ro_stderr = ''object not found''\<rparr>;
          done_with = (\<lambda>out. \<lparr>ro_success = True, ro_stdout = out, ro_stderr = []\<rparr>)
      in case input of
           Some b \<Rightarrow> (Inr (done_with []), objects(t \<mapsto> b))
         | None \<Rightarrow>
             (case objects t of
                None \<Rightarrow> (Inr missing, objects)
              | Some b \<Rightarrow>
                  if ''deletefile'' \<in> set (butlast args) then (Inr (done_with []), objects(t := None))
                  else (Inr (done_with b), objects)))"

definition demo_remote :: rclone_config where
  "demo_remote = \<lparr>rc_remote = ''drive'', rc_path = ''ctf/'', rc_extra_args = []\<rparr>"

lemma demo_rclone_lawful: "lawful_rclone demo_rclone demo_remote id"
  by (auto simp: lawful_rclone_def demo_rclone_def demo_remote_def rclone_missing_def Let_def
      split: option.splits if_splits)


definition demo_sha :: "string \<Rightarrow> string" where
  "demo_sha b = (if b = ''hi'' then [CHR 0x8F] else [CHR 0x01])"

definition demo_form :: "string \<Rightarrow> string \<Rightarrow> form_field option list" where
  "demo_form name b = [Some \<lparr>ff_file_name = Some name, ff_content_type = Some ''text/plain'', ff_bytes = Some b\<rparr>]"

definition demo_files :: "(demo_json world \<times> disk) file_service" where
  "demo_files = wired_files (local_storage ''data'') 100"

definition demo_upload :: "(localized_error + challenge_file) \<times> demo_json world \<times> disk" where
  "demo_upload = api_upload_file demo_sha demo_files ''f1'' (demo_form ''note.txt'' ''hi'') (demo_world demo_db, demo_disk)"

definition demo_uploads :: "(localized_error + (localized_error + challenge_file) list) \<times> demo_json world \<times> disk" where
  "demo_uploads = later_uploads demo_sha demo_files [(''f2'', demo_form ''other'' ''ho''), (''f3'', [])] (snd demo_upload)"

definition demo_download :: "(service_error + stored_file \<times> string) \<times> demo_json world \<times> disk" where
  "demo_download = download demo_files ''f1'' (snd demo_uploads)"

lemma demo_uploaded: "\<not> isl (fst demo_upload)" "\<not> isl (fst demo_download)"
  by code_simp+

theorem uploaded_file_comes_back_case:
  "\<exists>meta. fst demo_download = Inr (meta, ''hi'') \<and> sf_name meta = ''note.txt'' \<and>
     sf_checksum_sha256 meta = ''8f'' \<and> file_url (projr (fst demo_upload)) = ''/api/v1/files/f1''"
proof -
  obtain meta b where get: "demo_download = (Inr (meta, b), snd demo_download)"
    using ok_run [OF demo_uploaded(2)] by (metis surj_pair)
  have "hex_sum demo_sha ''hi'' = ''8f''" by code_simp
  moreover have "first_file (demo_form ''note.txt'' ''hi'') = Some (''note.txt'', ''text/plain'', ''hi'')"
    by (simp add: demo_form_def)
  ultimately show ?thesis
    using uploaded_file_comes_back [OF ok_run [OF demo_uploaded(1), unfolded demo_upload_def demo_files_def]
      prod.collapse [symmetric], where later = "[(''f2'', demo_form ''other'' ''ho''), (''f3'', [])]"] get
    by (simp add: demo_download_def demo_uploads_def demo_upload_def demo_files_def prod_eq_iff)
qed

theorem index_entries_have_their_blobs_case:
  "intact demo_sha (world_files (fst (snd demo_upload))) (local_blobs ''data'' (snd (snd demo_upload))) \<and>
   intact demo_sha (world_files (fst (snd demo_uploads))) (local_blobs ''data'' (snd (snd demo_uploads)))"
proof -
  have start: "intact demo_sha (world_files (demo_world demo_db)) (local_blobs ''data'' demo_disk)"
    "world_files (demo_world demo_db) i = None" for i
    by (simp_all add: intact_def files_in_def demo_db_def)
  have one: "later_uploads demo_sha demo_files [(''f1'', demo_form ''note.txt'' ''hi'')] (demo_world demo_db, demo_disk) =
      (Inr [fst demo_upload], snd demo_upload)"
    by (simp add: later_uploads_def try_await_def attempt_def demo_upload_def split: prod.splits)
  have "later_uploads demo_sha demo_files ((''f1'', demo_form ''note.txt'' ''hi'') #
      [(''f2'', demo_form ''other'' ''ho''), (''f3'', [])]) (demo_world demo_db, demo_disk) =
      (map_sum id ((#) (fst demo_upload)) (fst demo_uploads), snd demo_uploads)"
    unfolding demo_uploads_def later_uploads_def
    by (simp add: try_await_def attempt_def demo_upload_def split: prod.splits sum.splits)
  from index_entries_have_their_blobs [OF _ this [unfolded demo_files_def], unfolded fst_conv snd_conv, OF start(1)]
    index_entries_have_their_blobs [OF _ one [unfolded demo_files_def], unfolded fst_conv snd_conv, OF start(1)]
  show ?thesis using start(2) by simp
qed

section \<open>Notifications\<close>

definition demo_announce :: "notification_target \<Rightarrow> (localized_error + notification) \<times> demo_json world" where
  "demo_announce t =
     api_create_notification demo_app ''n1'' \<lparr>ap_title = ''hi'', ap_message = HtmlString ''all'', ap_target = Some t\<rparr>
       (demo_world demo_early)"

definition demo_inbox :: "notification_target \<Rightarrow> string option \<Rightarrow> (localized_error + notification list) \<times> demo_json world" where
  "demo_inbox t viewer = api_list_notifications demo_app (map_option AccountId viewer) (snd (demo_announce t))"

lemma demo_inbox_team:
  "map_sum id (map nt_target) (fst (demo_inbox (Teams [TeamId ''t1'']) (Some ''a1''))) = Inr [Teams [TeamId ''t1'']]"
  by code_simp

theorem notifications_reach_only_their_target_case:
  "\<exists>acct db'. pg_account_by_id demo_serde (AccountId ''a1'') (w_db (snd (demo_announce (Teams [TeamId ''t1''])))) =
     (Inr (Some acct), db') \<and> acc_team_id acct = Some (TeamId ''t1'')"
proof -
  obtain n where run: "demo_inbox (Teams [TeamId ''t1'']) (Some ''a1'') =
      (Inr [n], snd (demo_inbox (Teams [TeamId ''t1'']) (Some ''a1'')))" and t: "nt_target n = Teams [TeamId ''t1'']"
    using demo_inbox_team by (cases "fst (demo_inbox (Teams [TeamId ''t1'']) (Some ''a1''))") (auto simp: prod_eq_iff)
  from notifications_reach_only_their_target [OF run [unfolded demo_inbox_def], of n] t
  show ?thesis by auto
qed

lemma selects_all: "filter_selects demo_ext subs ''true'' = (\<lambda>_. True)"
  by (simp add: filter_selects_def demo_ext_def fun_eq_iff)

lemma demo_resolved:
  "resolve_target demo_app (Filter ''true'') (demo_world demo_early) =
     (Inr (Accounts (map AccountId [''a1'', ''a2'', ''a3''])), demo_world demo_early)"
  by (simp add: resolve_target_def selects_all try_await_def attempt_def on_db_def pg_accounts_all_def pg_submissions_all_def
      fetch_all_def select_def statement_def decoded_def
      demo_early_def demo_db_def account_row_of_def demo_account_def demo_admin_def demo_solo_def map_account_def demo_serde_def
      role_of_str_def role_str_def or_empty_def demo_world_def)

lemma demo_filtered: "demo_announce (Filter ''true'') = demo_announce (Accounts (map AccountId [''a1'', ''a2'', ''a3'']))"
  by (simp add: demo_announce_def api_create_notification_def try_await_def demo_resolved) (simp add: resolve_target_def)

lemma demo_inbox_filter:
  "\<not> isl (fst (demo_announce (Filter ''true'')))"
  "\<not> isl (fst (demo_inbox (Filter ''true'') (Some ''a3'')))" "\<not> isl (fst (demo_inbox (Filter ''true'') (Some ''b1'')))"
  "length (db_notifications (w_db (snd (demo_announce (Filter ''true''))))) \<le> 100"
  unfolding demo_inbox_def demo_filtered by code_simp+

lemma map_sum_Inr: "map_sum f g y = Inr z \<longleftrightarrow> (\<exists>x. y = Inr x \<and> z = g x)"
  by (cases y) auto

lemma demo_early_typed: "well_typed demo_serde demo_early" "db_faults demo_early = []"
  "list_ex (\<lambda>r. map_sum id acc_id (map_account demo_serde r) = Inr (AccountId ''a3'')) (db_accounts demo_early)"
  "list_all (\<lambda>r. map_sum id acc_id (map_account demo_serde r) \<noteq> Inr (AccountId ''b1'')) (db_accounts demo_early)"
  by code_simp+


section \<open>E-mail\<close>

definition demo_hook :: "string \<Rightarrow> email list \<Rightarrow> nat \<times> email list" where
  "demo_hook token =
     inbound_handler demo_ext (\<lambda>_. None) ''e1'' 1000 (inbound_secret (Some ''s3cret''))
       [(''authorization'', ''Bearer '' @ token), (''x-mail-from'', ''a@b''), (''x-mail-to'', ''c@d'')] ''hello''"

lemma demo_hook_status: "fst (demo_hook ''s3cret'' []) = 200" "fst (demo_hook ''guess'' []) = 401"
  by code_simp+

theorem webhook_fails_closed_case:
  "(\<exists>m. snd (demo_hook ''s3cret'' []) = [m]) \<and> snd (demo_hook ''guess'' []) = []"
proof -
  have "snd (demo_hook token []) = (if fst (demo_hook token []) = 200 then snd (demo_hook token []) else [])
      \<and> (fst (demo_hook token []) = 200 \<longrightarrow> (\<exists>m. snd (demo_hook token []) = drop (1 - MAX_MAILBOX) [m]))" for token
    using webhook_fails_closed [OF demo_ext_lawful, where mailbox = "[]"] unfolding demo_hook_def
    by (metis (no_types, lifting) append_Nil le0 list.size(3) plus_nat.add_0 prod.collapse)
  from this [of "''s3cret''"] this [of "''guess''"] show ?thesis
    by (simp add: demo_hook_status MAX_MAILBOX_def)
qed

definition demo_client :: smtp_client where
  "demo_client = new_client ''mail'' 25 ''ctf@x''"

definition demo_server :: socket where
  "demo_server =
     \<lparr>sk_in = concat (map (\<lambda>l. l @ CRLF) [''220 hi'', ''250 hi'', ''250 ok'', ''250 ok'', ''354 go'', ''250 ok'', ''221 bye'']),
      sk_out = [], sk_faults = []\<rparr>"

definition demo_tls :: tls_library where
  "demo_tls = \<lparr>tls_config = None, server_name = (\<lambda>_. None), handshake = (\<lambda>_ k. Inr k)\<rparr>"

definition demo_mail :: "(mail_stop + unit) \<times> stream option" where
  "demo_mail = send_email demo_tls id ''today'' ''u1'' demo_client (Inr demo_server) ''p@y'' ''Hi'' ''.dot''"

lemma demo_sent: "fst demo_mail = Inr ()" "\<not> Option.is_none (snd demo_mail)"
  by code_simp+

theorem sent_mail_is_caught_case:
  "\<exists>s out'. snd demo_mail = Some s \<and>
     handle_connection ''catcher'' (\<lambda>n. (''id'', 1000)) (conn (sk_out (st_sock s)) [] []) =
       (Inr (), conn [] out'
         [\<lparr>em_id = ''id'', em_from = ''ctf@x'', em_to = ''p@y'', em_subject = ''Hi'',
           em_body = ''.dot'' @ [LF], em_timestamp = 1000\<rparr>])"
proof -
  obtain s where run: "demo_mail = (Inr (), Some s)" using demo_sent by (metis Option.is_none_def not_None_eq prod.collapse)
  have lines: "text_line ''ctf@x'' \<and> text_line ''p@y'' \<and> text_line ''localhost'' \<and> text_line ''today'' \<and> text_line ''u1'' \<and>
      utf8_valid ''Hi'' \<and> utf8_valid ''.dot''"
    by code_simp
  have size: "length (build_message ''today'' ''u1'' ''ctf@x'' ''p@y'' ''Hi'' ''.dot'') \<le> 1000" by code_simp
  have client: "sm_from_email demo_client = ''ctf@x''" "sm_ehlo_name demo_client = ''localhost''" "sm_tls_mode demo_client = NoTls"
    by (simp_all add: demo_client_def new_client_def)
  have caught: "trim ''ctf@x'' = ''ctf@x''" "trim ''p@y'' = ''p@y''" "trim (header_safe ''Hi'') = ''Hi''"
    "caught_body ''.dot'' = ''.dot'' @ [LF]"
    by code_simp+
  from size have "length (build_message ''today'' ''u1'' ''ctf@x'' ''p@y'' ''Hi'' ''.dot'') \<le> MAX_MESSAGE_BYTES"
    by (simp add: MAX_MESSAGE_BYTES_def)
  with sent_mail_is_caught [OF run [unfolded demo_mail_def], where mb = "[]" and h = "''catcher''" and stamp = "\<lambda>n. (''id'', 1000)"]
  have "\<exists>out'. handle_connection ''catcher'' (\<lambda>n. (''id'', 1000)) (conn (sk_out (st_sock s)) [] []) =
       (Inr (), conn [] out'
         [\<lparr>em_id = ''id'', em_from = ''ctf@x'', em_to = ''p@y'', em_subject = ''Hi'',
           em_body = ''.dot'' @ [LF], em_timestamp = 1000\<rparr>])"
    by (simp add: client lines caught demo_server_def)
  moreover have "snd demo_mail = Some s" unfolding run by (rule snd_conv)
  ultimately show ?thesis by blast
qed

section \<open>The proxy\<close>

definition demo_upstream :: "nat http_client" where
  "demo_upstream q n = (Inr \<lparr>pp_status = 200, pp_headers = [], pp_body = pq_url q\<rparr>, Suc n)"

definition demo_request :: incoming_request where
  "demo_request =
     \<lparr>rq_method = ''GET'', rq_path_and_query = Some ''/x'',
      rq_headers = [(''host'', ''inst-77.ctf.example''), (''cookie'', ''session''), (''accept'', ''text'')],
      rq_body = Some []\<rparr>"

definition demo_running :: "demo_json db" where
  "demo_running = demo_db\<lparr>db_instances :=
     [\<lparr>irow_id = ''inst-77'', irow_challenge_id = ''c1'', irow_team_id = Some ''t1'', irow_account_id = ''a1'',
       irow_flag = ''flag{x}'', irow_cluster_ip = ''10.1.0.7'', irow_created_at = 900, irow_expires_at = 1600\<rparr>]\<rparr>"

definition demo_proxied :: "(nat + proxied_response) \<times> demo_json world \<times> nat" where
  "demo_proxied = proxy_handler demo_upstream demo_request (demo_world demo_running, 0)"

lemma demo_proxied_ok: "\<not> isl (fst demo_proxied)"
proof -
  have "extract_instance_id (or_nil (get_header (rq_headers demo_request) ''host'')) = Some ''inst-77''" by code_simp
  moreover have "pg_instance_ip ''inst-77'' demo_running = (Inr (Some ''10.1.0.7''), demo_running)"
    by (simp add: pg_instance_ip_def fetch_optional_def select_def statement_def try_await_def demo_running_def demo_db_def)
  ultimately show ?thesis
    unfolding demo_proxied_def proxy_handler_def
    by (simp add: try_await_def map_err_def on_fst_def on_snd_def on_db_def demo_upstream_def)
       (simp add: demo_request_def try_await_def map_err_def on_snd_def demo_upstream_def)
qed

theorem proxy_leaks_no_credentials_case:
  "\<exists>(q :: proxied_request) res. fst demo_proxied = Inr res \<and> pp_body res = pq_url q \<and> (\<forall>v. (''cookie'', v) \<notin> set (pq_headers q))"
proof -
  obtain resp w u where run: "demo_proxied = (Inr resp, (w, u))" using ok_run [OF demo_proxied_ok] by (metis surj_pair)
  from proxy_leaks_no_credentials [OF run [unfolded demo_proxied_def]]
  obtain q :: proxied_request where "pp_body resp = pq_url q" "\<forall>(k, v) \<in> set (pq_headers q). k \<noteq> ''cookie''"
    by (auto simp: demo_upstream_def split_beta)
  then have "pp_body resp = pq_url q \<and> (\<forall>v. (''cookie'', v) \<notin> set (pq_headers q))" by blast
  then show ?thesis unfolding run fst_conv by blast
qed

end
