(* ===== verification/Messages.thy ===== *)
theory Messages
  imports Files Notices Accounts Smtp Gateway
begin

text \<open>
  The words the server answers with: the \<open>localize\<close> functions of the error types, and the
  localized OpenAPI document, \<open>src/src/libs/api/openapi.rs\<close>. The lookups of the
  \<open>fluent_templates\<close> crate are a parameter.
\<close>

section \<open>Languages\<close>

text \<open>
  \<open>'l\<close> is the crate's language identifier. A lookup falls back to the bundle of en-US by itself.
\<close>

record 'l fluent =
  fl_parse :: "string \<Rightarrow> 'l option"
  fl_en_us :: 'l
  fl_lookup :: "'l \<Rightarrow> string \<Rightarrow> string"
  fl_lookup_with_args :: "'l \<Rightarrow> string \<Rightarrow> (string \<times> string) list \<Rightarrow> string"

definition lang_id :: "'l fluent \<Rightarrow> string \<Rightarrow> 'l" where
  "lang_id F lang = (case fl_parse F lang of Some l \<Rightarrow> l | None \<Rightarrow> fl_en_us F)"

definition repo_localize :: "'l fluent \<Rightarrow> string \<Rightarrow> repo_error \<Rightarrow> string" where
  "repo_localize F lang e =
     (let l = lang_id F lang in
      case e of
        Connection _ \<Rightarrow> fl_lookup F l ''server-db-connection-failed''
      | NotFound \<Rightarrow> fl_lookup F l ''ctf-challenge-not-found''
      | Conflict key \<Rightarrow> fl_lookup F l key
      | Internal err \<Rightarrow> fl_lookup_with_args F l ''admin-db-internal-error'' [(''reason'', err)])"

definition service_localize :: "'l fluent \<Rightarrow> string \<Rightarrow> service_error \<Rightarrow> string" where
  "service_localize F lang e =
     (let l = lang_id F lang in
      case e of
        Repo err \<Rightarrow> repo_localize F lang err
      | Unauthorized \<Rightarrow> fl_lookup F l ''auth-not-logged-in''
      | InvalidRequest key \<Rightarrow> fl_lookup F l key
      | RateLimitExceeded \<Rightarrow> fl_lookup F l ''ctf-rate-limit-exceeded''
      | OAuth reason \<Rightarrow> fl_lookup_with_args F l ''oauth-invalid-credentials'' [(''reason'', reason)]
      | Kube reason \<Rightarrow> fl_lookup_with_args F l ''kube-api-error'' [(''reason'', reason)])"

text \<open>The texts of serde's and base64's own errors are \<open>reason\<close>.\<close>

definition jwt_localize :: "'l fluent \<Rightarrow> string \<Rightarrow> string \<Rightarrow> jwt_error \<Rightarrow> string" where
  "jwt_localize F lang reason e =
     (let l = lang_id F lang in
      case e of
        InvalidFormat \<Rightarrow> fl_lookup F l ''jwt-invalid-format''
      | InvalidSignature \<Rightarrow> fl_lookup F l ''jwt-invalid-signature''
      | Expired \<Rightarrow> fl_lookup F l ''jwt-token-expired''
      | NotYetValid \<Rightarrow> fl_lookup F l ''jwt-not-yet-valid''
      | InvalidJson \<Rightarrow> fl_lookup_with_args F l ''jwt-invalid-json'' [(''reason'', reason)]
      | Base64DecodeError \<Rightarrow> fl_lookup_with_args F l ''jwt-base64-error'' [(''reason'', reason)])"

definition email_localize :: "'l fluent \<Rightarrow> string \<Rightarrow> email_error \<Rightarrow> string" where
  "email_localize F lang e =
     (case email_error_key e of (key, args) \<Rightarrow>
        if args = [] then fl_lookup F (lang_id F lang) key else fl_lookup_with_args F (lang_id F lang) key args)"

section \<open>The OpenAPI document\<close>

text \<open>\<open>serde_json::Value\<close>; an object is the list of its members in the map's order.\<close>

datatype spec_value =
    SNull
  | SBool bool
  | SNumber string
  | SString string
  | SArray "spec_value list"
  | SObject "(string \<times> spec_value) list"

definition text_key :: "string \<Rightarrow> bool" where
  "text_key k \<longleftrightarrow> k \<in> {''summary'', ''description'', ''title''}"

definition localized_text :: "(string \<Rightarrow> string) \<Rightarrow> string \<Rightarrow> string" where
  "localized_text look s =
     (if find_ws s = None then (let t = look s in if t \<noteq> [] \<and> t \<noteq> s then t else s) else s)"

function localize_spec :: "(string \<Rightarrow> string) \<Rightarrow> spec_value \<Rightarrow> spec_value" where
  "localize_spec look (SObject members) =
     SObject (map (\<lambda>p. (fst p,
       if text_key (fst p) then
         (case snd p of SString s \<Rightarrow> SString (localized_text look s) | _ \<Rightarrow> snd p)
       else localize_spec look (snd p))) members)"
| "localize_spec look (SArray vs) = SArray (map (localize_spec look) vs)"
| "localize_spec look SNull = SNull"
| "localize_spec look (SBool b) = SBool b"
| "localize_spec look (SNumber n) = SNumber n"
| "localize_spec look (SString s) = SString s"
  by pat_completeness auto
termination
proof (relation "measure (\<lambda>(look, v). size v)")
  fix look :: "string \<Rightarrow> string" and members :: "(string \<times> spec_value) list" and p
  assume "p \<in> set members"
  then have "size (snd p) < Suc (size_list (size_prod (\<lambda>_. 0) size) members)"
    by (induction members) auto
  then show "((look, snd p), (look, SObject members)) \<in> measure (\<lambda>(look, v). size v)" by simp
next
  fix look :: "string \<Rightarrow> string" and vs :: "spec_value list" and v
  assume "v \<in> set vs"
  then show "((look, v), (look, SArray vs)) \<in> measure (\<lambda>(look, v). size v)"
    by (auto simp: less_Suc_eq_le size_list_estimation')
qed simp

text \<open>
  The document served: the parsed \<open>openapi.yaml\<close>, its texts in the asked language, or else the
  preferred one, and serialized by serde.
\<close>

definition spec_in :: "'l fluent \<Rightarrow> string \<Rightarrow> string option \<Rightarrow> spec_value \<Rightarrow> spec_value" where
  "spec_in F preferred asked doc =
     localize_spec (fl_lookup F (lang_id F (case asked of Some q \<Rightarrow> q | None \<Rightarrow> preferred))) doc"

definition openapi_yaml ::
    "'l fluent \<Rightarrow> spec_value \<Rightarrow> (spec_value \<Rightarrow> string) \<Rightarrow> headers \<Rightarrow> string option \<Rightarrow> string \<times> string" where
  "openapi_yaml F doc to_yaml hs asked = (''application/yaml'', to_yaml (spec_in F (get_lang hs) asked doc))"

definition openapi_json ::
    "'l fluent \<Rightarrow> spec_value \<Rightarrow> (spec_value \<Rightarrow> string) \<Rightarrow> headers \<Rightarrow> string option \<Rightarrow> string \<times> string" where
  "openapi_json F doc to_json hs asked = (''application/json'', to_json (spec_in F (get_lang hs) asked doc))"

definition api_docs :: "string option \<Rightarrow> nat \<times> string" where
  "api_docs page =
     (case page of
        Some html \<Rightarrow> (200, html)
      | None \<Rightarrow> (404, ''docs not built - run `npm run build` in apidocs/''))"

text \<open>A place in a document, and the value there.\<close>

datatype spec_step = Member string | Item nat

fun value_at :: "spec_value \<Rightarrow> spec_step list \<Rightarrow> spec_value option" where
  "value_at v [] = Some v"
| "value_at (SObject members) (Member k # path) =
     (case map_of members k of Some v \<Rightarrow> value_at v path | None \<Rightarrow> None)"
| "value_at (SArray vs) (Item i # path) = (if i < length vs then value_at (vs ! i) path else None)"
| "value_at _ _ = None"

fun text_step :: "spec_step \<Rightarrow> bool" where
  "text_step (Member k) = text_key k"
| "text_step (Item _) = False"

definition localized_value :: "(string \<Rightarrow> string) \<Rightarrow> spec_value \<Rightarrow> spec_value" where
  "localized_value look v = (case v of SString s \<Rightarrow> SString (localized_text look s) | _ \<Rightarrow> v)"

lemma localize_member:
  "value_at (localize_spec look (SObject ms)) (Member k # path) =
     (case map_of ms k of
        None \<Rightarrow> None
      | Some v \<Rightarrow> value_at (if text_key k then localized_value look v else localize_spec look v) path)"
proof -
  let ?f = "\<lambda>k v. if text_key k then localized_value look v else localize_spec look v"
  have eq: "localize_spec look (SObject ms) = SObject (map (\<lambda>p. (fst p, ?f (fst p) (snd p))) ms)"
    by (simp add: localized_value_def cong: map_cong)
  have at: "map_of (map (\<lambda>p. (fst p, ?f (fst p) (snd p))) ms) k = map_option (?f k) (map_of ms k)"
    by (induction ms) auto
  show ?thesis unfolding eq value_at.simps at by (cases "map_of ms k") simp_all
qed

lemma localized_value_below: "value_at (localized_value look v) (x # path) = value_at v (x # path)"
  by (cases v) (simp_all add: localized_value_def)

lemma same_branches: "(case xs of [] \<Rightarrow> c | [_] \<Rightarrow> c | _ \<Rightarrow> c) = c"
  by (simp split: list.split)

lemma localized_nowhere:
  assumes "value_at (localize_spec look v) path = None" "value_at v path = None"
  shows "value_at (localize_spec look v) path =
     (case dropWhile (\<lambda>x. \<not> text_step x) path of
        [] \<Rightarrow> map_option (localize_spec look) (value_at v path)
      | [_] \<Rightarrow> map_option (localized_value look) (value_at v path)
      | _ \<Rightarrow> value_at v path)"
  unfolding assms by (simp only: option.map same_branches)


text \<open>A schema's property that is itself called description keeps the key of its text.\<close>

theorem property_named_description_keeps_its_key:
  "localize_spec look (SObject [(''description'',
      SObject [(''type'', SString ''string''), (''description'', SString ''schema-rendered-html'')])]) =
   SObject [(''description'',
      SObject [(''type'', SString ''string''), (''description'', SString ''schema-rendered-html'')])]"
  by (simp add: text_key_def)

end
