(* ===== verification/Replies.thy ===== *)
theory Replies
  imports Messages
begin

text \<open>
  Every error a handler can answer has a message: the keys of the bundles
  \<open>src/locales/en-US/errors.ftl\<close> and \<open>src/locales/ja-JP/errors.ftl\<close>, and the errors of every
  repository method, service and handler carried to them.
\<close>

section \<open>The bundles\<close>

text \<open>The keys with the parameters of their texts, in the order of both files.\<close>

definition error_messages :: "(string \<times> string list) list" where
  "error_messages =
    [(''server-db-connection-failed'', []),
     (''admin-db-internal-error'', [''reason'']),
     (''ctf-challenge-not-found'', []),
     (''ctf-already-solved'', []),
     (''ctf-hint-not-found'', []),
     (''ctf-insufficient-points'', []),
     (''ctf-challenge-locked'', []),
     (''ctf-max-attempts-reached'', []),
     (''ctf-requirements-not-met'', []),
     (''ctf-incorrect-flag'', []),
     (''ctf-instance-expired-or-not-found'', []),
     (''ctf-rate-limit-exceeded'', []),
     (''auth-not-logged-in'', []),
     (''auth-admin-required'', []),
     (''auth-invalid-credentials'', []),
     (''auth-username-taken'', []),
     (''auth-hash-failed'', []),
     (''auth-token-generation-failed'', []),
     (''auth-oauth-token-failed'', []),
     (''auth-oauth-token-parse-failed'', []),
     (''auth-oauth-token-missing'', []),
     (''auth-oauth-profile-failed'', []),
     (''auth-oauth-profile-parse-failed'', []),
     (''oauth-invalid-credentials'', [''reason'']),
     (''auth-missing-header'', []),
     (''auth-invalid-scheme'', []),
     (''auth-invalid-token'', [''reason'']),
     (''jwt-invalid-format'', []),
     (''jwt-invalid-signature'', []),
     (''jwt-invalid-signature-secret-key'', []),
     (''jwt-token-expired'', []),
     (''jwt-not-yet-valid'', []),
     (''jwt-invalid-json'', [''reason'']),
     (''jwt-base64-error'', [''reason'']),
     (''kube-api-error'', [''reason'']),
     (''ctf-team-not-found'', []),
     (''ctf-not-captain'', []),
     (''ctf-invalid-invite-token'', []),
     (''ctf-bracket-domain-restricted'', []),
     (''ctf-file-too-large'', []),
     (''ctf-file-not-found'', []),
     (''ctf-file-invalid-id'', []),
     (''ctf-file-missing'', []),
     (''email-connect-failed'', [''reason'']),
     (''email-io-error'', [''reason'']),
     (''email-tls-failed'', [''reason'']),
     (''email-invalid-server-name'', [''reason'']),
     (''email-already-secured'', []),
     (''email-unexpected-eof'', []),
     (''email-invalid-response'', []),
     (''email-command-rejected'', [''phase'', ''code'']),
     (''email-starttls-unsupported'', []),
     (''email-auth-unsupported'', []),
     (''email-auth-failed'', []),
     (''email-auth-requires-tls'', []),
     (''email-message-too-large'', [])]"

definition has_message :: "string \<Rightarrow> bool" where
  "has_message key \<longleftrightarrow> key \<in> fst ` set error_messages"

text \<open>What the lookup of an error passes to its message.\<close>

definition service_error_params :: "service_error \<Rightarrow> string list" where
  "service_error_params e =
     (case e of
        Repo (Internal _) \<Rightarrow> [''reason''] | OAuth _ \<Rightarrow> [''reason''] | Kube _ \<Rightarrow> [''reason''] | _ \<Rightarrow> [])"

definition explained :: "service_error \<Rightarrow> bool" where
  "explained e \<longleftrightarrow> map_of error_messages (service_error_key e) = Some (service_error_params e)"

definition answered :: "localized_error \<Rightarrow> bool" where
  "answered e \<longleftrightarrow> has_message (err_key e)"

lemma explained_simps [simp]:
  "explained (Repo (Connection m))" "explained (Repo NotFound)" "explained (Repo (Internal m))"
  "explained Unauthorized" "explained RateLimitExceeded" "explained (OAuth m)" "explained (Kube m)"
  by (simp_all add: explained_def service_error_key_def service_error_params_def error_messages_def)

lemma explained_keys [simp]:
  "explained (Repo (Conflict ''auth-username-taken''))"
  "explained (InvalidRequest ''auth-username-taken'')"
  "explained (InvalidRequest ''auth-hash-failed'')"
  "explained (InvalidRequest ''auth-invalid-credentials'')"
  "explained (InvalidRequest ''ctf-challenge-not-found'')"
  "explained (InvalidRequest ''ctf-already-solved'')"
  "explained (InvalidRequest ''ctf-incorrect-flag'')"
  "explained (InvalidRequest ''ctf-max-attempts-reached'')"
  "explained (InvalidRequest ''ctf-requirements-not-met'')"
  "explained (InvalidRequest ''ctf-challenge-locked'')"
  "explained (InvalidRequest ''ctf-hint-not-found'')"
  "explained (InvalidRequest ''ctf-team-not-found'')"
  "explained (InvalidRequest ''ctf-insufficient-points'')"
  "explained (InvalidRequest ''ctf-file-too-large'')"
  "explained (InvalidRequest ''ctf-file-not-found'')"
  "explained (InvalidRequest ''ctf-file-invalid-id'')"
  by code_simp+

lemma answered_keys [simp]:
  "answered (LocalizedError n ''auth-missing-header'')" "answered (LocalizedError n ''auth-invalid-scheme'')"
  "answered (LocalizedError n ''auth-invalid-token'')" "answered (LocalizedError n ''auth-admin-required'')"
  "answered (LocalizedError n ''ctf-challenge-locked'')" "answered (LocalizedError n ''ctf-challenge-not-found'')"
  "answered (LocalizedError n ''ctf-not-captain'')" "answered (LocalizedError n ''ctf-team-not-found'')"
  "answered (LocalizedError n ''ctf-bracket-domain-restricted'')"
  "answered (LocalizedError n ''ctf-invalid-invite-token'')" "answered (LocalizedError n ''ctf-file-missing'')"
  by code_simp+

lemma answered_explained:
  assumes "explained e"
  shows "answered (LocalizedError n (service_error_key e))"
proof -
  from assms have "(service_error_key e, service_error_params e) \<in> set error_messages"
    unfolding explained_def by (rule map_of_SomeD)
  then show ?thesis by (force simp: answered_def has_message_def)
qed

section \<open>The errors of an action\<close>

text \<open>Every error \<open>m\<close> can end with satisfies \<open>P\<close>.\<close>

definition errs :: "('e \<Rightarrow> bool) \<Rightarrow> ('s, 'e, 'a) act \<Rightarrow> bool" where
  "errs P m \<longleftrightarrow> (\<forall>s. case fst (m s) of Inl e \<Rightarrow> P e | Inr _ \<Rightarrow> True)"

named_theorems errs_rules \<open>the errors of composed actions\<close>

lemma errsI: "(\<And>s e s'. m s = (Inl e, s') \<Longrightarrow> P e) \<Longrightarrow> errs P m"
  by (auto simp: errs_def split: sum.split) (metis prod.collapse)

lemma errsD: "errs P m \<Longrightarrow> m s = (Inl e, s') \<Longrightarrow> P e"
  by (metis errs_def fst_conv old.sum.simps(5))

lemma errs_ret [errs_rules]: "errs P (ret x)"
  by (simp add: errs_def ret_def)

lemma errs_fail [errs_rules]: "P e \<Longrightarrow> errs P (fail e)"
  by (simp add: errs_def fail_def)

lemma errs_attempt [errs_rules]: "errs P (attempt m)"
  by (auto simp: attempt_eq intro: errsI)

lemma errs_try_await [errs_rules]: "errs P m \<Longrightarrow> (\<And>x. errs P (k x)) \<Longrightarrow> errs P (try_await m k)"
  by (auto intro!: errsI elim!: try_await_cases dest: errsD)

lemma errs_map_err: "(\<And>e. Q e \<Longrightarrow> P (f e)) \<Longrightarrow> errs Q m \<Longrightarrow> errs P (map_err f m)"
proof (rule errsI)
  fix s e s'
  assume f: "\<And>e. Q e \<Longrightarrow> P (f e)" and m: "errs Q m" and "map_err f m s = (Inl e, s')"
  then obtain e0 where "m s = (Inl e0, s')" "e = f e0" by (auto simp: map_err_Inl)
  with f [OF errsD [OF m]] show "P e" by simp
qed

lemma errs_repo_call [errs_rules]: "errs (\<lambda>e. explained (Repo e)) m \<Longrightarrow> errs explained (repo_call m)"
  unfolding repo_call_def by (rule errs_map_err)

lemma errs_localized [errs_rules]: "errs explained m \<Longrightarrow> errs answered (localized m)"
  unfolding localized_def map_localized_def by (erule errs_map_err [rotated]) (rule answered_explained)

lemma errs_repo_failed [errs_rules]: "errs (\<lambda>e. explained (Repo e)) m \<Longrightarrow> errs answered (map_err repo_failed m)"
  unfolding repo_failed_def by (erule errs_map_err [rotated]) (rule answered_explained)

lemma errs_on_db [errs_rules]: "errs P m \<Longrightarrow> errs P (on_db m)"
  by (auto simp: errs_def on_db_def split: prod.splits sum.splits) (metis fst_conv)

lemma errs_beside [errs_rules]: "errs P m \<Longrightarrow> errs P (on_fst m)"
  by (auto simp: on_fst_eq intro!: errsI dest: errsD)

lemma errs_if [errs_rules]: "errs P m \<Longrightarrow> errs P n \<Longrightarrow> errs P (if b then m else n)"
  by simp

lemma errs_case_option [errs_rules]:
  "errs P m \<Longrightarrow> (\<And>x. errs P (k x)) \<Longrightarrow> errs P (case y of None \<Rightarrow> m | Some x \<Rightarrow> k x)"
  by (cases y) simp_all

lemma errs_case_sum [errs_rules]:
  "(\<And>e. errs P (f e)) \<Longrightarrow> (\<And>x. errs P (k x)) \<Longrightarrow> errs P (case y of Inl e \<Rightarrow> f e | Inr x \<Rightarrow> k x)"
  by (cases y) simp_all

lemma errs_case_prod [errs_rules]: "(\<And>a b. errs P (k a b)) \<Longrightarrow> errs P (case p of (a, b) \<Rightarrow> k a b)"
  by (cases p) simp

lemma errs_each [errs_rules]: "(\<And>x. errs P (f x)) \<Longrightarrow> errs P (each f xs)"
  by (induction xs) (auto intro!: errs_rules)

lemma errs_local: "(\<And>s. errs P (m s)) \<Longrightarrow> errs P (\<lambda>s. m s s)"
  by (simp add: errs_def)

section \<open>Repositories\<close>

abbreviation repo_errs :: "('s, repo_error, 'a) act \<Rightarrow> bool" where
  "repo_errs \<equiv> errs (\<lambda>e. explained (Repo e))"

lemma driver_errors: "explained (Repo (repo_error_of_sqlx e))"
  by (simp add: repo_error_of_sqlx_def split: sqlx_error.split)

lemma statement_errs [errs_rules]: "repo_errs (statement q)"
  by (auto simp: errs_def statement_def Let_def driver_errors split: list.split option.split prod.split sum.split)

lemma statements_errs [errs_rules]:
  "repo_errs (select f)" "repo_errs (change g)" "repo_errs (fetch_optional t c)" "repo_errs (fetch_all t c)"
  unfolding select_def change_def fetch_optional_def fetch_all_def by (rule statement_errs)+

lemma decoded_errs [errs_rules]: "repo_errs (decoded r)" "repo_errs (decoded_opt f row)"
  unfolding decoded_opt_def decoded_def decode_error_def by (intro errs_rules driver_errors)+

lemma account_errs [errs_rules]:
  "repo_errs (pg_account_by_id J a)" "repo_errs (pg_account_by_username J n)" "repo_errs (pg_account_by_ctftime J i)"
  "repo_errs (pg_accounts_all J)" "repo_errs (pg_account_save J x)" "repo_errs (pg_account_update J x)"
  unfolding pg_account_by_id_def pg_account_by_username_def pg_account_by_ctftime_def pg_accounts_all_def
    pg_account_save_def pg_account_update_def Let_def
  by (intro errs_rules)+

lemma team_errs [errs_rules]:
  "repo_errs (pg_team_by_id J t)" "repo_errs (pg_team_by_name J n)" "repo_errs (pg_team_by_ctftime J i)"
  "repo_errs (pg_teams_all J)" "repo_errs (pg_team_save J tm)" "repo_errs (pg_team_update J tm)"
  unfolding pg_team_by_id_def pg_team_by_name_def pg_team_by_ctftime_def pg_teams_all_def pg_team_save_def
    pg_team_update_def map_team_opt_def map_team_def insert_team_def update_team_row_def clear_team_members_def
    set_members_def set_account_team_def Let_def
  by (intro errs_rules)+

lemma row_errs [errs_rules]:
  "repo_errs pg_submissions_all" "repo_errs (pg_submissions_by_team t)" "repo_errs (pg_submission_save x)"
  "repo_errs pg_hints_all" "repo_errs (pg_hints_for c tm a)" "repo_errs (pg_hint_save u)"
  "repo_errs (pg_file_save f)" "repo_errs (pg_file_by_id i)" "repo_errs (pg_file_delete i)"
  unfolding pg_submissions_all_def pg_submissions_by_team_def pg_submission_save_def pg_hints_all_def
    pg_hints_for_def pg_hint_save_def pg_file_save_def pg_file_by_id_def pg_file_delete_def Let_def
  by (intro errs_rules)+

lemma challenge_errs [errs_rules]:
  "repo_errs (pg_challenge_by_id J c)" "repo_errs (pg_challenges_all J)" "repo_errs (pg_challenge_save J ch)"
  "repo_errs (pg_challenge_update J ch)" "repo_errs (pg_challenge_delete c b)"
  "repo_errs (pg_notification_save J n)"
  unfolding pg_challenge_by_id_def pg_challenges_all_def pg_challenge_save_def pg_challenge_update_def
    pg_challenge_delete_def with_binds_def pg_notification_save_def Let_def
  by (intro errs_rules)+

lemma active_flag_errs [errs_rules]: "repo_errs (pg_active_flag c tm a)"
  unfolding pg_active_flag_def Let_def by (rule errs_local) (intro errs_rules)

lemma recent_errs [errs_rules]: "repo_errs (pg_notifications_recent J limit)"
  unfolding pg_notifications_recent_def by (intro errs_rules explained_simps)

section \<open>Services\<close>

lemmas pg_parts = pg_services pg_repos pg_account_repo_def pg_notification_repo_def

lemma service_parts:
  "sv_challenge_repo (pg_solve_service J) = pg_challenge_repo J"
  "sv_submission_repo (pg_solve_service J) = pg_submission_repo"
  "sv_team_repo (pg_solve_service J) = pg_team_repo J"
  "hs_challenge_repo (pg_hint_service J mode) = pg_challenge_repo J"
  "hs_submission_repo (pg_hint_service J mode) = pg_submission_repo"
  "hs_team_repo (pg_hint_service J mode) = pg_team_repo J"
  "hs_hint_unlock_repo (pg_hint_service J mode) = pg_hint_repo"
  "sb_team_repo (pg_scoreboard_service J acc freeze mode) = pg_team_repo J"
  "sb_challenge_repo (pg_scoreboard_service J acc freeze mode) = pg_challenge_repo J"
  "sb_submission_repo (pg_scoreboard_service J acc freeze mode) = pg_submission_repo"
  "sb_hint_unlock_repo (pg_scoreboard_service J acc freeze mode) = pg_hint_repo"
  by (simp_all add: pg_services)

lemma selectors_errs [errs_rules]:
  "repo_errs (ir_find_active_flag (pg_challenge_repo J) c tm a)" "repo_errs (cr_find_by_id (pg_challenge_repo J) c)"
  "repo_errs (cr_find_all (pg_challenge_repo J))" "repo_errs (sr_find_all pg_submission_repo)"
  "repo_errs (sr_find_by_team pg_submission_repo t)" "repo_errs (sr_save pg_submission_repo x)"
  "repo_errs (tr_find_by_id (pg_team_repo J) t)" "repo_errs (tr_find_all (pg_team_repo J))"
  "repo_errs (tr_find_by_ctftime_id (pg_team_repo J) i)" "repo_errs (tr_save (pg_team_repo J) m)"
  "repo_errs (tr_update (pg_team_repo J) m)"
  "repo_errs (hr_find_all pg_hint_repo)" "repo_errs (hr_find_for pg_hint_repo c tm a)" "repo_errs (hr_save pg_hint_repo u)"
  "repo_errs (ar_find_by_username (pg_account_repo J) n)" "repo_errs (ar_find_by_ctftime_id (pg_account_repo J) i)"
  "repo_errs (ar_save (pg_account_repo J) acc)"
  "repo_errs (nr_save (pg_notification_repo J) nt)" "repo_errs (nr_list_recent (pg_notification_repo J) k)"
  unfolding pg_parts by (simp_all add: errs_rules)

lemma submit_flag_errs [errs_rules]: "errs explained (submit_flag X (pg_solve_service J) nid now c tm a f ip)"
proof -
  have count: "errs explained (count_full_solves (pg_solve_service J) ch m n)" for ch m n
    by (induction m arbitrary: n) (auto simp: pg_solve_service_def intro!: errs_rules)
  show ?thesis
    unfolding submit_flag_def check_max_attempts_def check_requirements_def grade_and_record_def record_submission_def
      existing_correct_subs_def solve_count_def reaches_consensus_def candidate_subs_def service_parts Let_def
    by (intro errs_rules count explained_keys)
qed

lemma hint_service_errs [errs_rules]:
  "errs explained (viewer_unlocks (pg_hint_service J mode) tm a)"
  "errs explained (unlock_hint X (pg_hint_service J mode) nid c i tm a now admin)"
  unfolding viewer_unlocks_def unlock_hint_def authorize_hint_def serve_hint_def charge_hint_def afford_hint_def
    service_parts Let_def
  by (intro errs_rules explained_keys)+

lemma scoreboard_service_errs [errs_rules]:
  "errs explained (get_scoreboard X (pg_scoreboard_service J acc freeze mode) b)"
  "errs explained (export_ctftime X (pg_scoreboard_service J acc freeze mode))"
  unfolding export_ctftime_def get_scoreboard_def service_parts Let_def by (intro errs_rules)+

lemma errs_case_reply:
  "errs P m \<Longrightarrow> errs P n \<Longrightarrow> (\<And>x. errs P (k x)) \<Longrightarrow>
    errs P (case r of SendFailed \<Rightarrow> m | ParseFailed \<Rightarrow> n | Body x \<Rightarrow> k x)"
  by (cases r) simp_all

lemma free_name_errs [errs_rules]: "errs explained (free_name n (pg_account_repo J) base k name)"
  by (induction n arbitrary: k name) (auto intro!: errs_rules)

lemma auth_service_errs [errs_rules]:
  "errs explained (register G (pg_account_repo J) nid salt now user email pw)"
  "errs explained (login G K secret now (pg_account_repo J) user pw)"
  "errs explained (handle_callback fuel K secret H cfg (pg_account_repo J) (pg_team_repo J) nid ntid now code)"
  unfolding register_def login_def hash_password_def handle_callback_def fetch_profile_def new_ctftime_account_def
    profile_team_def ctftime_team_def enrol_member_def Let_def
  by (intro errs_rules errs_case_reply explained_keys explained_simps)+

lemma storage_call_errs [errs_rules]: "errs explained (storage_call m)"
  unfolding storage_call_def
  by (rule errsI) (auto simp: map_err_Inl storage_failed_def split: storage_error.split)

lemma file_service_errs [errs_rules]:
  "errs explained (upload sha256 nid (wired_files FS limit) name ct bytes now)"
  "errs explained (download (wired_files FS limit) i)"
  unfolding upload_def download_def wired_sel index_beside_def world_file_repo_def
  by (simp_all add: errs_rules)

section \<open>Handlers\<close>

lemma small_errs [errs_rules]: "errs P now_is" "errs P (broadcast n)" "errs P (find_account A a)"
  unfolding find_account_def by (auto simp: now_is_def broadcast_def intro!: errsI errs_rules)

lemma limit_call_errs [errs_rules]: "errs answered (limit_call key n)"
  using answered_explained [of RateLimitExceeded 429]
  by (auto simp: limit_call_def map_localized_def service_error_status_def intro!: errsI split: prod.splits if_splits)

lemma unauthorized_answered [simp]: "answered (map_localized Unauthorized)"
  by (simp add: map_localized_def answered_explained)

lemma user_answered: "case authenticated_user K now secret hs of Inl e \<Rightarrow> answered e | Inr _ \<Rightarrow> True"
  by (simp add: authenticated_user_def split: option.split sum.split)

lemma extractor_errs: "errs answered (admin_user K now secret AR hs)"
  using user_answered [of K now secret hs] unfolding admin_user_def
  by (auto split: sum.split intro!: errs_rules)

lemma game_errs:
  "errs answered (api_submit_flag A nid mid user ip c flag)" "errs answered (api_unlock_hint A nid user c i)"
  "errs answered (api_create_invite A user t h)"
  unfolding api_submit_flag_def api_unlock_hint_def api_create_invite_def visibility_gate_def maybe_broadcast_solve_def
    challenge_title_or_id_def solver_name_def Let_def
  by (intro errs_rules answered_keys unauthorized_answered)+

lemma challenge_handler_errs:
  "errs answered (api_list_challenges A user)" "errs answered (api_get_challenge A user c)"
  "errs answered (api_create_challenge A ch)" "errs answered (api_update_challenge A c ch)"
  "errs answered (api_delete_challenge c solves)"
  unfolding api_list_challenges_def api_get_challenge_def api_create_challenge_def api_update_challenge_def
    api_delete_challenge_def Let_def
  by (intro errs_rules answered_keys)+

lemma account_handler_errs:
  "errs answered (api_register G A nid salt ip user email pw)" "errs answered (api_login G A ip user pw)"
  "errs answered (api_oauth_callback fuel H cfg A nid ntid code)"
  unfolding api_register_def api_login_def api_oauth_callback_def by (intro errs_rules)+

lemma file_handler_errs:
  "errs answered (api_upload_file sha256 (wired_files FS limit) nid form)"
  "errs answered (api_download_file (wired_files FS limit) i)"
  unfolding api_upload_file_def api_download_file_def by (intro errs_rules answered_keys)+

lemma notice_handler_errs:
  "errs answered (api_create_notification A nid p)" "errs answered (api_list_notifications A viewer)"
  "errs answered (api_notifications_stream json A viewer received)"
  unfolding api_create_notification_def api_list_notifications_def api_notifications_stream_def resolve_target_def
    announce_def list_recent_def viewer_identity_def Let_def
  by (cases "case ap_target p of Some t \<Rightarrow> t | None \<Rightarrow> everyone"; intro errs_rules unauthorized_answered; simp add: errs_rules)+

lemma board_handler_errs:
  "errs answered (api_get_scoreboard A (pg_scoreboard_service J acc freeze mode) b)"
  "errs answered (api_export_scoreboard A (pg_scoreboard_service J acc freeze mode))"
  unfolding api_get_scoreboard_def api_export_scoreboard_def by (intro errs_rules)+

lemma join_errs: "errs (\<lambda>e. err_key e = [] \<or> answered e) (api_join_team A user token)"
  unfolding api_join_team_def join_as_def add_member_def by (intro errs_rules; simp)+

section \<open>Texts\<close>

text \<open>
  An error's text is looked up by the key of the answer, with exactly the parameters its
  message names; the errors of tokens and mail likewise.
\<close>

lemma localize_passes_params:
  "\<exists>args. map fst args = service_error_params e \<and>
     service_localize F lang e =
       (if args = [] then fl_lookup F (lang_id F lang) (service_error_key e)
        else fl_lookup_with_args F (lang_id F lang) (service_error_key e) args)"
proof (cases "service_error_params e = []")
  case True
  then show ?thesis
    by (intro exI [of _ "[]"])
       (auto simp: service_localize_def repo_localize_def service_error_key_def service_error_params_def Let_def
         split: service_error.splits repo_error.splits)
next
  case False
  then obtain reason where "e = Repo (Internal reason) \<or> e = OAuth reason \<or> e = Kube reason"
    by (auto simp: service_error_params_def split: service_error.splits repo_error.splits)
  then show ?thesis
    by (intro exI [of _ "[(''reason'', reason)]"])
       (auto simp: service_localize_def repo_localize_def service_error_key_def service_error_params_def Let_def)
qed

lemma mail_errors_explained: "map_of error_messages (fst (email_error_key e)) = Some (map fst (snd (email_error_key e)))"
  by (cases e) (simp_all add: email_error_key_def error_messages_def)

text \<open>
  The reasons of a failed CTFtime login are keys of messages, but they are put into another
  message as they are.
\<close>

lemma oauth_reason_is_a_bare_key:
  "service_localize F lang (OAuth ''auth-oauth-token-failed'') =
     fl_lookup_with_args F (lang_id F lang) ''oauth-invalid-credentials'' [(''reason'', ''auth-oauth-token-failed'')] \<and>
   has_message ''auth-oauth-token-failed''"
  by (simp add: service_localize_def has_message_def error_messages_def Let_def)


end
