(* ===== verification/Spec2Isabelle.thy ===== *)
theory Spec2Isabelle
  imports Scenarios Replies
begin

text \<open>
  cctf.rs, a platform for capture-the-flag events: players register, form teams, submit flags
  for challenges, pay for hints, and a scoreboard ranks the teams. The crate has a data model
  (\<open>src/src/libs/types\<close>), repository traits with a PostgreSQL implementation
  (\<open>src/src/libs/repos\<close>), services on the traits (\<open>src/src/libs/services\<close>) and HTTP handlers on
  the services (\<open>src/src/libs/api\<close>); \<open>src/src/main.rs\<close> puts them together. The development
  models the four layers in that order. Paths below are relative to \<open>src/src/libs\<close>.

  \<^bold>\<open>Conventions.\<close> An operation of the code that reads or changes state and can fail is an action,
  a function from a state to an error or a result and the new state (Prelude: \<open>try_await\<close> is
  Rust's \<open>?\<close>, \<open>attempt\<close> keeps the error as a value where the code drops or inspects it). Every
  statement of the database, every access of the disk and every operation of a socket can
  fail: the state carries a schedule of faults which they consume, and the theorems hold for
  every schedule unless they say otherwise. The clock is part of the database; identifiers
  the code draws at random are arguments. A request runs to its end before the next starts,
  except in Races.
  Machine integers are words of their width; \<open>i64\<close> is an integer with \<open>wrap_i64\<close> where the code
  adds or subtracts; \<open>f64\<close> is IEEE arithmetic on rationals (F64). A Rust string is the list of
  its UTF-8 bytes (Strings, Text). A trait is a record of its methods over a store (Repos),
  and what a service needs of it a locale, interpreted on the database.

  \<^bold>\<open>Crates and other code not in the repository\<close> are records of functions, arguments of what uses
  them: \<open>ext\<close> (regex, rhai, constant-time comparison), \<open>crypto\<close> (HMAC, base64, serde of tokens),
  \<open>serde\<close> (the JSON columns), \<open>argon\<close>, \<open>ctftime_server\<close>, \<open>kube\<close>, \<open>tls_library\<close>, \<open>fluent\<close>, the \<open>rclone\<close>
  process and the HTTP client of the proxy. What the code relies on is a predicate
  (\<open>lawful_ext\<close>, \<open>lawful_crypto\<close>, \<open>lawful_fields\<close> and so on); Demo and Scenarios instantiate every
  one of them and prove the predicates there.

  \<^bold>\<open>Theories, in the order of the layers.\<close>

  \<^item> Data and scoring: Types is \<open>types/\<close>; Scoring is the point formula of \<open>services/solve.rs\<close>;
    Values says what points, prices and flag checks are for every input.
  \<^item> Storage of rows: Repos holds the traits and errors (\<open>repos/mod.rs\<close>, \<open>repos/traits.rs\<close>); Pg the
    tables, constraints and row mappers (\<open>repos/pg/mod.rs\<close>, \<open>mappers.rs\<close>); PgRepos the repository
    methods, one per method, one statement per query; PgStore shows that they keep the
    contracts; Persistence states the round trips; Keys and Schema the invariants of the
    tables: unique identities, typed rows, references that resolve.
  \<^item> Services of the game: Solve, Hint and Scoreboard are \<open>services/solve.rs\<close>, \<open>hint.rs\<close> and
    \<open>scoreboard.rs\<close>, each with its locale and what one call does over any lawful store. Platform
    is the state machine of requests over the database with its invariants (one solve per
    side, attempt limits, prerequisites, hints charged once); Contest is the abstract game,
    and every run of the platform refines it. Races runs the same services with other requests
    taking effect before any repository call: what overlapping requests of other teams may do,
    and what goes wrong when two of one team overlap. Board carries the scoreboard to the database.
  \<^item> Requests: Access has the rate limiter, extractors and tokens (\<open>api/extract.rs\<close>,
    \<open>crypto/jwt.rs\<close>); App the handlers of flags, hints, teams, brackets and challenges; Handlers
    and Views what they promise.
  \<^item> Accounts: \<open>services/auth.rs\<close> and \<open>api/auth.rs\<close>.
  \<^item> Instances: \<open>services/instancer.rs\<close>. A sleeping task that will destroy an instance is a
    pending timer; \<open>wake_timers\<close> runs those whose time has come.
  \<^item> Files: Storage is \<open>services/storage.rs\<close>, a contract with the local directory and the \<open>rclone\<close>
    remote as implementations; Files is \<open>services/files.rs\<close> and \<open>api/files.rs\<close>, a client of it.
  \<^item> Notifications: Notices is \<open>services/notifications.rs\<close>, \<open>api/notifications.rs\<close>, and the small
    \<open>services/config.rs\<close> and \<open>api/scoreboard.rs\<close>.
  \<^item> Mail: Smtp is the catcher (\<open>services/email/server.rs\<close>), Mailer the sender and the webhook
    (\<open>client.rs\<close>, \<open>http.rs\<close>), Delivery their composition, byte for byte.
  \<^item> The edge: Gateway is \<open>api/proxy.rs\<close> and the routes of \<open>api/mod.rs\<close>; Startup is \<open>main.rs\<close>.
  \<^item> Texts: Messages is the \<open>localize\<close> functions and the localized documents of \<open>api/openapi.rs\<close>;
    Replies has the keys of the bundles in \<open>src/locales\<close> and carries the errors of every
    repository method, service and handler to them.
  \<^item> Demo holds a small event; Cases and Scenarios run the model on it and apply every property
    that has hypotheses.

  \<^bold>\<open>State.\<close> A row of a table is a record with the columns of the schema (\<open>account_row\<close>, \<open>team_row\<close>
  and so on), the database \<open>db\<close> the record of all tables with its faults and clock; the process
  \<open>world\<close> adds the rate limiter's memory and what was sent on the broadcast channel. The disk
  is a map from paths to contents, a socket its bytes to come and its bytes written, the
  cluster of the instancer a type of its own. A view such as \<open>subs_in\<close> or \<open>teams_in\<close> is what
  the code's types make of the rows.

  \<^bold>\<open>Loops and fuel.\<close> All loops are structural or end by a measure, but one: the search of the
  CTFtime login for a free user name counts upwards without a bound. It has fuel, and with
  more fuel than there are accounts (and less than \<open>2 ^ 31\<close>, below which the counter does not wrap)
  it never runs out. The loops of the mail protocol consume a line of input each time.

  \<^bold>\<open>Where the code falls short.\<close> Some theorems state what goes wrong: an update of a challenge is
  always refused by the driver; a failed join can answer success and leave the team empty; a
  renewed instance is destroyed at its first deadline; two requests of one team at once are
  both counted; a white space of several bytes ends a
  mail session with a panic; the export shows solves after the freeze; the visibility gate
  lets a request through when the database fails; a schema property called description
  keeps the key of its text. The properties about correct behaviour
  are stated so that these cases are visible in them.

  \<^bold>\<open>Not modelled.\<close> The insides of the crates above; the wording of messages (handlers answer
  with a status and a message key); reading and writing JSON and YAML; accepting connections, connecting to the
  database, creating its tables and serving; overlapping requests other than flag
  submissions and hint unlocks, and the single statements within a repository call; the tests
  (\<open>api/tests.rs\<close>, \<open>src/tests\<close>, the test modules of \<open>instancer.rs\<close>, \<open>jwt.rs\<close>, \<open>storage.rs\<close> and the mail
  files).
\<close>

end
